(* ===== verification/PBFT_Prelude.thy ===== *)
theory PBFT_Prelude
  imports Main "HOL-Library.Word" "HOL-Library.AList"
begin

text \<open>
  Shared vocabulary of the development: the names of the machine types the C++ sources use, the
  result type that stands for C++ exceptions, the wrap-around of \<^verbatim>\<open>int64_t\<close> and
  \<^verbatim>\<open>uint64_t\<close> arithmetic, and the generic facts on lists and association lists that the
  component theories rely on.
\<close>

named_theorems engine_simps \<open>unfolding rules of the engine's small helper operations\<close>
named_theorems cache_simps \<open>what a cache operation does to each field it may touch\<close>

section \<open>Machine types\<close>

type_synonym byte = "8 word"
type_synonym bytes = "byte list"
type_synonym u256 = "256 word"
type_synonym h256 = "256 word"
type_synonym h512 = "512 word"
type_synonym IDXTYPE = "16 word"
type_synonym VIEWTYPE = int

text \<open>
  \<^verbatim>\<open>int64_t\<close> values are mathematical integers in the model; wherever the code adds or subtracts
  them the result goes through \<open>s64\<close>, two's complement at 64 bits.  \<^verbatim>\<open>uint64_t\<close> results go
  through \<open>u64\<close>.
\<close>

definition s64 :: "int \<Rightarrow> int" where
  "s64 x = (x + 2 ^ 63) mod 2 ^ 64 - 2 ^ 63"

definition u64 :: "int \<Rightarrow> int" where
  "u64 x = x mod 2 ^ 64"

definition is_s64 :: "int \<Rightarrow> bool" where
  "is_s64 x \<longleftrightarrow> - (2 ^ 63) \<le> x \<and> x < 2 ^ 63"

section \<open>Exceptions as values\<close>

text \<open>Sequencing of computations that may throw: \<open>Inl\<close> carries the exception.\<close>

definition ebind :: "'e + 'a \<Rightarrow> ('a \<Rightarrow> 'e + 'b) \<Rightarrow> 'e + 'b" where
  "ebind m f = (case m of Inl e \<Rightarrow> Inl e | Inr x \<Rightarrow> f x)"

section \<open>Facts on 64-bit arithmetic\<close>

lemma s64_id [simp]: "is_s64 x \<Longrightarrow> s64 x = x"
  by (simp add: s64_def is_s64_def)

lemma is_s64_s64 [simp]: "is_s64 (s64 x)"
proof -
  have "0 \<le> (x + 2 ^ 63) mod 2 ^ 64" "(x + 2 ^ 63) mod 2 ^ 64 < (2 ^ 64 :: int)"
    by simp_all
  then show ?thesis by (simp add: s64_def is_s64_def)
qed

section \<open>Facts on lists\<close>

lemma length_1_nth [simp]: "length b = Suc 0 \<Longrightarrow> [b ! 0] = b"
  by (cases b) simp_all

lemma set_AList_update: "set (AList.update k v xs) \<subseteq> insert (k, v) (set xs)"
  by (induction xs) auto

lemma set_AList_delete: "set (AList.delete k xs) \<subseteq> set xs"
  by (auto simp: AList.delete_eq)

section \<open>Facts on exceptions\<close>

lemma ebind_simps [simp]:
  "ebind (Inl e) f = Inl e"
  "ebind (Inr x) f = f x"
  by (simp_all add: ebind_def)

lemma ebind_Inr [simp]: "ebind m Inr = m"
  by (cases m) simp_all

lemma ebind_eq_Inr: "ebind m f = Inr y \<longleftrightarrow> (\<exists>x. m = Inr x \<and> f x = Inr y)"
  by (cases m) simp_all

end
