(* ===== verification/Hex.thy ===== *)
theory Hex
  imports PBFT_Prelude
begin

text \<open>
  Hexadecimal strings, \<^verbatim>\<open>libdevcore/CommonData.h\<close> and \<^verbatim>\<open>libdevcore/CommonData.cpp\<close>.  The request
  caches and the broadcast cache use \<^verbatim>\<open>toHex(sig)\<close> and \<^verbatim>\<open>uniqueKey()\<close> as keys, so what the caches
  promise rests on \<open>toHex\<close> being injective.
\<close>

unbundle bit_operations_syntax

section \<open>Definitions\<close>

definition hexdigits :: string where
  "hexdigits = ''0123456789abcdef''"

definition toHex_prefix :: "bytes \<Rightarrow> string \<Rightarrow> string" where
  "toHex_prefix bs prefix =
     prefix @ concat (map (\<lambda>b. [hexdigits ! unat ((drop_bit 4 b) AND 0x0f), hexdigits ! unat (b AND 0x0f)]) bs)"

definition toHex :: "bytes \<Rightarrow> string" where
  "toHex bs = toHex_prefix bs []"

definition toHexPrefixed :: "bytes \<Rightarrow> string" where
  "toHexPrefixed bs = toHex_prefix bs ''0x''"

text \<open>\<open>-1\<close> is the source's error value.\<close>

definition fromHexChar :: "char \<Rightarrow> int" where
  "fromHexChar c =
     (let i = of_char c in
      if i \<ge> 48 \<and> i \<le> 57 then i - 48
      else if i \<ge> 97 \<and> i \<le> 102 then i - 97 + 10
      else if i \<ge> 65 \<and> i \<le> 70 then i - 65 + 10
      else - 1)"

definition isHex :: "string \<Rightarrow> bool" where
  "isHex s = list_all (\<lambda>c. fromHexChar c \<noteq> - 1) (if take 2 s = ''0x'' then drop 2 s else s)"

datatype hex_error = BadHexCharacter

text \<open>
  The pair loop of \<^verbatim>\<open>fromHex\<close>; a bad character gives the error under \<^verbatim>\<open>WhenError::Throw\<close> and the
  empty byte array otherwise.  The loop only ever sees an even number of characters.
\<close>

definition hexFail :: "bool \<Rightarrow> hex_error + bytes" where
  "hexFail throw = (if throw then Inl BadHexCharacter else Inr [])"

fun fromHex_loop :: "bool \<Rightarrow> string \<Rightarrow> bytes \<Rightarrow> hex_error + bytes" where
  "fromHex_loop throw (a # b # cs) ret =
     (let h = fromHexChar a; l = fromHexChar b in
      if h \<noteq> - 1 \<and> l \<noteq> - 1 then fromHex_loop throw cs (ret @ [of_int (h * 16 + l)])
      else hexFail throw)"
| "fromHex_loop throw _ ret = Inr ret"

definition fromHex :: "string \<Rightarrow> bool \<Rightarrow> hex_error + bytes" where
  "fromHex s throw =
     (let n = (if length s \<ge> 2 \<and> s ! 0 = CHR ''0'' \<and> s ! 1 = CHR ''x'' then 2 else 0) in
      if length s mod 2 = 1 then
        (let h = fromHexChar (s ! n) in
         if h \<noteq> - 1 then fromHex_loop throw (drop (n + 1) s) [of_int h] else hexFail throw)
      else fromHex_loop throw (drop n s) [])"

definition asNibbles :: "bytes \<Rightarrow> bytes" where
  "asNibbles bs = concat (map (\<lambda>i. [i div 16, i mod 16]) bs)"

section \<open>Digits\<close>

lemma nibble_cases:
  "n < 16 \<Longrightarrow> n \<in> {0, 1, 2, 3, 4, 5, 6, 7, 8, 9, 10, 11, 12, 13, 14, 15 :: nat}"
  unfolding insert_iff empty_iff by presburger

lemma fromHexChar_digit: "n < 16 \<Longrightarrow> fromHexChar (hexdigits ! n) = int n"
  by (drule nibble_cases, elim insertE emptyE) (simp_all add: hexdigits_def fromHexChar_def)

lemma digit_not_x: "n < 16 \<Longrightarrow> hexdigits ! n \<noteq> CHR ''x''"
  by (drule nibble_cases, elim insertE emptyE) (simp_all add: hexdigits_def)

lemma low_nibble: "unat (b AND 0x0f :: byte) = unat b mod 16"
proof -
  have "b AND 0x0f = take_bit 4 b" by (simp add: take_bit_eq_mask mask_eq_exp_minus_1)
  then show ?thesis by (simp add: take_bit_eq_mod unat_mod_distrib)
qed

lemma high_nibble: "unat ((drop_bit 4 b) AND 0x0f :: byte) = unat b div 16"
proof -
  have "unat (drop_bit 4 b) = unat b div 16"
    by (simp add: drop_bit_eq_div unat_div_distrib)
  then show ?thesis using unsigned_less [where 'a = nat, of b] by (simp add: low_nibble)
qed

lemma join_nibbles: "of_nat (unat b div 16) * 16 + of_nat (unat b mod 16) = (b :: byte)"
proof -
  have "of_nat (unat b div 16) * 16 + of_nat (unat b mod 16) =
      (of_nat (unat b div 16 * 16 + unat b mod 16) :: byte)"
    by (simp only: of_nat_add of_nat_mult of_nat_numeral)
  also have "\<dots> = b" by simp
  finally show ?thesis .
qed

section \<open>Round trip\<close>

lemma toHex_Cons:
  "toHex (b # bs) = hexdigits ! (unat b div 16) # hexdigits ! (unat b mod 16) # toHex bs"
  by (simp add: toHex_def toHex_prefix_def high_nibble) (simp add: low_nibble)

lemma toHex_Nil [simp]: "toHex [] = []"
  by (simp add: toHex_def toHex_prefix_def)

lemma length_toHex [simp]: "length (toHex bs) = 2 * length bs"
  by (induction bs) (simp_all add: toHex_Cons)

lemma byte_nibbles [simp]: "unat (b :: byte) div 16 < 16"
  using unsigned_less [where 'a = nat, of b] by simp

lemma fromHex_loop_toHex: "fromHex_loop throw (toHex bs) ret = Inr (ret @ bs)"
  by (induction bs arbitrary: ret)
     (simp_all add: toHex_Cons fromHexChar_digit Let_def join_nibbles)

lemma toHex_no_prefix: "\<not> (length (toHex bs) \<ge> 2 \<and> toHex bs ! 0 = CHR ''0'' \<and> toHex bs ! 1 = CHR ''x'')"
  by (cases bs) (simp_all add: toHex_Cons digit_not_x)

lemma fromHex_toHex: "fromHex (toHex bs) throw = Inr bs"
proof -
  have "(if length (toHex bs) \<ge> 2 \<and> toHex bs ! 0 = CHR ''0'' \<and> toHex bs ! 1 = CHR ''x''
         then 2 else 0) = (0 :: nat)"
    using toHex_no_prefix [of bs] by (simp only: if_False)
  then show ?thesis
    unfolding fromHex_def Let_def by (simp add: fromHex_loop_toHex)
qed

lemma toHex_inject [simp]: "toHex a = toHex b \<longleftrightarrow> a = b"
  using fromHex_toHex [of a True] fromHex_toHex [of b True] by (metis sum.inject(2))

lemma toHex_append: "toHex (a @ b) = toHex a @ toHex b"
  by (simp add: toHex_def toHex_prefix_def)

section \<open>Properties\<close>

lemma toHexPrefixed_eq: "toHexPrefixed bs = ''0x'' @ toHex bs"
  by (simp add: toHexPrefixed_def toHex_def toHex_prefix_def)

text \<open>
  Hexadecimal text loses nothing.  Reading back what \<^verbatim>\<open>toHex\<close> or \<^verbatim>\<open>toHexPrefixed\<close> wrote gives
  the original bytes, in the throwing and in the lenient mode of \<^verbatim>\<open>fromHex\<close>; in particular two
  different signatures never share a key in the caches.
\<close>

theorem hex_round_trip:
  "fromHex (toHex bs) throw = Inr bs \<and> fromHex (toHexPrefixed bs) throw = Inr bs \<and>
   (toHex bs = toHex bs' \<longleftrightarrow> bs = bs')"
  using fromHex_loop_toHex [of throw bs "[]"]
  by (simp add: fromHex_toHex toHexPrefixed_eq) (simp add: fromHex_def Let_def mod_Suc)

end
