(* ===== verification/Rlp.thy ===== *)
theory Rlp
  imports PBFT_Prelude
begin

text \<open>
  The recursive length prefix codec of \<^verbatim>\<open>libdevcore/RLP.h\<close>, \<^verbatim>\<open>libdevcore/RLP.cpp\<close> and the
  big-endian helpers of \<^verbatim>\<open>libdevcore/CommonData.h\<close>.

  \<^item> A \<^verbatim>\<open>bytesConstRef\<close> is the list of bytes it views; \<^verbatim>\<open>cropped\<close> is \<open>cropped\<close>/\<open>cropped_from\<close>.
  \<^item> The reader class \<^verbatim>\<open>RLP\<close> is the record \<open>rlp\<close>: its data and the indexing cache that
    \<^verbatim>\<open>operator[]\<close> keeps (\<open>m_lastIndex\<close>, \<open>m_lastEnd\<close>, \<open>m_lastItem\<close>).  Member functions that only read
    \<^verbatim>\<open>m_data\<close> take the byte list.
  \<^item> The writer class \<^verbatim>\<open>RLPStream\<close> is the record \<open>rlp_stream\<close>: the output and the stack of lists that
    are still open; the head of the model's list is the back of \<^verbatim>\<open>m_listStack\<close>.
  \<^item> Every \<^verbatim>\<open>BOOST_THROW_EXCEPTION\<close> is an \<open>Inl\<close> value.

  The theorems: writing a tree of items through the stream produces the canonical encoding of the
  tree, reading the canonical encoding gives back each item, integer and hash, the encoding is
  prefix free, and the indexing cache is transparent.
\<close>

section \<open>Exceptions and constants\<close>

datatype rlp_error = BadRLP | UndersizeRLP | OversizeRLP | BadCast | RLPException

definition c_rlpMaxLengthBytes :: nat where "c_rlpMaxLengthBytes = 8"
definition c_rlpDataImmLenStart :: nat where "c_rlpDataImmLenStart = 0x80"
definition c_rlpListStart :: nat where "c_rlpListStart = 0xc0"
definition c_rlpDataImmLenCount :: nat where
  "c_rlpDataImmLenCount = c_rlpListStart - c_rlpDataImmLenStart - c_rlpMaxLengthBytes"
definition c_rlpDataIndLenZero :: nat where
  "c_rlpDataIndLenZero = c_rlpDataImmLenStart + c_rlpDataImmLenCount - 1"
definition c_rlpListImmLenCount :: nat where
  "c_rlpListImmLenCount = 256 - c_rlpListStart - c_rlpMaxLengthBytes"
definition c_rlpListIndLenZero :: nat where
  "c_rlpListIndLenZero = c_rlpListStart + c_rlpListImmLenCount - 1"

text \<open>The strictness flags of \<^verbatim>\<open>class RLP\<close>, an \<^verbatim>\<open>int\<close> bit mask.\<close>

definition AllowNonCanon :: nat where "AllowNonCanon = 1"
definition ThrowOnFail :: nat where "ThrowOnFail = 4"
definition FailIfTooBig :: nat where "FailIfTooBig = 8"
definition FailIfTooSmall :: nat where "FailIfTooSmall = 16"
definition Strict :: nat where "Strict = ThrowOnFail + FailIfTooBig"
definition VeryStrict :: nat where "VeryStrict = ThrowOnFail + FailIfTooBig + FailIfTooSmall"
definition LaissezFaire :: nat where "LaissezFaire = AllowNonCanon"

definition has_flag :: "nat \<Rightarrow> nat \<Rightarrow> bool" where
  "has_flag s f \<longleftrightarrow> odd (s div f)"

section \<open>Big-endian integers\<close>

fun bytesRequired :: "nat \<Rightarrow> nat" where
  "bytesRequired i = (if i = 0 then 0 else Suc (bytesRequired (i div 256)))"

declare bytesRequired.simps [simp del]

text \<open>\<open>toBigEndian n v\<close> fills a buffer of \<open>n\<close> bytes from its end.\<close>

fun toBigEndian :: "nat \<Rightarrow> nat \<Rightarrow> bytes" where
  "toBigEndian 0 v = []"
| "toBigEndian (Suc n) v = toBigEndian n (v div 256) @ [of_nat (v mod 256)]"

definition fromBigEndian :: "bytes \<Rightarrow> nat" where
  "fromBigEndian bs = foldl (\<lambda>ret i. ret * 256 + unat i) 0 bs"

text \<open>The instances of \<^verbatim>\<open>fromBigEndian\<close> at an unsigned type of \<open>w\<close> bits keep the low \<open>w\<close> bits.\<close>

definition fromBigEndian_w :: "nat \<Rightarrow> bytes \<Rightarrow> nat" where
  "fromBigEndian_w w bs = foldl (\<lambda>ret i. (ret * 256 + unat i) mod 2 ^ w) 0 bs"

section \<open>Views of bytes\<close>

definition cropped :: "nat \<Rightarrow> nat \<Rightarrow> bytes \<Rightarrow> bytes" where
  "cropped b c d =
     (if b \<le> length d \<and> c \<le> length d \<and> b + c \<le> length d then take c (drop b d) else [])"

definition cropped_from :: "nat \<Rightarrow> bytes \<Rightarrow> bytes" where
  "cropped_from b d = (if b \<le> length d then drop b d else [])"

section \<open>The reader\<close>

definition isNull :: "bytes \<Rightarrow> bool" where
  "isNull d \<longleftrightarrow> length d = 0"

definition isSingleByte :: "bytes \<Rightarrow> bool" where
  "isSingleByte d \<longleftrightarrow> \<not> isNull d \<and> unat (d ! 0) < c_rlpDataImmLenStart"

definition isData :: "bytes \<Rightarrow> bool" where
  "isData d \<longleftrightarrow> \<not> isNull d \<and> unat (d ! 0) < c_rlpListStart"

definition isList :: "bytes \<Rightarrow> bool" where
  "isList d \<longleftrightarrow> \<not> isNull d \<and> unat (d ! 0) \<ge> c_rlpListStart"

definition requireGood :: "bytes \<Rightarrow> rlp_error + unit" where
  "requireGood d =
     (if isNull d then Inl BadRLP
      else if unat (d ! 0) \<noteq> c_rlpDataImmLenStart + 1 then Inr ()
      else if length d < 2 then Inl BadRLP
      else if unat (d ! 1) < c_rlpDataImmLenStart then Inl BadRLP
      else Inr ())"

definition isInt :: "bytes \<Rightarrow> rlp_error + bool" where
  "isInt d =
     (if isNull d then Inr False
      else ebind (requireGood d) (\<lambda>_.
        let n = unat (d ! 0) in
        if n < c_rlpDataImmLenStart then Inr (n \<noteq> 0)
        else if n = c_rlpDataImmLenStart then Inr True
        else if n \<le> c_rlpDataIndLenZero then
          (if length d \<le> 1 then Inl BadRLP else Inr (d ! 1 \<noteq> 0))
        else if n < c_rlpListStart then
          (if length d \<le> 1 + n - c_rlpDataIndLenZero then Inl BadRLP
           else Inr (d ! (1 + n - c_rlpDataIndLenZero) \<noteq> 0))
        else Inr False))"

text \<open>
  The two long forms of \<^verbatim>\<open>length\<close>: \<open>ls\<close> length bytes follow the prefix, and the length they hold
  must exceed what the short form can express.  \<open>2 ^ 64 - 1\<close> is
  \<^verbatim>\<open>std::numeric_limits<size_t>::max()\<close>.
\<close>

definition longLength :: "bytes \<Rightarrow> nat \<Rightarrow> nat \<Rightarrow> rlp_error + nat" where
  "longLength d ls limit =
     (if length d \<le> ls then Inl BadRLP
      else if length d > 1 \<and> d ! 1 = 0 then Inl BadRLP
      else if ls > 8 then Inl UndersizeRLP
      else if d ! 1 = 0 then Inl BadRLP
      else
        let ret = fromBigEndian_w 64 (take ls (drop 1 d)) in
        if ret < limit then Inl BadRLP
        else if ret \<ge> (2 ^ 64 - 1) - 0x100 then Inl UndersizeRLP
        else Inr ret)"

definition rlp_length :: "bytes \<Rightarrow> rlp_error + nat" where
  "rlp_length d =
     (if isNull d then Inr 0
      else ebind (requireGood d) (\<lambda>_.
        let n = unat (d ! 0) in
        if n < c_rlpDataImmLenStart then Inr 1
        else if n \<le> c_rlpDataIndLenZero then Inr (n - c_rlpDataImmLenStart)
        else if n < c_rlpListStart then
          longLength d (n - c_rlpDataIndLenZero)
            (c_rlpListStart - c_rlpDataImmLenStart - c_rlpMaxLengthBytes)
        else if n \<le> c_rlpListIndLenZero then Inr (n - c_rlpListStart)
        else
          longLength d (n - c_rlpListIndLenZero)
            (0x100 - c_rlpListStart - c_rlpMaxLengthBytes)))"

definition lengthSize :: "bytes \<Rightarrow> nat" where
  "lengthSize d =
     (if isData d \<and> unat (d ! 0) > c_rlpDataIndLenZero then unat (d ! 0) - c_rlpDataIndLenZero
      else if isList d \<and> unat (d ! 0) > c_rlpListIndLenZero then unat (d ! 0) - c_rlpListIndLenZero
      else 0)"

definition payloadOffset :: "bytes \<Rightarrow> nat" where
  "payloadOffset d = (if isSingleByte d then 0 else 1 + lengthSize d)"

definition payload :: "bytes \<Rightarrow> rlp_error + bytes" where
  "payload d = ebind (rlp_length d) (\<lambda>l.
     if l > length d then Inl BadRLP else Inr (cropped (payloadOffset d) l d))"

definition actualSize :: "bytes \<Rightarrow> rlp_error + nat" where
  "actualSize d =
     (if isNull d then Inr 0
      else if isSingleByte d then Inr 1
      else if isData d \<or> isList d then
        ebind (rlp_length d) (\<lambda>l. Inr (payloadOffset d + l))
      else Inr 0)"

text \<open>The constructor: what \<^verbatim>\<open>m_data\<close> becomes.\<close>

definition mkRLP :: "nat \<Rightarrow> bytes \<Rightarrow> rlp_error + bytes" where
  "mkRLP s d =
     ebind (if has_flag s FailIfTooBig
            then ebind (actualSize d) (\<lambda>a.
              if a < length d then (if has_flag s ThrowOnFail then Inl OversizeRLP else Inr [])
              else Inr d)
            else Inr d) (\<lambda>d'.
     if has_flag s FailIfTooSmall
     then ebind (actualSize d') (\<lambda>a.
       if a > length d then (if has_flag s ThrowOnFail then Inl UndersizeRLP else Inr [])
       else Inr d')
     else Inr d')"

definition sizeAsEncoded :: "bytes \<Rightarrow> rlp_error + nat" where
  "sizeAsEncoded d = ebind (mkRLP (ThrowOnFail + FailIfTooSmall) d) actualSize"

record rlp =
  m_data :: bytes
  m_lastIndex :: nat
  m_lastEnd :: nat
  m_lastItem :: bytes

definition rlp_of :: "bytes \<Rightarrow> rlp" where
  "rlp_of d = \<lparr> m_data = d, m_lastIndex = 2 ^ 64 - 1, m_lastEnd = 0, m_lastItem = [] \<rparr>"

text \<open>
  The \<^verbatim>\<open>for\<close> loop of \<^verbatim>\<open>operator[]\<close>; the first argument after the object is the number of steps
  left, \<^verbatim>\<open>_i - m_lastIndex\<close>.
\<close>

fun index_loop :: "rlp \<Rightarrow> nat \<Rightarrow> rlp_error + rlp" where
  "index_loop r 0 = Inr r"
| "index_loop r (Suc k) =
     (if length (m_lastItem r) = 0 then Inr r
      else ebind (payload (m_data r)) (\<lambda>p.
        let it = cropped_from (m_lastEnd r) p in
        ebind (sizeAsEncoded it) (\<lambda>n.
        let it' = cropped 0 n it in
        index_loop (r\<lparr> m_lastItem := it', m_lastEnd := m_lastEnd r + length it',
                       m_lastIndex := Suc (m_lastIndex r) \<rparr>) k)))"

definition rlp_index :: "rlp \<Rightarrow> nat \<Rightarrow> rlp_error + (rlp \<times> bytes)" where
  "rlp_index r i =
     ebind (if i < m_lastIndex r
            then ebind (payload (m_data r)) (\<lambda>p.
              ebind (sizeAsEncoded p) (\<lambda>n.
              Inr (r\<lparr> m_lastEnd := n, m_lastItem := cropped 0 n p, m_lastIndex := 0 \<rparr>)))
            else Inr r) (\<lambda>r'.
     ebind (index_loop r' (i - m_lastIndex r')) (\<lambda>r''.
     ebind (mkRLP (ThrowOnFail + FailIfTooSmall) (m_lastItem r'')) (\<lambda>d.
     Inr (r'', d))))"

text \<open>\<^verbatim>\<open>operator[]\<close> on a freshly built object.\<close>

definition rlp_at :: "bytes \<Rightarrow> nat \<Rightarrow> rlp_error + bytes" where
  "rlp_at d i = ebind (rlp_index (rlp_of d) i) (\<lambda>x. Inr (snd x))"

text \<open>\<^verbatim>\<open>items\<close>: every round drops at least one byte, so the list length bounds the rounds.\<close>

fun items_loop :: "nat \<Rightarrow> bytes \<Rightarrow> nat \<Rightarrow> rlp_error + nat" where
  "items_loop 0 d i = Inr i"
| "items_loop (Suc fuel) d i =
     (if length d = 0 then Inr i
      else ebind (sizeAsEncoded d) (\<lambda>n. items_loop fuel (cropped_from n d) (Suc i)))"

definition rlp_items :: "bytes \<Rightarrow> rlp_error + nat" where
  "rlp_items d =
     (if isList d then ebind (payload d) (\<lambda>p. items_loop (length p) p 0) else Inr 0)"

text \<open>
  The range-based \<^verbatim>\<open>for\<close> over an \<^verbatim>\<open>RLP\<close> list: \<^verbatim>\<open>iterator\<close> starts at the first encoded item of the
  payload, \<^verbatim>\<open>operator++\<close> moves to the bytes behind the current item, and \<^verbatim>\<open>operator*\<close> builds a
  very strict \<^verbatim>\<open>RLP\<close> from the item.  The number of bytes bounds the number of items.
\<close>

fun iter_items :: "nat \<Rightarrow> bytes \<Rightarrow> rlp_error + bytes list" where
  "iter_items 0 d = Inr []"
| "iter_items (Suc fuel) d =
     (if length d = 0 then Inr []
      else ebind (sizeAsEncoded d) (\<lambda>n.
        ebind (mkRLP VeryStrict (cropped 0 n d)) (\<lambda>it.
        ebind (iter_items fuel (cropped_from n d)) (\<lambda>its. Inr (it # its)))))"

definition rlp_iterate :: "bytes \<Rightarrow> rlp_error + bytes list" where
  "rlp_iterate d =
     (if isList d then ebind (payload d) (\<lambda>p. iter_items (length p) p) else Inr [])"

section \<open>Conversions\<close>

definition toBytes :: "nat \<Rightarrow> bytes \<Rightarrow> rlp_error + bytes" where
  "toBytes flags d =
     (if \<not> isData d then (if has_flag flags ThrowOnFail then Inl BadCast else Inr [])
      else ebind (payload d) (\<lambda>p. ebind (rlp_length d) (\<lambda>l. Inr (take l p))))"

text \<open>\<open>toInt w\<close> is \<^verbatim>\<open>toInt<T>\<close> at an unsigned type of \<open>w\<close> bits, \<open>w div 8\<close> its \<^verbatim>\<open>maxSize\<close>.\<close>

definition toInt :: "nat \<Rightarrow> nat \<Rightarrow> bytes \<Rightarrow> rlp_error + nat" where
  "toInt w flags d =
     ebind (requireGood d) (\<lambda>_.
     ebind (isInt d) (\<lambda>ii.
     if (\<not> ii \<and> \<not> has_flag flags AllowNonCanon) \<or> isList d \<or> isNull d
     then (if has_flag flags ThrowOnFail then Inl BadCast else Inr 0)
     else ebind (payload d) (\<lambda>p.
     if length p > w div 8 \<and> has_flag flags FailIfTooBig
     then (if has_flag flags ThrowOnFail then Inl BadCast else Inr 0)
     else Inr (fromBigEndian_w w p))))"

definition toInt64 :: "nat \<Rightarrow> bytes \<Rightarrow> rlp_error + int" where
  "toInt64 flags d = ebind (toInt 64 flags d) (\<lambda>n. Inr (s64 (int n)))"

definition toPositiveInt64 :: "nat \<Rightarrow> bytes \<Rightarrow> rlp_error + int" where
  "toPositiveInt64 flags d = ebind (toInt64 flags d) (\<lambda>i.
     if has_flag flags ThrowOnFail \<and> i < 0 then Inl BadCast else Inr i)"

text \<open>
  \<open>toHash n\<close> is \<^verbatim>\<open>toHash<FixedHash<n>>\<close>: the \<open>n\<close> bytes of the hash object, zero-filled in front when
  fewer are given.
\<close>

definition toHash :: "nat \<Rightarrow> nat \<Rightarrow> bytes \<Rightarrow> rlp_error + bytes" where
  "toHash n flags d =
     ebind (requireGood d) (\<lambda>_.
     ebind (payload d) (\<lambda>p.
     if \<not> isData d \<or> (length p > n \<and> has_flag flags FailIfTooBig)
        \<or> (length p < n \<and> has_flag flags FailIfTooSmall)
     then (if has_flag flags ThrowOnFail then Inl BadCast else Inr (replicate n 0))
     else let s = min n (length p) in Inr (replicate (n - s) 0 @ take s p)))"

text \<open>\<^verbatim>\<open>toVector<T>\<close> with the element conversion as an argument.\<close>

fun traverse :: "('a \<Rightarrow> 'e + 'b) \<Rightarrow> 'a list \<Rightarrow> 'e + 'b list" where
  "traverse f [] = Inr []"
| "traverse f (x # xs) = ebind (f x) (\<lambda>y. ebind (traverse f xs) (\<lambda>ys. Inr (y # ys)))"

definition toVector :: "(bytes \<Rightarrow> rlp_error + 'a) \<Rightarrow> nat \<Rightarrow> bytes \<Rightarrow> rlp_error + 'a list" where
  "toVector conv flags d =
     (if isList d then ebind (rlp_items d) (\<lambda>_. ebind (rlp_iterate d) (traverse conv))
      else if has_flag flags ThrowOnFail then Inl BadCast else Inr [])"

section \<open>The writer\<close>

record rlp_stream =
  m_out :: bytes
  m_listStack :: "(nat \<times> nat) list"

definition rlpStream :: rlp_stream where
  "rlpStream = \<lparr> m_out = [], m_listStack = [] \<rparr>"

text \<open>The prefix written in front of a finished list of \<open>s\<close> payload bytes.\<close>

definition closeHeader :: "nat \<Rightarrow> rlp_error + bytes" where
  "closeHeader s =
     (if s < c_rlpListImmLenCount then Inr [of_nat (c_rlpListStart + s)]
      else if c_rlpListIndLenZero + bytesRequired s \<le> 0xff
      then Inr (of_nat (c_rlpListIndLenZero + bytesRequired s)
                # toBigEndian (bytesRequired s) s)
      else Inl RLPException)"

fun noteAppended_loop :: "nat \<Rightarrow> bytes \<Rightarrow> (nat \<times> nat) list \<Rightarrow> rlp_error + rlp_stream" where
  "noteAppended_loop itemCount out [] = Inr \<lparr> m_out = out, m_listStack = [] \<rparr>"
| "noteAppended_loop itemCount out ((first, p) # st) =
     (if first < itemCount then Inl RLPException
      else if first - itemCount \<noteq> 0
      then Inr \<lparr> m_out = out, m_listStack = (first - itemCount, p) # st \<rparr>
      else ebind (closeHeader (length out - p)) (\<lambda>hdr.
             noteAppended_loop 1 (take p out @ hdr @ drop p out) st))"

definition noteAppended :: "nat \<Rightarrow> rlp_stream \<Rightarrow> rlp_error + rlp_stream" where
  "noteAppended itemCount s =
     (if itemCount = 0 then Inr s else noteAppended_loop itemCount (m_out s) (m_listStack s))"

definition push_back :: "byte \<Rightarrow> rlp_stream \<Rightarrow> rlp_stream" where
  "push_back b s = s\<lparr> m_out := m_out s @ [b] \<rparr>"

definition pushInt :: "nat \<Rightarrow> nat \<Rightarrow> rlp_stream \<Rightarrow> rlp_stream" where
  "pushInt i br s = s\<lparr> m_out := m_out s @ toBigEndian br i \<rparr>"

definition pushCount :: "nat \<Rightarrow> nat \<Rightarrow> rlp_stream \<Rightarrow> rlp_error + rlp_stream" where
  "pushCount count base s =
     (let br = bytesRequired count in
      if br + base > 0xff then Inl RLPException
      else Inr (pushInt count br (push_back (of_nat (br + base)) s)))"

definition appendRaw :: "bytes \<Rightarrow> nat \<Rightarrow> rlp_stream \<Rightarrow> rlp_error + rlp_stream" where
  "appendRaw bs itemCount s = noteAppended itemCount (s\<lparr> m_out := m_out s @ bs \<rparr>)"

definition appendList_raw :: "bytes \<Rightarrow> rlp_stream \<Rightarrow> rlp_error + rlp_stream" where
  "appendList_raw bs s =
     ebind (if length bs < c_rlpListImmLenCount
            then Inr (push_back (of_nat (length bs + c_rlpListStart)) s)
            else pushCount (length bs) c_rlpListIndLenZero s)
       (appendRaw bs 1)"

definition appendList :: "nat \<Rightarrow> rlp_stream \<Rightarrow> rlp_error + rlp_stream" where
  "appendList n s =
     (if n \<noteq> 0 then Inr (s\<lparr> m_listStack := (n, length (m_out s)) # m_listStack s \<rparr>)
      else appendList_raw [] s)"

definition append_bytes :: "bytes \<Rightarrow> bool \<Rightarrow> rlp_stream \<Rightarrow> rlp_error + rlp_stream" where
  "append_bytes bs compact s =
     (let d = (if compact then dropWhile (\<lambda>b. b = 0) bs else bs); n = length d in
      ebind (if n = 1 \<and> unat (d ! 0) < c_rlpDataImmLenStart then Inr (push_back (d ! 0) s)
             else ebind (if n < c_rlpDataImmLenCount
                         then Inr (push_back (of_nat (n + c_rlpDataImmLenStart)) s)
                         else pushCount n c_rlpDataIndLenZero s)
                    (appendRaw d 0))
        (noteAppended 1))"

text \<open>
  \<^verbatim>\<open>appendVector\<close>: the count opens the list, then every element is appended with the writer of its
  type.  Chains of \<^verbatim>\<open>operator<<\<close> are \<open>stream_all\<close>.
\<close>

definition stream_all :: "(rlp_stream \<Rightarrow> rlp_error + rlp_stream) list \<Rightarrow> rlp_stream \<Rightarrow> rlp_error + rlp_stream" where
  "stream_all fs s = foldl ebind (Inr s) fs"

definition appendVector :: "('a \<Rightarrow> rlp_stream \<Rightarrow> rlp_error + rlp_stream) \<Rightarrow> 'a list \<Rightarrow> rlp_stream \<Rightarrow> rlp_error + rlp_stream" where
  "appendVector app xs s = ebind (appendList (length xs) s) (stream_all (map app xs))"

definition append_bigint :: "nat \<Rightarrow> rlp_stream \<Rightarrow> rlp_error + rlp_stream" where
  "append_bigint i s =
     ebind (if i = 0 then Inr (push_back (of_nat c_rlpDataImmLenStart) s)
            else if i < c_rlpDataImmLenStart then Inr (push_back (of_nat i) s)
            else let br = bytesRequired i in
              ebind (if br < c_rlpDataImmLenCount
                     then Inr (push_back (of_nat (br + c_rlpDataImmLenStart)) s)
                     else let brbr = bytesRequired br in
                       if c_rlpDataIndLenZero + brbr > 0xff then Inl RLPException
                       else Inr (pushInt br brbr
                              (push_back (of_nat (c_rlpDataIndLenZero + brbr)) s)))
                (\<lambda>s'. Inr (pushInt i br s')))
       (noteAppended 1)"

definition rlp_out :: "rlp_stream \<Rightarrow> rlp_error + bytes" where
  "rlp_out s = (if m_listStack s \<noteq> [] then Inl RLPException else Inr (m_out s))"

section \<open>The canonical encoding of a tree of items\<close>

datatype rlp_item = RData bytes | RList "rlp_item list"

definition encHeader :: "nat \<Rightarrow> nat \<Rightarrow> nat \<Rightarrow> bytes" where
  "encHeader start indZero n =
     (if n < 56 then [of_nat (start + n)]
      else of_nat (indZero + bytesRequired n) # toBigEndian (bytesRequired n) n)"

fun enc :: "rlp_item \<Rightarrow> bytes" where
  "enc (RData s) =
     (if length s = 1 \<and> unat (s ! 0) < 0x80 then s else encHeader 0x80 0xb7 (length s) @ s)"
| "enc (RList ts) =
     (let p = concat (map enc ts) in encHeader 0xc0 0xf7 (length p) @ p)"

text \<open>Writing a tree with the operations of the stream, nested lists opened with \<open>appendList\<close>.\<close>

fun append_item :: "rlp_item \<Rightarrow> rlp_stream \<Rightarrow> rlp_error + rlp_stream"
  and append_items :: "rlp_item list \<Rightarrow> rlp_stream \<Rightarrow> rlp_error + rlp_stream" where
  "append_item (RData b) s = append_bytes b False s"
| "append_item (RList ts) s = ebind (appendList (length ts) s) (append_items ts)"
| "append_items [] s = Inr s"
| "append_items (t # ts) s = ebind (append_item t s) (append_items ts)"

text \<open>The payload sizes the reader accepts.\<close>

abbreviation rlp_limit :: nat where "rlp_limit \<equiv> 2 ^ 64 - 257"

lemmas rlp_consts =
  c_rlpMaxLengthBytes_def c_rlpDataImmLenStart_def c_rlpListStart_def c_rlpDataImmLenCount_def
  c_rlpDataIndLenZero_def c_rlpListImmLenCount_def c_rlpListIndLenZero_def

lemmas rlp_flags =
  has_flag_def AllowNonCanon_def ThrowOnFail_def FailIfTooBig_def FailIfTooSmall_def
  Strict_def VeryStrict_def LaissezFaire_def

section \<open>Big-endian facts\<close>

lemma unat_byte_of_nat [simp]: "k < 256 \<Longrightarrow> unat (of_nat k :: byte) = k"
  by (simp add: unat_of_nat take_bit_nat_eq_self)

lemma byte_lt_256 [simp]: "unat (b :: byte) < 256"
  using unsigned_less [of b] by simp

lemma length_toBigEndian [simp]: "length (toBigEndian n v) = n"
  by (induction n arbitrary: v) auto

lemma fromBigEndian_Nil [simp]: "fromBigEndian [] = 0"
  by (simp add: fromBigEndian_def)

lemma fromBigEndian_snoc [simp]: "fromBigEndian (bs @ [b]) = fromBigEndian bs * 256 + unat b"
  by (simp add: fromBigEndian_def)

lemma fromBigEndian_toBigEndian: "fromBigEndian (toBigEndian n v) = v mod 256 ^ n"
proof (induction n arbitrary: v)
  case (Suc n)
  have "v mod 256 ^ Suc n = 256 * (v div 256 mod 256 ^ n) + v mod 256"
    by (simp add: mod_mult2_eq)
  with Suc show ?case by simp
qed simp

lemma fromBigEndian_less: "fromBigEndian bs < 256 ^ length bs"
proof (induction bs rule: rev_induct)
  case (snoc b bs)
  then show ?case using byte_lt_256 [of b] by (simp del: byte_lt_256)
qed simp

lemma toBigEndian_fromBigEndian: "toBigEndian (length bs) (fromBigEndian bs) = bs"
proof (induction bs rule: rev_induct)
  case (snoc b bs)
  have "(fromBigEndian bs * 256 + unat b) div 256 = fromBigEndian bs"
    "(fromBigEndian bs * 256 + unat b) mod 256 = unat b"
    by simp_all
  with snoc show ?case by simp
qed simp

lemma fromBigEndian_w_mod: "fromBigEndian_w w bs = fromBigEndian bs mod 2 ^ w"
proof (induction bs rule: rev_induct)
  case (snoc b bs)
  then show ?case
    by (simp add: fromBigEndian_w_def mod_add_left_eq mod_mult_left_eq)
       (metis mod_add_left_eq mod_mult_left_eq)
qed (simp add: fromBigEndian_w_def)

lemma fromBigEndian_w_id:
  assumes "8 * length bs \<le> w"
  shows "fromBigEndian_w w bs = fromBigEndian bs"
proof -
  have "(256::nat) ^ length bs = 2 ^ (8 * length bs)" by (simp add: power_mult)
  also have "\<dots> \<le> 2 ^ w" using assms by (simp add: power_increasing)
  finally show ?thesis using fromBigEndian_less [of bs] by (simp add: fromBigEndian_w_mod)
qed

lemma bytesRequired_0 [simp]: "bytesRequired 0 = 0"
  by (simp add: bytesRequired.simps)

lemma bytesRequired_pos: "i > 0 \<Longrightarrow> bytesRequired i = Suc (bytesRequired (i div 256))"
  by (subst bytesRequired.simps) simp

lemma bytesRequired_le: "bytesRequired i \<le> n \<longleftrightarrow> i < 256 ^ n"
proof (induction n arbitrary: i)
  case 0
  then show ?case by (cases "i = 0") (simp_all add: bytesRequired_pos)
next
  case (Suc n)
  show ?case
  proof (cases "i = 0")
    case False
    then have "bytesRequired i \<le> Suc n \<longleftrightarrow> i div 256 < 256 ^ n"
      by (simp add: bytesRequired_pos Suc)
    also have "\<dots> \<longleftrightarrow> i < 256 ^ Suc n"
      by (simp add: div_less_iff_less_mult mult.commute)
    finally show ?thesis .
  qed simp
qed

lemma bytesRequired_le8: "n < 2 ^ 64 \<Longrightarrow> bytesRequired n \<le> 8"
  by (simp add: bytesRequired_le)

lemma less_bytesRequired: "i < 256 ^ bytesRequired i"
  using bytesRequired_le [of i "bytesRequired i"] by simp

lemma fromBigEndian_min [simp]: "fromBigEndian (toBigEndian (bytesRequired n) n) = n"
  by (simp add: fromBigEndian_toBigEndian less_bytesRequired)

lemma hd_toBigEndian:
  assumes "i > 0"
  shows "toBigEndian (bytesRequired i) i ! 0 \<noteq> 0"
  using assms
proof (induction i rule: bytesRequired.induct)
  case (1 i)
  show ?case
  proof (cases "i div 256 = 0")
    case True
    then have "i < 256" by (simp add: div_eq_0_iff)
    with 1 True show ?thesis
      by (simp add: bytesRequired_pos) (metis unat_byte_of_nat unsigned_0 neq0_conv)
  next
    case False
    with 1 have "toBigEndian (bytesRequired (i div 256)) (i div 256) ! 0 \<noteq> 0"
      and "bytesRequired (i div 256) > 0"
      by (auto simp: bytesRequired_pos)
    with 1 show ?thesis by (simp add: bytesRequired_pos nth_append)
  qed
qed

section \<open>Reading a canonical encoding\<close>

lemma bytesRequired_range:
  assumes "56 \<le> n" and "n < rlp_limit"
  shows "0 < bytesRequired n" and "bytesRequired n \<le> 8"
  using assms bytesRequired_pos [of n] bytesRequired_le8 [of n] by auto

lemma longLength_enc:
  assumes "56 \<le> n" and "n < rlp_limit"
  shows "longLength (b # toBigEndian (bytesRequired n) n @ r) (bytesRequired n) 56 = Inr n"
proof -
  note br = bytesRequired_range [OF assms]
  have "(b # toBigEndian (bytesRequired n) n @ r) ! 1 \<noteq> 0"
    using hd_toBigEndian [of n] assms br by (simp add: nth_append)
  moreover have "fromBigEndian_w 64 (toBigEndian (bytesRequired n) n) = n"
    using br by (simp add: fromBigEndian_w_id)
  ultimately show ?thesis
    using assms br by (simp add: longLength_def Let_def)
qed

lemma unat_header_short [simp]:
  "n < 56 \<Longrightarrow> unat (of_nat (0x80 + n) :: byte) = 0x80 + n"
  "n < 56 \<Longrightarrow> unat (of_nat (0xc0 + n) :: byte) = 0xc0 + n"
  by (rule unat_byte_of_nat, simp)+

lemma unat_header_long [simp]:
  "n \<le> 8 \<Longrightarrow> unat (of_nat (0xb7 + n) :: byte) = 0xb7 + n"
  "n \<le> 8 \<Longrightarrow> unat (of_nat (0xf7 + n) :: byte) = 0xf7 + n"
  by (rule unat_byte_of_nat, simp)+

lemma read_data_header:
  fixes s rest :: bytes
  assumes "length s < rlp_limit" and "\<not> (length s = 1 \<and> unat (s ! 0) < 0x80)"
  defines "d \<equiv> encHeader 0x80 0xb7 (length s) @ s @ rest"
  shows "rlp_length d = Inr (length s)"
    and "payloadOffset d = length (encHeader 0x80 0xb7 (length s))"
    and "isData d" and "requireGood d = Inr ()" and "\<not> isSingleByte d"
proof -
  consider (short) "length s < 56" | (long) "56 \<le> length s" by linarith
  then have "rlp_length d = Inr (length s) \<and>
      payloadOffset d = length (encHeader 0x80 0xb7 (length s)) \<and>
      isData d \<and> requireGood d = Inr () \<and> \<not> isSingleByte d"
  proof cases
    case short
    have "requireGood d = Inr ()"
      using short assms(2) by (cases s) (auto simp: requireGood_def d_def encHeader_def isNull_def
          rlp_consts nth_Cons' simp del: of_nat_add)
    with short show ?thesis
      by (simp add: d_def encHeader_def rlp_length_def payloadOffset_def lengthSize_def isData_def
          isNull_def isSingleByte_def isList_def rlp_consts Let_def del: of_nat_add)
  next
    case long
    with assms(1) longLength_enc [OF long assms(1)] bytesRequired_range [OF long assms(1)]
    show ?thesis
      by (simp add: d_def encHeader_def rlp_length_def payloadOffset_def lengthSize_def isData_def
          isNull_def isSingleByte_def isList_def requireGood_def rlp_consts Let_def
          del: of_nat_add)
  qed
  then show "rlp_length d = Inr (length s)"
    and "payloadOffset d = length (encHeader 0x80 0xb7 (length s))"
    and "isData d" and "requireGood d = Inr ()" and "\<not> isSingleByte d"
    by blast+
qed

lemma read_list_header:
  fixes s rest :: bytes
  assumes "length s < rlp_limit"
  defines "d \<equiv> encHeader 0xc0 0xf7 (length s) @ s @ rest"
  shows "rlp_length d = Inr (length s)"
    and "payloadOffset d = length (encHeader 0xc0 0xf7 (length s))"
    and "isList d" and "requireGood d = Inr ()" and "\<not> isSingleByte d"
proof -
  consider (short) "length s < 56" | (long) "56 \<le> length s" by linarith
  then have "rlp_length d = Inr (length s) \<and>
      payloadOffset d = length (encHeader 0xc0 0xf7 (length s)) \<and>
      isList d \<and> requireGood d = Inr () \<and> \<not> isSingleByte d"
  proof cases
    case short
    then show ?thesis
      by (simp add: d_def encHeader_def rlp_length_def payloadOffset_def lengthSize_def isData_def
          isNull_def isSingleByte_def isList_def requireGood_def rlp_consts Let_def
          del: of_nat_add)
  next
    case long
    with assms(1) longLength_enc [OF long assms(1)] bytesRequired_range [OF long assms(1)]
    show ?thesis
      by (simp add: d_def encHeader_def rlp_length_def payloadOffset_def lengthSize_def isData_def
          isNull_def isSingleByte_def isList_def requireGood_def rlp_consts Let_def
          del: of_nat_add)
  qed
  then show "rlp_length d = Inr (length s)"
    and "payloadOffset d = length (encHeader 0xc0 0xf7 (length s))"
    and "isList d" and "requireGood d = Inr ()" and "\<not> isSingleByte d"
    by blast+
qed

text \<open>The payload of an encoded item, and that of a single byte that is its own encoding.\<close>

fun enc_payload :: "rlp_item \<Rightarrow> bytes" where
  "enc_payload (RData s) = s"
| "enc_payload (RList ts) = concat (map enc ts)"

lemma length_enc_payload_le: "length (enc_payload t) \<le> length (enc t)"
  by (cases t) (auto simp: Let_def)

lemma enc_not_Nil [simp]: "enc t \<noteq> []"
  by (cases t) (auto simp: encHeader_def Let_def)

lemma cropped_append [simp]:
  "cropped (length a) (length b) (a @ b @ c) = b"
  "cropped 0 (length a) (a @ b) = a"
  "cropped 0 (length a) a = a"
  by (auto simp: cropped_def)

lemma cropped_from_append [simp]: "cropped_from (length a) (a @ b) = b"
  by (simp add: cropped_from_def)

lemma read_single:
  assumes "length s = 1" "unat (s ! 0) < 0x80"
  shows "rlp_length (s @ rest) = Inr 1" "payloadOffset (s @ rest) = 0" "isData (s @ rest)"
    "requireGood (s @ rest) = Inr ()" "isSingleByte (s @ rest)"
  using assms
  by (auto simp: rlp_length_def payloadOffset_def isData_def requireGood_def isSingleByte_def
      isNull_def rlp_consts nth_append Let_def)

lemma read_enc:
  assumes "length (enc t) < rlp_limit"
  shows "rlp_length (enc t @ rest) = Inr (length (enc_payload t))"
    and "payload (enc t @ rest) = Inr (enc_payload t)"
    and "actualSize (enc t @ rest) = Inr (length (enc t))"
    and "requireGood (enc t @ rest) = Inr ()"
proof -
  have lim: "length (enc_payload t) < rlp_limit"
    using assms length_enc_payload_le [of t] by linarith
  have "rlp_length (enc t @ rest) = Inr (length (enc_payload t)) \<and>
      payload (enc t @ rest) = Inr (enc_payload t) \<and>
      actualSize (enc t @ rest) = Inr (length (enc t)) \<and> requireGood (enc t @ rest) = Inr ()"
  proof (cases t)
    case (RData s)
    show ?thesis
    proof (cases "length s = 1 \<and> unat (s ! 0) < 0x80")
      case True
      then have "cropped 0 1 (s @ rest) = s" using cropped_append(2) [of s rest] by simp
      with True RData read_single [of s rest] show ?thesis
        by (simp add: payload_def actualSize_def isNull_def)
    next
      case False
      with RData lim have l: "length s < rlp_limit" by simp
      from False have "enc t = encHeader 0x80 0xb7 (length s) @ s" using RData by auto
      with read_data_header [OF l False, of rest] RData show ?thesis
        by (simp add: payload_def actualSize_def isData_def)
    qed
  next
    case (RList ts)
    with lim have l: "length (concat (map enc ts)) < rlp_limit" by simp
    have "enc t = encHeader 0xc0 0xf7 (length (concat (map enc ts))) @ concat (map enc ts)"
      using RList by (simp add: Let_def)
    with read_list_header [OF l, of rest] RList show ?thesis
      by (simp add: payload_def actualSize_def isList_def)
  qed
  then show "rlp_length (enc t @ rest) = Inr (length (enc_payload t))"
    and "payload (enc t @ rest) = Inr (enc_payload t)"
    and "actualSize (enc t @ rest) = Inr (length (enc t))"
    and "requireGood (enc t @ rest) = Inr ()"
    by blast+
qed

lemmas read_enc0 = read_enc [where rest = "[]", unfolded append_Nil2]

lemma isData_enc:
  assumes "length (enc t) < rlp_limit"
  shows "isData (enc t @ rest) \<longleftrightarrow> (\<exists>s. t = RData s)"
    and "isList (enc t @ rest) \<longleftrightarrow> (\<exists>ts. t = RList ts)"
proof -
  have "(isData (enc t @ rest) \<longleftrightarrow> (\<exists>s. t = RData s)) \<and>
        (isList (enc t @ rest) \<longleftrightarrow> (\<exists>ts. t = RList ts))"
  proof (cases t)
    case (RData s)
    then have l: "length s < rlp_limit" using assms length_enc_payload_le [of t] by simp
    show ?thesis
      using RData read_single(3) [of s rest] read_data_header(3) [OF l, of rest]
      by (auto simp: isData_def isList_def split: if_splits)
  next
    case (RList ts)
    then have l: "length (concat (map enc ts)) < rlp_limit"
      using assms length_enc_payload_le [of t] by simp
    show ?thesis
      using RList read_list_header(3) [OF l, of rest]
      by (auto simp: isData_def isList_def Let_def)
  qed
  then show "isData (enc t @ rest) \<longleftrightarrow> (\<exists>s. t = RData s)"
    and "isList (enc t @ rest) \<longleftrightarrow> (\<exists>ts. t = RList ts)"
    by blast+
qed

lemma sizeAsEncoded_enc:
  "length (enc t) < rlp_limit \<Longrightarrow> sizeAsEncoded (enc t @ rest) = Inr (length (enc t))"
  by (simp add: sizeAsEncoded_def mkRLP_def rlp_flags read_enc)

lemma mkRLP_enc:
  assumes "length (enc t) < rlp_limit"
  shows "mkRLP VeryStrict (enc t) = Inr (enc t)"
    and "mkRLP (ThrowOnFail + FailIfTooSmall) (enc t) = Inr (enc t)"
  using assms by (simp_all add: mkRLP_def rlp_flags read_enc0)

section \<open>Conversions of canonical items\<close>

text \<open>The item an integer is written as: its big-endian bytes without leading zeros.\<close>

definition intData :: "nat \<Rightarrow> rlp_item" where
  "intData i = RData (toBigEndian (bytesRequired i) i)"

lemma toBytes_enc:
  "length (enc (RData s)) < rlp_limit \<Longrightarrow> toBytes flags (enc (RData s)) = Inr s"
  using isData_enc(1) [of "RData s" "[]"] read_enc0 [of "RData s"]
  by (simp add: toBytes_def del: enc.simps)

lemma toHash_enc:
  assumes "length (enc (RData s)) < rlp_limit" and "length s = n"
  shows "toHash n flags (enc (RData s)) = Inr s"
  using assms isData_enc(1) [of "RData s" "[]"] read_enc0 [of "RData s"]
  by (simp add: toHash_def del: enc.simps)

lemma isInt_enc:
  assumes "length (enc (RData s)) < rlp_limit" and nz: "s = [] \<or> s ! 0 \<noteq> 0"
  shows "isInt (enc (RData s)) = Inr True"
proof -
  let ?d = "enc (RData s)"
  have good: "requireGood ?d = Inr ()" using read_enc0(4) [OF assms(1)] .
  have nn: "\<not> isNull ?d" by (simp add: isNull_def del: enc.simps)
  consider (empty) "s = []" | (single) "length s = 1 \<and> unat (s ! 0) < 0x80" |
    (short) "s \<noteq> []" "\<not> (length s = 1 \<and> unat (s ! 0) < 0x80)" "length s < 56" |
    (long) "s \<noteq> []" "\<not> (length s = 1 \<and> unat (s ! 0) < 0x80)" "56 \<le> length s"
    by linarith
  then show ?thesis
  proof cases
    case empty
    then show ?thesis
      by (simp add: isInt_def encHeader_def isNull_def requireGood_def rlp_consts Let_def)
  next
    case single
    have "?d = s" by (simp only: enc.simps if_P [OF single])
    moreover have "s ! 0 \<noteq> 0" using single nz by auto
    ultimately show ?thesis using single good nn
      by (simp add: isInt_def rlp_consts Let_def unat_eq_zero)
  next
    case short
    have "?d = encHeader 0x80 0xb7 (length s) @ s" by (simp only: enc.simps if_not_P [OF short(2)])
    with good nn short nz show ?thesis
      by (simp add: isInt_def encHeader_def rlp_consts Let_def nth_append del: of_nat_add)
  next
    case long
    have d: "?d = encHeader 0x80 0xb7 (length s) @ s" by (simp only: enc.simps if_not_P [OF long(2)])
    have "length s < rlp_limit" using assms(1) length_enc_payload_le [of "RData s"] by simp
    from bytesRequired_range [OF long(3) this] good nn long nz show ?thesis
      by (simp add: d isInt_def encHeader_def rlp_consts Let_def nth_append del: of_nat_add)
  qed
qed

lemma isInt_intData:
  assumes "length (enc (intData i)) < rlp_limit"
  shows "isInt (enc (intData i)) = Inr True"
  using isInt_enc [OF assms [unfolded intData_def]] hd_toBigEndian [of i]
  by (cases "i = 0") (auto simp: intData_def simp del: enc.simps)

lemma bytesRequired_width: "i < 2 ^ (8 * k) \<Longrightarrow> bytesRequired i \<le> k"
  by (simp add: bytesRequired_le power_mult)

lemma toInt_intData:
  assumes "length (enc (intData i)) < rlp_limit" and "i < 2 ^ (8 * k)"
  shows "toInt (8 * k) flags (enc (intData i)) = Inr i"
proof -
  have br: "bytesRequired i \<le> k" using assms(2) by (rule bytesRequired_width)
  have lst: "\<not> isList (enc (intData i))"
    using isData_enc(2) [OF assms(1), of "[]"] by (simp add: intData_def del: enc.simps)
  have nn: "\<not> isNull (enc (intData i))" by (simp add: isNull_def)
  have pay: "payload (enc (intData i)) = Inr (toBigEndian (bytesRequired i) i)"
    using read_enc0(2) [OF assms(1)] by (simp add: intData_def)
  show ?thesis
    using br read_enc0(4) [OF assms(1)] isInt_intData [OF assms(1)] lst nn pay
    by (simp add: toInt_def fromBigEndian_w_id)
qed

section \<open>Indexing and its cache\<close>

text \<open>
  \<open>cache_at ts r j\<close>: the cache of \<open>r\<close> stands at item \<open>j\<close> of the items \<open>ts\<close> (one past the last
  item it holds the empty view).
\<close>

definition cache_at :: "rlp_item list \<Rightarrow> rlp \<Rightarrow> nat \<Rightarrow> bool" where
  "cache_at ts r j \<longleftrightarrow> m_lastIndex r = j \<and> j \<le> length ts \<and>
     m_lastItem r = (if j < length ts then enc (ts ! j) else []) \<and>
     m_lastEnd r = length (concat (map enc (take (Suc j) ts)))"

definition cache_ok :: "rlp_item list \<Rightarrow> rlp \<Rightarrow> bool" where
  "cache_ok ts r \<longleftrightarrow> payload (m_data r) = Inr (concat (map enc ts)) \<and>
     (m_lastIndex r = 2 ^ 64 - 1 \<or> (\<exists>j. cache_at ts r j))"

definition item_at :: "rlp_item list \<Rightarrow> nat \<Rightarrow> bytes" where
  "item_at ts i = (if i < length ts then enc (ts ! i) else [])"

lemma concat_enc_split:
  assumes "j < length ts"
  shows "concat (map enc ts) =
    concat (map enc (take j ts)) @ enc (ts ! j) @ concat (map enc (drop (Suc j) ts))"
  using arg_cong [OF id_take_nth_drop [OF assms], of "\<lambda>xs. concat (map enc xs)"] by simp

lemma sizeAsEncoded_Nil [simp]: "sizeAsEncoded [] = Inr 0"
  by (simp add: sizeAsEncoded_def mkRLP_def actualSize_def isNull_def rlp_flags)

lemma cropped_Nil [simp]: "cropped b n [] = []"
  by (simp add: cropped_def)

text \<open>Reading one item off the rest of a payload.\<close>

lemma next_item:
  assumes "\<forall>t \<in> set ts. length (enc t) < rlp_limit" and "j \<le> length ts"
  defines "rest \<equiv> cropped_from (length (concat (map enc (take j ts)))) (concat (map enc ts))"
  shows "sizeAsEncoded rest = Inr (length (item_at ts j))"
    and "cropped 0 (length (item_at ts j)) rest = item_at ts j"
proof -
  have "concat (map enc ts) = concat (map enc (take j ts)) @ concat (map enc (drop j ts))"
    by (metis append_take_drop_id concat_append map_append)
  then have rest: "rest = concat (map enc (drop j ts))"
    unfolding rest_def by (metis cropped_from_append)
  have "sizeAsEncoded rest = Inr (length (item_at ts j)) \<and>
      cropped 0 (length (item_at ts j)) rest = item_at ts j"
  proof (cases "j < length ts")
    case True
    then have "rest = enc (ts ! j) @ concat (map enc (drop (Suc j) ts))"
      by (simp add: rest Cons_nth_drop_Suc [symmetric])
    with True assms(1) show ?thesis by (simp add: item_at_def sizeAsEncoded_enc)
  qed (use assms(2) in \<open>simp add: rest item_at_def\<close>)
  then show "sizeAsEncoded rest = Inr (length (item_at ts j))"
    and "cropped 0 (length (item_at ts j)) rest = item_at ts j" by blast+
qed

lemma length_concat_take_Suc:
  "length (concat (map enc (take (Suc j) ts))) =
   length (concat (map enc (take j ts))) + length (item_at ts j)"
  by (cases "j < length ts") (simp_all add: take_Suc_conv_app_nth item_at_def)

lemma index_loop_items:
  assumes "\<forall>t \<in> set ts. length (enc t) < rlp_limit"
    and "payload (m_data r) = Inr (concat (map enc ts))" and "cache_at ts r j"
  shows "\<exists>r'. index_loop r k = Inr r' \<and> m_data r' = m_data r \<and>
    cache_at ts r' (min (j + k) (length ts))"
  using assms(2,3)
proof (induction k arbitrary: r j)
  case 0
  then have "min j (length ts) = j" by (simp add: cache_at_def)
  with 0 show ?case by simp
next
  case (Suc k)
  show ?case
  proof (cases "j < length ts")
    case True
    define r1 where "r1 = r\<lparr> m_lastItem := item_at ts (Suc j),
      m_lastEnd := m_lastEnd r + length (item_at ts (Suc j)), m_lastIndex := Suc (m_lastIndex r) \<rparr>"
    have c1: "cache_at ts r1 (Suc j)"
      using Suc.prems(2) True
      by (simp add: cache_at_def r1_def item_at_def length_concat_take_Suc [of "Suc j"])
    have "index_loop r (Suc k) = index_loop r1 k"
      using Suc.prems True next_item [OF assms(1), of "Suc j"]
      by (simp add: cache_at_def r1_def Let_def)
    moreover have "payload (m_data r1) = Inr (concat (map enc ts))"
      using Suc.prems by (simp add: r1_def)
    moreover have "m_data r1 = m_data r" by (simp add: r1_def)
    ultimately show ?thesis using Suc.IH [OF _ c1] by simp
  next
    case False
    with Suc.prems show ?thesis by (simp add: cache_at_def)
  qed
qed

lemma mkRLP_item_at:
  "\<forall>t \<in> set ts. length (enc t) < rlp_limit \<Longrightarrow>
   mkRLP (ThrowOnFail + FailIfTooSmall) (item_at ts i) = Inr (item_at ts i)"
  by (cases "i < length ts")
     (simp_all add: item_at_def mkRLP_enc, simp add: mkRLP_def actualSize_def isNull_def rlp_flags)

lemma rlp_index_items:
  assumes small: "\<forall>t \<in> set ts. length (enc t) < rlp_limit"
    and ok: "cache_ok ts r" and i: "i < 2 ^ 64 - 1"
  shows "\<exists>r'. rlp_index r i = Inr (r', item_at ts i) \<and> m_data r' = m_data r \<and> cache_ok ts r'"
proof -
  have pay: "payload (m_data r) = Inr (concat (map enc ts))" using ok by (simp add: cache_ok_def)
  obtain r1 j where r1: "(if i < m_lastIndex r
        then ebind (payload (m_data r)) (\<lambda>p. ebind (sizeAsEncoded p) (\<lambda>n.
          Inr (r\<lparr> m_lastEnd := n, m_lastItem := cropped 0 n p, m_lastIndex := 0 \<rparr>)))
        else Inr r) = Inr r1"
    and j: "cache_at ts r1 j" "m_data r1 = m_data r" "j \<le> i"
  proof (cases "i < m_lastIndex r")
    case True
    define r0 where
      "r0 = r\<lparr> m_lastEnd := length (item_at ts 0), m_lastItem := item_at ts 0, m_lastIndex := 0 \<rparr>"
    have "sizeAsEncoded (concat (map enc ts)) = Inr (length (item_at ts 0))"
      "cropped 0 (length (item_at ts 0)) (concat (map enc ts)) = item_at ts 0"
      using next_item [OF small, of 0] by (simp_all add: cropped_from_def)
    moreover have "cache_at ts r0 0"
      using length_concat_take_Suc [of 0 ts] by (simp add: cache_at_def r0_def item_at_def)
    ultimately show ?thesis
      using that [of r0 0] True pay by (simp add: r0_def)
  next
    case False
    then obtain j where "cache_at ts r j" using ok i by (auto simp: cache_ok_def)
    with that [of r j] False show ?thesis by (simp add: cache_at_def)
  qed
  have "payload (m_data r1) = Inr (concat (map enc ts))" using pay j(2) by simp
  from index_loop_items [OF small this j(1), of "i - j"] j(3)
  obtain r2 where r2: "index_loop r1 (i - j) = Inr r2" "m_data r2 = m_data r1"
    "cache_at ts r2 (min i (length ts))" by auto
  have "m_lastItem r2 = item_at ts i" using r2(3) by (auto simp: cache_at_def item_at_def min_def)
  moreover have "m_lastIndex r1 = j" using j(1) by (simp add: cache_at_def)
  ultimately have "rlp_index r i = Inr (r2, item_at ts i)"
    using r1 r2(1) mkRLP_item_at [OF small] by (simp add: rlp_index_def)
  moreover have "cache_ok ts r2" using r2 j(2) pay by (auto simp: cache_ok_def)
  ultimately show ?thesis using r2(2) j(2) by simp
qed

lemma rlp_at_items:
  assumes "\<forall>t \<in> set ts. length (enc t) < rlp_limit"
    and "payload d = Inr (concat (map enc ts))" and "i < 2 ^ 64 - 1"
  shows "rlp_at d i = Inr (item_at ts i)"
proof -
  have "cache_ok ts (rlp_of d)" using assms(2) by (simp add: cache_ok_def rlp_of_def)
  from rlp_index_items [OF assms(1) this assms(3)] show ?thesis by (auto simp: rlp_at_def)
qed

section \<open>The stream writes the canonical encoding\<close>

abbreviation emit :: "bytes \<Rightarrow> rlp_stream \<Rightarrow> rlp_stream" where
  "emit bs s \<equiv> s\<lparr> m_out := m_out s @ bs \<rparr>"

lemma emit_emit [simp]: "emit b (emit a s) = emit (a @ b) s"
  by simp

lemma push_back_emit: "push_back b s = emit [b] s"
  by (simp add: push_back_def)

lemma pushInt_emit: "pushInt i br s = emit (toBigEndian br i) s"
  by (simp add: pushInt_def)

lemma pushCount_emit:
  "n < 2 ^ 64 \<Longrightarrow> base \<le> 0xf7 \<Longrightarrow>
   pushCount n base s = Inr (emit (of_nat (bytesRequired n + base) # toBigEndian (bytesRequired n) n) s)"
  using bytesRequired_le8 [of n]
  by (simp add: pushCount_def push_back_emit pushInt_emit Let_def)

lemma append_bytes_emit:
  assumes "length b < 2 ^ 64"
  shows "append_bytes b False s = noteAppended 1 (emit (enc (RData b)) s)"
  using assms
  by (simp add: append_bytes_def push_back_emit pushCount_emit appendRaw_def noteAppended_def
      encHeader_def rlp_consts Let_def ac_simps)

lemma append_bigint_append_bytes:
  "append_bigint i s = append_bytes (toBigEndian (bytesRequired i) i) False s"
proof -
  consider (zero) "i = 0" | (small) "0 < i" "i < 0x80" | (big) "0x80 \<le> i" by linarith
  then show ?thesis
  proof cases
    case zero
    then show ?thesis
      by (simp add: append_bigint_def append_bytes_def appendRaw_def noteAppended_def rlp_consts)
  next
    case small
    then have "bytesRequired i = 1" by (simp add: bytesRequired_pos)
    with small show ?thesis
      by (simp add: append_bigint_def append_bytes_def rlp_consts)
  next
    case big
    show ?thesis
    proof (cases "bytesRequired i = 1")
      case True
      with big less_bytesRequired [of i] show ?thesis
        by (simp add: append_bigint_def append_bytes_def appendRaw_def noteAppended_def rlp_consts
            pushInt_emit push_back_emit Let_def)
    next
      case False
      with big show ?thesis
        by (simp add: append_bigint_def append_bytes_def appendRaw_def noteAppended_def rlp_consts
            pushCount_def pushInt_emit push_back_emit Let_def ac_simps)
    qed
  qed
qed

lemma append_bigint_emit:
  "bytesRequired i < 2 ^ 64 \<Longrightarrow> append_bigint i s = noteAppended 1 (emit (enc (intData i)) s)"
  by (simp add: append_bigint_append_bytes append_bytes_emit intData_def)

lemma closeHeader_enc:
  "n < 2 ^ 64 \<Longrightarrow> closeHeader n = Inr (encHeader 0xc0 0xf7 n)"
  using bytesRequired_le8 [of n] by (simp add: closeHeader_def encHeader_def rlp_consts)

lemma appendList_raw_Nil: "appendList_raw [] s = noteAppended 1 (emit (enc (RList [])) s)"
  by (simp add: appendList_raw_def push_back_emit appendRaw_def encHeader_def rlp_consts)

lemma noteAppended_open:
  "0 < k \<Longrightarrow> k < n \<Longrightarrow> m_listStack s = (n, p) # st \<Longrightarrow>
   noteAppended k s = Inr (s\<lparr> m_listStack := (n - k, p) # st \<rparr>)"
  by (simp add: noteAppended_def)

lemma noteAppended_close:
  assumes "m_listStack s = (n, length pre) # st" "0 < n" "m_out s = pre @ body"
    "length body < 2 ^ 64"
  shows "noteAppended n s =
    noteAppended 1 \<lparr> m_out = pre @ encHeader 0xc0 0xf7 (length body) @ body, m_listStack = st \<rparr>"
  using assms by (simp add: noteAppended_def closeHeader_enc)

lemma append_items_Nil: "append_items [] = Inr"
  by (rule ext) simp

lemma append_item_emit:
  "length (enc t) < 2 ^ 64 \<Longrightarrow> append_item t s = noteAppended 1 (emit (enc t) s)"
  "\<lbrakk> length (concat (map enc ts)) < 2 ^ 64; m_listStack s = (n, p) # st; length ts \<le> n \<rbrakk> \<Longrightarrow>
   append_items ts s = noteAppended (length ts) (emit (concat (map enc ts)) s)"
proof (induction t s and ts s arbitrary: and n p st rule: append_item_append_items.induct)
  case (1 b s)
  then have "length b < 2 ^ 64" using length_enc_payload_le [of "RData b"] by simp
  then show ?case by (simp add: append_bytes_emit del: enc.simps)
next
  case (2 ts s)
  show ?case
  proof (cases "ts = []")
    case True
    then show ?thesis by (simp add: appendList_def appendList_raw_Nil append_items_Nil del: enc.simps)
  next
    case False
    let ?body = "concat (map enc ts)"
    let ?s = "s\<lparr> m_listStack := (length ts, length (m_out s)) # m_listStack s \<rparr>"
    have len: "length ?body < 2 ^ 64" using 2(2) by (simp add: Let_def)
    have op: "appendList (length ts) s = Inr ?s" using False by (simp add: appendList_def)
    then have "append_items ts ?s = noteAppended (length ts) (emit ?body ?s)"
      using 2(1) [OF len, of ?s "length ts" "length (m_out s)" "m_listStack s"] by simp
    also have "\<dots> = noteAppended 1 (emit (enc (RList ts)) s)"
      using noteAppended_close [of "emit ?body ?s" "length ts" "m_out s" "m_listStack s" ?body]
        False len by (cases s) (simp add: Let_def)
    finally show ?thesis using op by simp
  qed
next
  case (3 s)
  then show ?case by (simp add: noteAppended_def)
next
  case (4 t ts s)
  have t: "append_item t s = noteAppended 1 (emit (enc t) s)" using 4(1,3) by simp
  show ?case
  proof (cases "n = 1")
    case True
    with 4(5) have "ts = []" by simp
    then show ?thesis using t by (cases "noteAppended 1 (emit (enc t) s)") simp_all
  next
    case False
    let ?s = "(emit (enc t) s)\<lparr> m_listStack := (n - 1, p) # st \<rparr>"
    have n: "1 < n" using False 4(5) by simp
    then have s1: "append_item t s = Inr ?s"
      using t 4(4) noteAppended_open [of 1 n "emit (enc t) s" p st] by simp
    then have "append_items ts ?s = noteAppended (length ts) (emit (concat (map enc ts)) ?s)"
      using 4(2) [of ?s "n - 1" p st] 4(3,5) by simp
    moreover have "\<dots> = noteAppended (Suc (length ts)) (emit (enc t @ concat (map enc ts)) s)"
      using n 4(4,5) by (cases s) (auto simp: noteAppended_def)
    ultimately show ?thesis using s1 by simp
  qed
qed

lemma append_item_out:
  assumes "length (enc t) < 2 ^ 64"
  shows "ebind (append_item t rlpStream) rlp_out = Inr (enc t)"
  using assms by (simp add: append_item_emit rlpStream_def noteAppended_def rlp_out_def)

section \<open>The encoding is prefix free\<close>

lemma enc_append_inject:
  assumes "length (enc t) < rlp_limit" "length (enc u) < rlp_limit" "enc t @ a = enc u @ b"
  shows "enc t = enc u \<and> a = b"
proof -
  have "sizeAsEncoded (enc t @ a) = Inr (length (enc t))" using assms(1) by (rule sizeAsEncoded_enc)
  moreover have "sizeAsEncoded (enc t @ a) = Inr (length (enc u))"
    unfolding assms(3) using assms(2) by (rule sizeAsEncoded_enc)
  ultimately have "length (enc t) = length (enc u)" by simp
  with assms(3) show ?thesis by simp
qed

lemma concat_enc_inject:
  assumes "\<And>t u. t \<in> set ts \<Longrightarrow> length (enc t) < rlp_limit \<Longrightarrow> enc t = enc u \<Longrightarrow> t = u"
    and "length (concat (map enc ts)) < rlp_limit"
    and "concat (map enc ts) = concat (map enc us)"
  shows "ts = us"
  using assms
proof (induction ts arbitrary: us)
  case Nil
  show ?case using Nil(3) by (cases us) simp_all
next
  case (Cons t ts)
  obtain u us' where us: "us = u # us'" using Cons.prems(3) by (cases us) auto
  have eq: "enc t @ concat (map enc ts) = enc u @ concat (map enc us')" using Cons.prems(3) us by simp
  have lt: "length (enc t) < rlp_limit" using Cons.prems(2) by simp
  have "length (enc u) \<le> length (enc t @ concat (map enc ts))" unfolding eq by simp
  with Cons.prems(2) have lu: "length (enc u) < rlp_limit" by simp
  from enc_append_inject [OF lt lu eq] have "enc t = enc u"
    and "concat (map enc ts) = concat (map enc us')" by auto
  then have "t = u" using Cons.prems(1) [of t u] lt by auto
  moreover have "ts = us'"
  proof (rule Cons.IH)
    show "v = w" if "v \<in> set ts" "length (enc v) < rlp_limit" "enc v = enc w" for v w
      using Cons.prems(1) [of v w] that by auto
    show "length (concat (map enc ts)) < rlp_limit" using Cons.prems(2) by simp
  qed fact
  ultimately show ?case using us by simp
qed

lemma enc_inject: "length (enc t) < rlp_limit \<Longrightarrow> enc t = enc u \<Longrightarrow> t = u"
proof (induction t arbitrary: u)
  case (RData s)
  have lu: "length (enc u) < rlp_limit" using RData by simp
  have "isData (enc u @ [])"
    using RData isData_enc(1) [OF RData(1), of "[]"] by (simp del: enc.simps)
  then obtain s' where u: "u = RData s'" using isData_enc(1) [OF lu, of "[]"] by auto
  have "payload (enc (RData s)) = payload (enc u)" using RData(2) by (simp del: enc.simps)
  then show ?case using read_enc0(2) [OF RData(1)] read_enc0(2) [OF lu] u by simp
next
  case (RList ts)
  have lu: "length (enc u) < rlp_limit" using RList(3) RList(2) by (simp del: enc.simps)
  have "isList (enc u @ [])"
    using RList(3) isData_enc(2) [OF RList(2), of "[]"] by (simp del: enc.simps)
  then obtain us where u: "u = RList us" using isData_enc(2) [OF lu, of "[]"] by auto
  have "payload (enc (RList ts)) = payload (enc u)" using RList(3) by (simp del: enc.simps)
  then have "concat (map enc ts) = concat (map enc us)"
    using read_enc0(2) [OF RList(2)] read_enc0(2) [OF lu] u by simp
  moreover have "length (concat (map enc ts)) < rlp_limit"
    using RList(2) length_enc_payload_le [of "RList ts"] by (simp del: enc.simps)
  ultimately show ?case using concat_enc_inject [of ts us] RList(1) u by blast
qed

section \<open>Counting the items of a list\<close>

lemma sizeAsEncoded_bounds:
  assumes "sizeAsEncoded d = Inr n" "d \<noteq> []"
  shows "0 < n" "n \<le> length d"
proof -
  have a: "actualSize d = Inr n" and "n \<le> length d"
    using assms(1) by (auto simp: sizeAsEncoded_def mkRLP_def rlp_flags ebind_eq_Inr split: if_splits)
  then show "n \<le> length d" by simp
  show "0 < n"
    using a assms(2)
    by (auto simp: actualSize_def isNull_def isData_def isList_def payloadOffset_def ebind_eq_Inr
        split: if_splits)
qed

lemma items_loop_fuel:
  "length d \<le> fuel \<Longrightarrow> items_loop fuel d i = items_loop (length d) d i"
proof (induction fuel arbitrary: d i rule: less_induct)
  case (less fuel)
  show ?case
  proof (cases "fuel = length d")
    case False
    with less.prems obtain f where f: "fuel = Suc f" by (cases fuel) auto
    show ?thesis
    proof (cases d)
      case (Cons b bs)
      show ?thesis
      proof (cases "sizeAsEncoded d")
        case (Inr n)
        have n: "0 < n" "n \<le> length d" using sizeAsEncoded_bounds [OF Inr] Cons by simp_all
        let ?r = "cropped_from n d"
        have r: "length ?r \<le> length bs" "length ?r \<le> f"
          using n Cons less.prems f by (simp_all add: cropped_from_def)
        have "items_loop f ?r (Suc i) = items_loop (length ?r) ?r (Suc i)"
          using less.IH [of f ?r "Suc i"] r f by simp
        moreover have "items_loop (length bs) ?r (Suc i) = items_loop (length ?r) ?r (Suc i)"
          using less.IH [of "length bs" ?r "Suc i"] r f less.prems Cons by simp
        ultimately show ?thesis using f Inr Cons by simp
      qed (simp add: f Cons)
    qed (simp add: f)
  qed simp
qed

lemma items_loop_enc:
  assumes "\<forall>t \<in> set ts. length (enc t) < rlp_limit"
  shows "length (concat (map enc ts)) \<le> fuel \<Longrightarrow>
    items_loop fuel (concat (map enc ts)) i = Inr (i + length ts)"
  using assms
proof (induction ts arbitrary: fuel i)
  case Nil
  then show ?case by (cases fuel) simp_all
next
  case (Cons t ts)
  obtain n where "length (enc t) = Suc n" by (cases "enc t") simp_all
  then obtain f where "fuel = Suc f" "length (concat (map enc ts)) \<le> f"
    using Cons.prems(1) by (cases fuel) simp_all
  with Cons show ?case by (simp add: sizeAsEncoded_enc)
qed

lemma length_enc_le_concat: "t \<in> set ts \<Longrightarrow> length (enc t) \<le> length (concat (map enc ts))"
  by (induction ts) auto

lemma items_small:
  assumes "length (enc (RList ts)) < rlp_limit"
  shows "\<forall>t \<in> set ts. length (enc t) < rlp_limit"
proof -
  have "length (concat (map enc ts)) < rlp_limit"
    using assms length_enc_payload_le [of "RList ts"] by (simp del: enc.simps)
  then show ?thesis using length_enc_le_concat order_le_less_trans by blast
qed

lemma rlp_items_enc:
  assumes "length (enc (RList ts)) < rlp_limit"
  shows "rlp_items (enc (RList ts)) = Inr (length ts)"
  using isData_enc(2) [OF assms, of "[]"] read_enc0(2) [OF assms] items_small [OF assms]
    items_loop_enc [of ts]
  by (simp add: rlp_items_def del: enc.simps)

section \<open>Iterating over the items of a list\<close>

lemma iter_items_enc:
  assumes "\<forall>t \<in> set ts. length (enc t) < rlp_limit"
  shows "length (concat (map enc ts)) \<le> fuel \<Longrightarrow>
    iter_items fuel (concat (map enc ts)) = Inr (map enc ts)"
  using assms
proof (induction ts arbitrary: fuel)
  case Nil
  then show ?case by (cases fuel) simp_all
next
  case (Cons t ts)
  obtain n where "length (enc t) = Suc n" by (cases "enc t") simp_all
  then obtain f where "fuel = Suc f" "length (concat (map enc ts)) \<le> f"
    using Cons.prems(1) by (cases fuel) simp_all
  with Cons show ?case by (simp add: sizeAsEncoded_enc mkRLP_enc)
qed

lemma rlp_iterate_enc:
  assumes "length (enc (RList ts)) < rlp_limit"
  shows "rlp_iterate (enc (RList ts)) = Inr (map enc ts)"
  using isData_enc(2) [OF assms, of "[]"] read_enc0(2) [OF assms] items_small [OF assms]
    iter_items_enc [of ts]
  by (simp add: rlp_iterate_def del: enc.simps)

section \<open>Writers of single items\<close>

text \<open>\<open>writes f t\<close>: the stream operation \<open>f\<close> appends exactly the item \<open>t\<close>.\<close>

definition writes :: "(rlp_stream \<Rightarrow> rlp_error + rlp_stream) \<Rightarrow> rlp_item \<Rightarrow> bool" where
  "writes f t \<longleftrightarrow> (\<forall>s. f s = append_item t s)"

lemma writes_bytes [intro]: "writes (append_bytes b False) (RData b)"
  by (simp add: writes_def)

lemma writes_bigint [intro]: "writes (append_bigint i) (intData i)"
  by (simp add: writes_def append_bigint_append_bytes intData_def)

lemma foldl_ebind_Inl: "foldl ebind (Inl e) fs = Inl e"
  by (induction fs) simp_all

lemma stream_all_Cons: "stream_all (f # fs) s = ebind (f s) (stream_all fs)"
  by (cases "f s") (simp_all add: stream_all_def foldl_ebind_Inl)

lemma stream_all_append_items:
  "list_all2 writes fs ts \<Longrightarrow> stream_all fs s = append_items ts s"
proof (induction fs arbitrary: ts s)
  case Nil
  then show ?case by (simp add: stream_all_def)
next
  case (Cons f fs)
  then obtain u us where ts: "ts = u # us" "writes f u" "list_all2 writes fs us"
    by (auto simp: list_all2_Cons1)
  then have "stream_all fs = append_items us" using Cons.IH by auto
  with ts show ?case by (simp add: stream_all_Cons writes_def)
qed

lemma writes_vector [intro]:
  assumes "\<And>x. writes (app x) (item x)"
  shows "writes (appendVector app xs) (RList (map item xs))"
proof -
  have "list_all2 writes (map app xs) (map item xs)"
    using assms by (simp add: list_all2_map1 list_all2_map2 list_all2_refl)
  then have "stream_all (map app xs) = append_items (map item xs)"
    using stream_all_append_items by blast
  then show ?thesis by (simp add: writes_def appendVector_def)
qed

lemma append_items_append:
  "append_items (ts @ us) s = ebind (append_items ts s) (append_items us)"
proof (induction ts arbitrary: s)
  case (Cons t ts)
  then show ?case by (cases "append_item t s") simp_all
qed simp

lemma append_items_out:
  "length (concat (map enc ts)) < 2 ^ 64 \<Longrightarrow> m_listStack s = [] \<Longrightarrow>
   append_items ts s = Inr (emit (concat (map enc ts)) s)"
proof (induction ts arbitrary: s)
  case (Cons t ts)
  then have "append_item t s = Inr (emit (enc t) s)"
    by (cases s) (simp add: append_item_emit noteAppended_def)
  with Cons show ?case by simp
qed simp

section \<open>Messages: a list of one string that holds the encoded fields\<close>

text \<open>
  \<^verbatim>\<open>encode\<close> and \<^verbatim>\<open>decode\<close> have the same body in \<^verbatim>\<open>PBFTMsgPacket\<close> and \<^verbatim>\<open>PBFTMsg\<close>: the fields are
  streamed into \<^verbatim>\<open>tmp\<close>, and \<^verbatim>\<open>tmp.out()\<close> becomes the only element of a list.
\<close>

definition encode_fields :: "(rlp_stream \<Rightarrow> rlp_error + rlp_stream) \<Rightarrow> rlp_error + bytes" where
  "encode_fields f =
     ebind (ebind (f rlpStream) rlp_out) (\<lambda>tmp.
     ebind (ebind (appendList 1 rlpStream) (append_bytes tmp False)) rlp_out)"

definition decode_fields :: "(bytes \<Rightarrow> rlp_error + 'm) \<Rightarrow> nat \<Rightarrow> bytes \<Rightarrow> rlp_error + 'm" where
  "decode_fields populate index d =
     ebind (mkRLP VeryStrict d) (\<lambda>r. ebind (rlp_at r index) populate)"

definition message_bytes :: "rlp_item list \<Rightarrow> bytes" where
  "message_bytes ts = enc (RList [RData (concat (map enc ts))])"

lemma length_message_bytes:
  "length (concat (map enc ts)) \<le> length (enc (RData (concat (map enc ts))))"
  "length (enc (RData (concat (map enc ts)))) \<le> length (message_bytes ts)"
  using length_enc_payload_le [of "RData (concat (map enc ts))"]
    length_enc_payload_le [of "RList [RData (concat (map enc ts))]"]
  by (simp_all add: message_bytes_def del: enc.simps)

lemma encode_fields_bytes:
  assumes "length (message_bytes ts) < rlp_limit" and "\<And>s. f s = append_items ts s"
  shows "encode_fields f = Inr (message_bytes ts)"
proof -
  let ?p = "concat (map enc ts)"
  have "length ?p < 2 ^ 64" using assms(1) length_message_bytes [of ts] by linarith
  then have "ebind (f rlpStream) rlp_out = Inr ?p"
    by (simp add: assms(2) append_items_out rlpStream_def rlp_out_def)
  moreover have "ebind (appendList 1 rlpStream) (append_bytes ?p False) = append_item (RList [RData ?p]) rlpStream"
    by (simp add: appendList_def append_items_Nil)
  moreover have "length (enc (RList [RData ?p])) < 2 ^ 64"
    using assms(1) by (simp add: message_bytes_def del: enc.simps)
  ultimately show ?thesis
    using append_item_out [of "RList [RData ?p]"]
    by (simp add: encode_fields_def message_bytes_def del: enc.simps append_item.simps)
qed

lemma decode_fields_message:
  assumes "length (message_bytes ts) < rlp_limit"
  obtains r where "decode_fields populate 0 (message_bytes ts) = populate r"
    and "payload r = Inr (concat (map enc ts))"
proof -
  let ?t = "RData (concat (map enc ts))"
  have lt: "length (enc ?t) < rlp_limit"
    using assms length_message_bytes(2) [of ts] by (simp del: enc.simps)
  have "payload (message_bytes ts) = Inr (concat (map enc [?t]))"
    using read_enc0(2) [OF assms [unfolded message_bytes_def]] by (simp add: message_bytes_def del: enc.simps)
  then have "rlp_at (message_bytes ts) 0 = Inr (item_at [?t] 0)"
    using lt by (intro rlp_at_items) (simp_all del: enc.simps)
  then have "rlp_at (message_bytes ts) 0 = Inr (enc ?t)" by (simp add: item_at_def del: enc.simps)
  moreover have "mkRLP VeryStrict (message_bytes ts) = Inr (message_bytes ts)"
    using mkRLP_enc(1) [OF assms [unfolded message_bytes_def]] by (simp add: message_bytes_def del: enc.simps)
  moreover have "payload (enc ?t) = Inr (concat (map enc ts))" using read_enc0(2) [OF lt] by simp
  ultimately show ?thesis using that [of "enc ?t"] by (simp add: decode_fields_def del: enc.simps)
qed

lemma message_fields_small:
  assumes "length (message_bytes ts) < rlp_limit"
  shows "\<forall>t \<in> set ts. length (enc t) < rlp_limit"
  using assms length_message_bytes [of ts] length_enc_le_concat [of _ ts]
  by (meson le_trans order_le_less_trans)

lemma message_bytes_inject:
  assumes "length (message_bytes ts) < rlp_limit" and "message_bytes ts = message_bytes us"
  shows "ts = us"
proof -
  have "concat (map enc ts) = concat (map enc us)"
    using enc_inject [OF assms(1) [unfolded message_bytes_def] assms(2) [unfolded message_bytes_def]]
    by simp
  moreover have "length (concat (map enc ts)) < rlp_limit"
    using assms(1) length_message_bytes [of ts] by linarith
  ultimately show ?thesis using concat_enc_inject [of ts us] enc_inject by blast
qed

text \<open>
  The interface between a message class and the codec: the class streams its fields as a list of
  items and reads them back one by one with \<^verbatim>\<open>operator[]\<close>.  \<open>restored m0 m\<close> is the object that
  \<^verbatim>\<open>populate\<close> leaves when it is run on the object \<open>m0\<close> with the fields of \<open>m\<close>.
\<close>

locale rlp_message =
  fixes stream :: "'m \<Rightarrow> rlp_stream \<Rightarrow> rlp_error + rlp_stream"
    and populate :: "'m \<Rightarrow> bytes \<Rightarrow> rlp_error + 'm"
    and fields :: "'m \<Rightarrow> rlp_item list"
    and restored :: "'m \<Rightarrow> 'm \<Rightarrow> 'm"
  assumes stream_fields: "stream m s = append_items (fields m) s"
    and populate_fields:
      "\<lbrakk> \<forall>t \<in> set (fields m). length (enc t) < rlp_limit;
         \<And>i. i < 2 ^ 64 - 1 \<Longrightarrow> rlp_at r i = Inr (item_at (fields m) i) \<rbrakk>
       \<Longrightarrow> populate m0 r = Inr (restored m0 m)"
begin

lemma encode_message:
  "length (message_bytes (fields m)) < rlp_limit \<Longrightarrow>
   encode_fields (stream m) = Inr (message_bytes (fields m))"
  using encode_fields_bytes [of "fields m" "stream m"] stream_fields by simp

lemma round_trip:
  assumes "length (message_bytes (fields m)) < rlp_limit"
  shows "ebind (encode_fields (stream m)) (decode_fields (populate m0) 0) = Inr (restored m0 m)"
proof -
  obtain r where r: "decode_fields (populate m0) 0 (message_bytes (fields m)) = populate m0 r"
    "payload r = Inr (concat (map enc (fields m)))"
    using decode_fields_message [OF assms] by blast
  note small = message_fields_small [OF assms]
  have "populate m0 r = Inr (restored m0 m)"
    using small by (rule populate_fields) (rule rlp_at_items [OF small r(2)])
  with r(1) show ?thesis by (simp add: encode_message [OF assms])
qed

lemma encode_inject:
  assumes "length (message_bytes (fields m)) < rlp_limit"
    and "length (message_bytes (fields m')) < rlp_limit"
    and "encode_fields (stream m) = encode_fields (stream m')"
  shows "fields m = fields m'"
  using assms by (auto simp: encode_message intro: message_bytes_inject)

end

section \<open>How long an encoding is\<close>

fun item_bound :: "rlp_item \<Rightarrow> nat" where
  "item_bound (RData s) = length s + 9"
| "item_bound (RList ts) = sum_list (map item_bound ts) + 9"

lemma length_encHeader_le: "n < 2 ^ 64 \<Longrightarrow> length (encHeader a b n) \<le> 9"
  using bytesRequired_le8 [of n] by (simp add: encHeader_def)

lemma length_enc_bound: "item_bound t < 2 ^ 64 \<Longrightarrow> length (enc t) \<le> item_bound t"
proof (induction t)
  case (RData s)
  then show ?case using length_encHeader_le [of "length s"] by auto
next
  case (RList ts)
  have le: "u \<in> set ts \<Longrightarrow> item_bound u \<le> sum_list (map item_bound ts)" for u
    by (simp add: member_le_sum_list)
  have "length (enc u) \<le> item_bound u" if "u \<in> set ts" for u
    using RList.IH [OF that] RList.prems le [OF that] by (simp del: enc.simps)
  then have "length (concat (map enc ts)) \<le> sum_list (map item_bound ts)"
    unfolding length_concat map_map comp_def by (rule sum_list_mono)
  moreover from this have "length (encHeader 0xc0 0xf7 (length (concat (map enc ts)))) \<le> 9"
    using RList.prems by (intro length_encHeader_le) simp
  ultimately show ?case by (simp add: Let_def)
qed

lemma message_bytes_bound:
  assumes "sum_list (map item_bound ts) + 27 < rlp_limit"
  shows "length (message_bytes ts) \<le> sum_list (map item_bound ts) + 27"
proof -
  have "length (concat (map enc ts)) \<le> length (enc (RList ts))" by (simp add: Let_def)
  also have "\<dots> \<le> sum_list (map item_bound ts) + 9"
    using assms length_enc_bound [of "RList ts"] by (simp del: enc.simps)
  finally show ?thesis
    using assms length_enc_bound [of "RList [RData (concat (map enc ts))]"]
    by (simp add: message_bytes_def del: enc.simps)
qed

lemma message_small:
  assumes "sum_list (map item_bound ts) + 27 < rlp_limit"
  shows "length (message_bytes ts) < rlp_limit"
  using message_bytes_bound [OF assms] assms by linarith

lemma item_bound_intData: "item_bound (intData n) = bytesRequired n + 9"
  by (simp add: intData_def)

section \<open>Properties\<close>

fun rlp_reads :: "rlp \<Rightarrow> nat list \<Rightarrow> rlp_error + bytes list" where
  "rlp_reads r [] = Inr []"
| "rlp_reads r (i # is) =
     ebind (rlp_index r i) (\<lambda>(r', d). ebind (rlp_reads r' is) (\<lambda>ds. Inr (d # ds)))"

text \<open>
  C38: \<^verbatim>\<open>RLPStream\<close> writes the RLP encoding.  Writing any tree of strings and lists with
  \<^verbatim>\<open>append\<close> and nested \<^verbatim>\<open>appendList\<close>, whose header bytes the stream inserts only when a list is full,
  leaves exactly the bytes of the recursive reference encoder, for every tree that encodes to fewer
  than \<open>2 ^ 64\<close> bytes.
\<close>

theorem stream_writes_reference:
  assumes "length (enc t) < 2 ^ 64"
  shows "ebind (append_item t rlpStream) rlp_out = Inr (enc t)"
  using assms by (rule append_item_out)

theorem stream_writes_reference_witness:
  "ebind (append_item (RList [RData [1], RList [], RData (replicate 60 7)]) rlpStream) rlp_out
     = Inr (enc (RList [RData [1], RList [], RData (replicate 60 7)]))"
proof (rule stream_writes_reference)
  have "length (enc (RList [RData [1], RList [], RData (replicate 60 7)])) \<le>
      item_bound (RList [RData [1], RList [], RData (replicate 60 7)])"
    by (rule length_enc_bound) simp
  also have "\<dots> < 2 ^ 64" by simp
  finally show "length (enc (RList [RData [1], RList [], RData (replicate 60 7)])) < 2 ^ 64" .
qed

text \<open>
  Reading a list with \<^verbatim>\<open>operator[]\<close> does not depend on what was read before.  The reader
  memoises the position of the last item; over any sequence of indices, forwards, backwards or
  repeated, it returns the encoding of the item at each index, and the empty string past the end.
\<close>

theorem index_cache_transparent:
  assumes "length (enc (RList ts)) < rlp_limit" and "list_all (\<lambda>i. i < 2 ^ 64 - 1) is"
  shows "rlp_reads (rlp_of (enc (RList ts))) is = Inr (map (item_at ts) is)"
proof -
  note small = items_small [OF assms(1)]
  have "cache_ok ts r \<Longrightarrow> rlp_reads r is = Inr (map (item_at ts) is)" for r
    using assms(2)
  proof (induction "is" arbitrary: r)
    case (Cons i "is")
    then obtain r' where "rlp_index r i = Inr (r', item_at ts i)" "cache_ok ts r'"
      using rlp_index_items [OF small] by fastforce
    then show ?case using Cons by simp
  qed simp
  moreover have "cache_ok ts (rlp_of (enc (RList ts)))"
    using read_enc0(2) [OF assms(1)] by (simp add: cache_ok_def rlp_of_def)
  ultimately show ?thesis .
qed

theorem index_cache_transparent_witness:
  "rlp_reads (rlp_of (enc (RList [RData [1], RData [2, 3]]))) [1, 0, 5, 1]
     = Inr (map (item_at [RData [1], RData [2, 3]]) [1, 0, 5, 1])"
proof (rule index_cache_transparent)
  have "length (enc (RList [RData [1], RData [2, 3]])) \<le> item_bound (RList [RData [1], RData [2, 3]])"
    by (rule length_enc_bound) simp
  also have "\<dots> < rlp_limit" by simp
  finally show "length (enc (RList [RData [1], RData [2, 3]])) < rlp_limit" .
qed simp

text \<open>
  C39: Counting the items of a list ends on every input, malformed ones included: the number of
  bytes left bounds the number of rounds, so a larger bound changes nothing.
\<close>

theorem items_terminates: "length d \<le> fuel \<longrightarrow> items_loop fuel d i = items_loop (length d) d i"
  by (rule impI) (rule items_loop_fuel)

theorem items_terminates_witness:
  "items_loop 9 [0xc1, 1, 2] 0 = items_loop (length [0xc1 :: byte, 1, 2]) [0xc1, 1, 2] 0"
  by (rule items_terminates [rule_format]) simp

end
