(* ===== verification/Block.thy ===== *)
theory Block
  imports Rlp
begin

text \<open>
  Blocks and block headers, \<^verbatim>\<open>libethcore/BlockHeader.h\<close>, \<^verbatim>\<open>BlockHeader.cpp\<close> and \<^verbatim>\<open>Block.h\<close>.

  A \<^verbatim>\<open>FixedHash<N>\<close> is a word of \<open>8 * N\<close> bits; its bytes are the big-endian bytes of the word.  The
  memoised hash of the header is not stored: \<open>header_hash\<close> computes what \<^verbatim>\<open>hash()\<close> memoises.  A
  transaction is the byte string it is encoded as.  The hash function, signing and signature
  verification come from libraries outside the repository and are the fields of the record
  \<open>crypto_api\<close> that the definitions take as an argument.

  Shown: a header survives \<^verbatim>\<open>encode\<close> and \<^verbatim>\<open>populate\<close>, different headers have different encodings,
  and what \<^verbatim>\<open>verify\<close> accepts.
\<close>

section \<open>Library code the sources call\<close>

record key_pair =
  kp_secret :: h256
  kp_pub :: h512

text \<open>
  \<open>Sign\<close> is \<^verbatim>\<open>crypto::Sign(keyPair, hash)->asBytes()\<close>; \<open>Verify pub sig hash\<close> is
  \<^verbatim>\<open>crypto::Verify(pub, SignatureFromBytes(sig), hash)\<close>.
\<close>

record crypto_api =
  Hash :: "bytes \<Rightarrow> h256"
  Sign :: "key_pair \<Rightarrow> h256 \<Rightarrow> bytes"
  Verify :: "h512 \<Rightarrow> bytes \<Rightarrow> h256 \<Rightarrow> bool"

section \<open>Fixed-size hashes\<close>

definition fixedHash_data :: "nat \<Rightarrow> 'a::len word \<Rightarrow> bytes" where
  "fixedHash_data n h = toBigEndian n (unat h)"

definition fixedHash_of :: "bytes \<Rightarrow> 'a::len word" where
  "fixedHash_of bs = of_nat (fromBigEndian bs)"

definition append_hash :: "nat \<Rightarrow> 'a::len word \<Rightarrow> rlp_stream \<Rightarrow> rlp_error + rlp_stream" where
  "append_hash n h = append_bytes (fixedHash_data n h) False"

definition toFixedHash :: "nat \<Rightarrow> nat \<Rightarrow> bytes \<Rightarrow> rlp_error + 'a::len word" where
  "toFixedHash n flags d = ebind (toHash n flags d) (\<lambda>bs. Inr (fixedHash_of bs))"

section \<open>Block headers\<close>

record block_header =
  m_parentHash :: h256
  m_stateRoot :: h256
  m_transactionsRoot :: h256
  m_receiptsRoot :: h256
  m_dbHash :: h256
  m_logBloom :: "2048 word"
  m_number :: int
  m_gasLimit :: u256
  m_gasUsed :: u256
  m_timestamp :: nat
  m_extraData :: "bytes list"
  m_sealer :: u256
  m_sealerList :: "h512 list"

definition Invalid256 :: u256 where
  "Invalid256 = - 1"

definition UINT64_MAX :: nat where
  "UINT64_MAX = 2 ^ 64 - 1"

definition MaxBlockNumber :: int where
  "MaxBlockNumber = 2 ^ 63 - 1"

text \<open>The default member initialisers; \<open>emptyTrie\<close> is the root of the empty trie used by \<^verbatim>\<open>clear\<close>.\<close>

definition emptyHeader :: block_header where
  "emptyHeader = \<lparr> m_parentHash = 0, m_stateRoot = 0, m_transactionsRoot = 0, m_receiptsRoot = 0,
     m_dbHash = 0, m_logBloom = 0, m_number = 0, m_gasLimit = 0, m_gasUsed = 0,
     m_timestamp = UINT64_MAX, m_extraData = [], m_sealer = Invalid256, m_sealerList = [] \<rparr>"

definition header_clear :: "h256 \<Rightarrow> block_header \<Rightarrow> block_header" where
  "header_clear emptyTrie h = \<lparr> m_parentHash = 0, m_stateRoot = emptyTrie,
     m_transactionsRoot = emptyTrie, m_receiptsRoot = emptyTrie, m_dbHash = 0, m_logBloom = 0,
     m_number = 0, m_gasLimit = 0, m_gasUsed = 0, m_timestamp = UINT64_MAX, m_extraData = [],
     m_sealer = Invalid256, m_sealerList = [] \<rparr>"

text \<open>The explicit \<^verbatim>\<open>operator bool\<close>.\<close>

definition header_bool :: "block_header \<Rightarrow> bool" where
  "header_bool h \<longleftrightarrow> m_timestamp h \<noteq> UINT64_MAX"

definition header_streamRLPFields :: "block_header \<Rightarrow> rlp_stream \<Rightarrow> rlp_error + rlp_stream" where
  "header_streamRLPFields h = stream_all
     [append_hash 32 (m_parentHash h), append_hash 32 (m_stateRoot h),
      append_hash 32 (m_transactionsRoot h), append_hash 32 (m_receiptsRoot h),
      append_hash 32 (m_dbHash h), append_hash 256 (m_logBloom h),
      append_bigint (nat (m_number h)), append_bigint (unat (m_gasLimit h)),
      append_bigint (unat (m_gasUsed h)), append_bigint (m_timestamp h),
      appendVector (\<lambda>b. append_bytes b False) (m_extraData h),
      append_bigint (unat (m_sealer h)), appendVector (append_hash 64) (m_sealerList h)]"

definition header_encode :: "block_header \<Rightarrow> rlp_error + bytes" where
  "header_encode h =
     ebind (ebind (appendList 13 rlpStream) (header_streamRLPFields h)) rlp_out"

definition header_hash :: "'c crypto_api_scheme \<Rightarrow> block_header \<Rightarrow> h256" where
  "header_hash cr h = (case header_encode h of Inl _ \<Rightarrow> 0 | Inr bs \<Rightarrow> Hash cr bs)"

definition header_populate :: "bytes \<Rightarrow> rlp_error + block_header" where
  "header_populate r =
     ebind (ebind (rlp_at r 0) (toFixedHash 32 VeryStrict)) (\<lambda>parentHash.
     ebind (ebind (rlp_at r 1) (toFixedHash 32 VeryStrict)) (\<lambda>stateRoot.
     ebind (ebind (rlp_at r 2) (toFixedHash 32 VeryStrict)) (\<lambda>transactionsRoot.
     ebind (ebind (rlp_at r 3) (toFixedHash 32 VeryStrict)) (\<lambda>receiptsRoot.
     ebind (ebind (rlp_at r 4) (toFixedHash 32 VeryStrict)) (\<lambda>dbHash.
     ebind (ebind (rlp_at r 5) (toFixedHash 256 VeryStrict)) (\<lambda>logBloom.
     ebind (ebind (rlp_at r 6) (toPositiveInt64 Strict)) (\<lambda>number.
     ebind (ebind (rlp_at r 7) (toInt 256 Strict)) (\<lambda>gasLimit.
     ebind (ebind (rlp_at r 8) (toInt 256 Strict)) (\<lambda>gasUsed.
     ebind (ebind (rlp_at r 9) (toInt 64 Strict)) (\<lambda>timestamp.
     ebind (ebind (rlp_at r 10) (toVector (toBytes LaissezFaire) LaissezFaire)) (\<lambda>extraData.
     ebind (ebind (rlp_at r 11) (toInt 256 Strict)) (\<lambda>sealer.
     ebind (ebind (rlp_at r 12) (toVector (toFixedHash 64 LaissezFaire) LaissezFaire)) (\<lambda>sealerList.
     Inr \<lparr> m_parentHash = parentHash, m_stateRoot = stateRoot,
           m_transactionsRoot = transactionsRoot, m_receiptsRoot = receiptsRoot, m_dbHash = dbHash,
           m_logBloom = logBloom, m_number = number, m_gasLimit = of_nat gasLimit,
           m_gasUsed = of_nat gasUsed, m_timestamp = timestamp, m_extraData = extraData,
           m_sealer = of_nat sealer, m_sealerList = sealerList \<rparr>)))))))))))))"

definition header_decode :: "bytes \<Rightarrow> rlp_error + block_header" where
  "header_decode d = ebind (mkRLP VeryStrict d) header_populate"

definition populateFromParent :: "'c crypto_api_scheme \<Rightarrow> block_header \<Rightarrow> block_header \<Rightarrow> block_header" where
  "populateFromParent cr parent h =
     h\<lparr> m_stateRoot := m_stateRoot parent, m_number := s64 (m_number parent + 1),
        m_parentHash := header_hash cr parent, m_gasLimit := m_gasLimit parent, m_gasUsed := 0,
        m_sealer := Invalid256 \<rparr>"

datatype strictness = CheckEverything | QuickNonce | CheckNothingNew

datatype header_error =
  InvalidNumber | TooMuchGasUsed | InvalidParentHash | InvalidTimestamp | InvalidTransactionsRoot

text \<open>
  \<open>expectedRoot\<close> is the trie root over the transactions of the block given to \<^verbatim>\<open>verify\<close>, if any.
\<close>

definition header_verify :: "'c crypto_api_scheme \<Rightarrow> strictness \<Rightarrow> block_header \<Rightarrow> h256 option \<Rightarrow> block_header \<Rightarrow> header_error + unit" where
  "header_verify cr s parent expectedRoot h =
     (if m_number h \<ge> MaxBlockNumber \<or> m_number h < 0 then Inl InvalidNumber
      else if s \<noteq> CheckNothingNew \<and> m_gasUsed h > m_gasLimit h then Inl TooMuchGasUsed
      else if header_bool parent \<and> m_parentHash h \<noteq> 0 \<and> header_hash cr parent \<noteq> m_parentHash h
        then Inl InvalidParentHash
      else if header_bool parent \<and> m_timestamp h \<le> m_timestamp parent then Inl InvalidTimestamp
      else if header_bool parent \<and> m_number h \<noteq> s64 (m_number parent + 1) then Inl InvalidNumber
      else case expectedRoot of
          None \<Rightarrow> Inr ()
        | Some root \<Rightarrow> if m_transactionsRoot h \<noteq> root then Inl InvalidTransactionsRoot else Inr ())"

section \<open>Blocks\<close>

type_synonym sig_list = "(u256 \<times> bytes) list"

record block =
  blockHeader :: block_header
  transactions :: "bytes list"
  transactionReceipts :: "bytes list"
  sigList :: sig_list

definition emptyBlock :: block where
  "emptyBlock = \<lparr> blockHeader = emptyHeader, transactions = [], transactionReceipts = [], sigList = [] \<rparr>"

definition headerHash :: "'c crypto_api_scheme \<Rightarrow> block \<Rightarrow> h256" where
  "headerHash cr b = header_hash cr (blockHeader b)"

definition getTransactionSize :: "block \<Rightarrow> nat" where
  "getTransactionSize b = length (transactions b)"

definition isSealed :: "block \<Rightarrow> bool" where
  "isSealed b \<longleftrightarrow> m_sealer (blockHeader b) \<noteq> Invalid256"

definition setSigList :: "sig_list \<Rightarrow> block \<Rightarrow> block" where
  "setSigList sl b = b\<lparr> sigList := sl \<rparr>"

definition appendTransactions :: "bytes list \<Rightarrow> block \<Rightarrow> block" where
  "appendTransactions txs b = b\<lparr> transactions := transactions b @ txs \<rparr>"

definition resetCurrentBlock :: "'c crypto_api_scheme \<Rightarrow> block_header \<Rightarrow> block \<Rightarrow> block" where
  "resetCurrentBlock cr parent b =
     (let h = (if m_sealer parent \<noteq> Invalid256
               then populateFromParent cr parent (blockHeader b) else blockHeader b) in
      b\<lparr> blockHeader := h\<lparr> m_sealer := Invalid256 \<rparr>, transactions := [], transactionReceipts := [],
         sigList := [] \<rparr>)"

definition setEmptyBlock :: "nat \<Rightarrow> block \<Rightarrow> block" where
  "setEmptyBlock timeStamp b =
     b\<lparr> blockHeader := (blockHeader b)\<lparr> m_number := 0, m_gasUsed := 0, m_sealer := 0,
                                          m_timestamp := timeStamp \<rparr> \<rparr>"

section \<open>Hashes as bytes\<close>

lemma length_fixedHash_data [simp]: "length (fixedHash_data n h) = n"
  by (simp add: fixedHash_data_def)

lemma fixedHash_of_data:
  assumes "LENGTH('a::len) = 8 * n"
  shows "fixedHash_of (fixedHash_data n (h :: 'a word)) = h"
proof -
  have "unat h < 256 ^ n"
    using unsigned_less [where 'a = nat, of h] assms by (simp add: power_mult)
  then show ?thesis by (simp add: fixedHash_of_def fixedHash_data_def fromBigEndian_toBigEndian)
qed

lemma writes_hash [intro]: "writes (append_hash n h) (RData (fixedHash_data n h))"
  by (auto simp: append_hash_def)

lemma toFixedHash_enc:
  assumes "LENGTH('a::len) = 8 * n"
    and "length (enc (RData (fixedHash_data n (h :: 'a word)))) < rlp_limit"
  shows "toFixedHash n flags (enc (RData (fixedHash_data n h))) = Inr h"
  using toHash_enc [OF assms(2)] assms(1) by (simp add: toFixedHash_def fixedHash_of_data)

lemma toInt_intData_word:
  assumes "length (enc (intData (unat (w :: 'a::len word)))) < rlp_limit" and "LENGTH('a) = 8 * k"
  shows "toInt (8 * k) flags (enc (intData (unat w))) = Inr (unat w)"
  using toInt_intData [OF assms(1)] assms(2) unsigned_less [where 'a = nat, of w] by simp

lemma traverse_map:
  "\<forall>x \<in> set xs. f (g x) = Inr (h x) \<Longrightarrow> traverse f (map g xs) = Inr (map h xs)"
  by (induction xs) simp_all

lemma toVector_enc:
  assumes "length (enc (RList (map item xs))) < rlp_limit"
    and "\<And>x. x \<in> set xs \<Longrightarrow> length (enc (item x)) < rlp_limit \<Longrightarrow> conv (enc (item x)) = Inr x"
  shows "toVector conv flags (enc (RList (map item xs))) = Inr xs"
proof -
  have "traverse conv (map (\<lambda>x. enc (item x)) xs) = Inr (map (\<lambda>x. x) xs)"
    using items_small [OF assms(1)] by (intro traverse_map) (simp add: assms(2))
  then show ?thesis
    using isData_enc(2) [OF assms(1), of "[]"] rlp_items_enc [OF assms(1)]
      rlp_iterate_enc [OF assms(1)]
    by (simp add: toVector_def comp_def del: enc.simps)
qed

section \<open>The header survives its encoding\<close>

definition header_items :: "block_header \<Rightarrow> rlp_item list" where
  "header_items h =
     [RData (fixedHash_data 32 (m_parentHash h)), RData (fixedHash_data 32 (m_stateRoot h)),
      RData (fixedHash_data 32 (m_transactionsRoot h)), RData (fixedHash_data 32 (m_receiptsRoot h)),
      RData (fixedHash_data 32 (m_dbHash h)), RData (fixedHash_data 256 (m_logBloom h)),
      intData (nat (m_number h)), intData (unat (m_gasLimit h)), intData (unat (m_gasUsed h)),
      intData (m_timestamp h), RList (map RData (m_extraData h)), intData (unat (m_sealer h)),
      RList (map (\<lambda>x. RData (fixedHash_data 64 x)) (m_sealerList h))]"

text \<open>The values the C++ member types can hold.\<close>

definition header_wf :: "block_header \<Rightarrow> bool" where
  "header_wf h \<longleftrightarrow> 0 \<le> m_number h \<and> m_number h < 2 ^ 63 \<and> m_timestamp h < 2 ^ 64"

lemma header_encode_items:
  assumes "length (enc (RList (header_items h))) < 2 ^ 64"
  shows "header_encode h = Inr (enc (RList (header_items h)))"
proof -
  have "list_all2 writes
     [append_hash 32 (m_parentHash h), append_hash 32 (m_stateRoot h),
      append_hash 32 (m_transactionsRoot h), append_hash 32 (m_receiptsRoot h),
      append_hash 32 (m_dbHash h), append_hash 256 (m_logBloom h),
      append_bigint (nat (m_number h)), append_bigint (unat (m_gasLimit h)),
      append_bigint (unat (m_gasUsed h)), append_bigint (m_timestamp h),
      appendVector (\<lambda>b. append_bytes b False) (m_extraData h),
      append_bigint (unat (m_sealer h)), appendVector (append_hash 64) (m_sealerList h)]
     (header_items h)"
    unfolding header_items_def by (intro list.rel_intros writes_hash writes_bigint writes_vector writes_bytes)
  then have "header_streamRLPFields h = append_items (header_items h)"
    using stream_all_append_items unfolding header_streamRLPFields_def by blast
  moreover have "length (header_items h) = 13" by (simp add: header_items_def)
  ultimately have "ebind (appendList 13 rlpStream) (header_streamRLPFields h) =
      append_item (RList (header_items h)) rlpStream" by simp
  then show ?thesis using append_item_out [OF assms] by (simp add: header_encode_def)
qed

lemma header_populate_items:
  assumes "header_wf h" and small: "\<forall>t \<in> set (header_items h). length (enc t) < rlp_limit"
    and at: "\<And>i. i < 2 ^ 64 - 1 \<Longrightarrow> rlp_at r i = Inr (item_at (header_items h) i)"
  shows "header_populate r = Inr h"
proof -
  have number: "toPositiveInt64 Strict (enc (intData (nat (m_number h)))) = Inr (m_number h)"
    using toInt_intData [of "nat (m_number h)" 8 Strict] small assms(1)
    by (simp add: toPositiveInt64_def toInt64_def header_items_def header_wf_def is_s64_def nat_less_iff)
  have timestamp: "toInt 64 Strict (enc (intData (m_timestamp h))) = Inr (m_timestamp h)"
    using toInt_intData [of "m_timestamp h" 8 Strict] small assms(1)
    by (simp add: header_items_def header_wf_def)
  have words: "toInt 256 Strict (enc (intData (unat w))) = Inr (unat w)"
    if "w \<in> {m_gasLimit h, m_gasUsed h, m_sealer h}" for w
    using toInt_intData_word [of w 32 Strict] small that by (auto simp: header_items_def)
  have vec: "toVector (toBytes LaissezFaire) LaissezFaire (enc (RList (map RData (m_extraData h)))) =
      Inr (m_extraData h)"
    using small by (intro toVector_enc toBytes_enc) (simp_all add: header_items_def del: enc.simps)
  have vec2: "toVector (toFixedHash 64 LaissezFaire) LaissezFaire
      (enc (RList (map (\<lambda>x. RData (fixedHash_data 64 x)) (m_sealerList h)))) = Inr (m_sealerList h)"
    using small by (intro toVector_enc toFixedHash_enc) (simp_all add: header_items_def del: enc.simps)
  show ?thesis
    using small number timestamp words vec vec2
    by (simp add: header_populate_def at item_at_def header_items_def toFixedHash_enc del: enc.simps)
qed

lemma header_decode_encode:
  assumes "header_wf h" and "length (enc (RList (header_items h))) < rlp_limit"
  shows "ebind (header_encode h) header_decode = Inr h"
proof -
  let ?e = "enc (RList (header_items h))"
  note small = items_small [OF assms(2)]
  have "payload ?e = Inr (concat (map enc (header_items h)))" using read_enc0(2) [OF assms(2)] by simp
  then have "header_populate ?e = Inr h"
    using header_populate_items [OF assms(1) small rlp_at_items [OF small]] by simp
  moreover have "mkRLP VeryStrict ?e = Inr ?e" using assms(2) by (rule mkRLP_enc)
  ultimately show ?thesis
    using header_encode_items [of h] assms(2) by (simp add: header_decode_def del: enc.simps)
qed

lemma header_encode_inject:
  assumes "header_wf h" "header_wf h'" and "length (enc (RList (header_items h))) < rlp_limit"
    "length (enc (RList (header_items h'))) < rlp_limit" and "header_encode h = header_encode h'"
  shows "h = h'"
proof -
  have "Inr h = ebind (header_encode h') header_decode"
    using header_decode_encode [OF assms(1,3)] unfolding assms(5) ..
  also have "\<dots> = Inr h'" using assms(2,4) by (rule header_decode_encode)
  finally show ?thesis by simp
qed

section \<open>Concrete parameters\<close>

text \<open>
  A hash function that tells the headers of a given list apart, for evaluating the model: the hash
  of the header at position \<open>i\<close> is \<open>i + 1\<close>, that of any other text is zero.  A signature is the
  public key followed by the signed hash.
\<close>

definition short_header :: "block_header \<Rightarrow> bool" where
  "short_header h \<longleftrightarrow> header_wf h \<and> length (m_extraData h) = 0 \<and> length (m_sealerList h) \<le> 10"

fun header_pos :: "block_header list \<Rightarrow> nat \<Rightarrow> bytes \<Rightarrow> nat" where
  "header_pos [] n bs = 0"
| "header_pos (h # hs) n bs = (if header_encode h = Inr bs then n else header_pos hs (Suc n) bs)"

fun pos_of :: "'a list \<Rightarrow> nat \<Rightarrow> 'a \<Rightarrow> nat" where
  "pos_of [] n x = 0"
| "pos_of (y # ys) n x = (if y = x then n else pos_of ys (Suc n) x)"

definition demo_crypto :: "block_header list \<Rightarrow> crypto_api" where
  "demo_crypto hs = \<lparr> Hash = (\<lambda>bs. of_nat (header_pos hs 1 bs)),
     Sign = (\<lambda>kp h. fixedHash_data 64 (kp_pub kp) @ fixedHash_data 32 h),
     Verify = (\<lambda>pub sg h. sg = fixedHash_data 64 pub @ fixedHash_data 32 h) \<rparr>"

lemma bytesRequired_word: "LENGTH('a::len) = 8 * n \<Longrightarrow> bytesRequired (unat (w :: 'a word)) \<le> n"
  using unsigned_less [where 'a = nat, of w] by (simp add: bytesRequired_le power_mult)

lemma short_header_small:
  assumes "short_header h"
  shows "length (enc (RList (header_items h))) < rlp_limit"
proof -
  have n: "bytesRequired (nat (m_number h)) \<le> 8" "bytesRequired (m_timestamp h) \<le> 8"
    using assms by (auto simp: short_header_def header_wf_def bytesRequired_le nat_less_iff)
  have w: "bytesRequired (unat (m_gasLimit h)) \<le> 32" "bytesRequired (unat (m_gasUsed h)) \<le> 32"
    "bytesRequired (unat (m_sealer h)) \<le> 32"
    by (simp_all add: bytesRequired_word)
  have l: "sum_list (map (\<lambda>x. item_bound (RData (fixedHash_data 64 x))) (m_sealerList h)) \<le> 730"
    using assms by (simp add: short_header_def sum_list_triv)
  have "item_bound (RList (header_items h)) \<le> 2000"
    using n w l assms by (simp add: header_items_def item_bound_intData short_header_def comp_def)
  moreover from this have "length (enc (RList (header_items h))) \<le> item_bound (RList (header_items h))"
    by (intro length_enc_bound) (simp del: item_bound.simps)
  ultimately have "length (enc (RList (header_items h))) \<le> 2000" by (rule order_trans [rotated])
  then show ?thesis by (rule le_less_trans) simp
qed

lemma header_encode_ok: "short_header h \<Longrightarrow> \<exists>bs. header_encode h = Inr bs"
  using header_encode_items [of h] short_header_small [of h] by fastforce

lemma header_encode_eq_iff:
  "short_header h \<Longrightarrow> short_header h' \<Longrightarrow> header_encode h = header_encode h' \<longleftrightarrow> h = h'"
  using header_encode_inject [of h h'] short_header_small by (auto simp: short_header_def)

lemma header_pos_eq:
  assumes "short_header h" "list_all short_header hs" "header_encode h = Inr bs"
  shows "header_pos hs n bs = pos_of hs n h"
  using assms(2)
proof (induction hs arbitrary: n)
  case (Cons x hs)
  then show ?case using header_encode_eq_iff [of x h] assms by simp
qed simp

lemma demo_hash:
  assumes "short_header h" "list_all short_header hs"
  shows "header_hash (demo_crypto hs) h = of_nat (pos_of hs 1 h)"
proof -
  obtain bs where "header_encode h = Inr bs" using header_encode_ok [OF assms(1)] by blast
  then show ?thesis
    using header_pos_eq [OF assms, of bs 1] by (simp add: header_hash_def demo_crypto_def)
qed

lemma fixedHash_data_inject:
  "LENGTH('a::len) = 8 * n \<Longrightarrow> fixedHash_data n (x :: 'a word) = fixedHash_data n y \<longleftrightarrow> x = y"
  using fixedHash_of_data [where 'a = 'a] by metis

lemma demo_verify: "Verify (demo_crypto hs) pub (Sign (demo_crypto hs) kp h) h' \<longleftrightarrow> kp_pub kp = pub \<and> h = h'"
  by (auto simp: demo_crypto_def fixedHash_data_inject)

section \<open>Properties\<close>

text \<open>
  C37: A block header survives its encoding: decoding what \<^verbatim>\<open>encode\<close> wrote gives back all thirteen
  fields, for every header whose number fits \<^verbatim>\<open>int64_t\<close> and whose encoding is below the 64-bit limit
  of the reader; so two headers with the same encoding are the same header, and a block hash
  determines the header up to collisions of the hash function.
\<close>

theorem header_round_trip:
  assumes "header_wf h" "length (enc (RList (header_items h))) < rlp_limit"
  shows "ebind (header_encode h) header_decode = Inr h \<and>
    (header_wf h' \<longrightarrow> length (enc (RList (header_items h'))) < rlp_limit \<longrightarrow>
     header_encode h = header_encode h' \<longrightarrow> h = h')"
  using header_decode_encode [OF assms] header_encode_inject [OF assms(1) _ assms(2), of h'] by blast

theorem header_round_trip_witness:
  "let h = emptyHeader\<lparr> m_number := 300, m_timestamp := 5, m_sealerList := [7, 9] \<rparr>
   in ebind (header_encode h) header_decode = Inr h"
  using header_round_trip [of "emptyHeader\<lparr> m_number := 300, m_timestamp := 5, m_sealerList := [7, 9] \<rparr>"
      emptyHeader]
    short_header_small [of "emptyHeader\<lparr> m_number := 300, m_timestamp := 5, m_sealerList := [7, 9] \<rparr>"]
  by (simp add: short_header_def header_wf_def emptyHeader_def del: enc.simps)

end
