(* ===== verification/PBFT_Msg.thy ===== *)
theory PBFT_Msg
  imports Block Hex
begin

text \<open>
  The PBFT messages of \<^verbatim>\<open>libconsensus/pbft/Common.h\<close>.

  \<^verbatim>\<open>PBFTMsg\<close> is the record \<open>pbft_msg\<close>; \<^verbatim>\<open>SignReq\<close>, \<^verbatim>\<open>CommitReq\<close> and \<^verbatim>\<open>ViewChangeReq\<close> add no
  members and are the same type, \<^verbatim>\<open>PrepareReq\<close> extends it.  \<^verbatim>\<open>PBFTMsgPacket\<close> and
  \<^verbatim>\<open>OPBFTMsgPacket\<close> are \<open>pbft_msg_packet\<close>.  Shared pointers to data are option values where the code
  tests them against \<^verbatim>\<open>nullptr\<close>.

  \<^verbatim>\<open>_s << height\<close> with an \<^verbatim>\<open>int64_t\<close> selects the overload \<^verbatim>\<open>append(unsigned)\<close> of \<^verbatim>\<open>RLPStream\<close>,
  the only one reached by a standard conversion, so heights and views are written modulo \<open>2 ^ 32\<close>
  (\<open>append_int64\<close>).

  Shown: every message class survives encoding and decoding, with heights and views reduced modulo
  \<open>2 ^ 32\<close>, and the packet flag survives in the eighth bit of the ttl.
\<close>

unbundle bit_operations_syntax

section \<open>Constants of \<^verbatim>\<open>libconsensus/Common.h\<close>\<close>

definition MAXIDX :: IDXTYPE where "MAXIDX = 0xFFFF"
definition MAXVIEW :: VIEWTYPE where "MAXVIEW = 2 ^ 63 - 1"
definition MAXTTL :: byte where "MAXTTL = 2"

datatype packet_type = PrepareReqPacket | SignReqPacket | CommitReqPacket | ViewChangeReqPacket

fun packet_code :: "packet_type \<Rightarrow> byte" where
  "packet_code PrepareReqPacket = 0x00"
| "packet_code SignReqPacket = 0x01"
| "packet_code CommitReqPacket = 0x02"
| "packet_code ViewChangeReqPacket = 0x03"

section \<open>Messages\<close>

type_synonym exec_context = nat

record pbft_msg =
  height :: int
  view :: VIEWTYPE
  idx :: IDXTYPE
  timestamp :: u256
  block_hash :: h256
  sig :: bytes
  sig2 :: bytes
  isFuture :: bool
  signChecked :: bool
  isEmpty :: bool

record prepare_req = pbft_msg +
  block_data :: bytes
  pBlock :: "block option"
  p_execContext :: "exec_context option"

type_synonym sign_req = pbft_msg
type_synonym commit_req = pbft_msg
type_synonym viewchange_req = pbft_msg

definition emptyMsg :: pbft_msg where
  "emptyMsg = \<lparr> height = -1, view = MAXVIEW, idx = MAXIDX, timestamp = Invalid256, block_hash = 0,
     sig = [], sig2 = [], isFuture = False, signChecked = True, isEmpty = False \<rparr>"

definition emptyPrepare :: prepare_req where
  "emptyPrepare = \<lparr> height = -1, view = MAXVIEW, idx = MAXIDX, timestamp = Invalid256,
     block_hash = 0, sig = [], sig2 = [], isFuture = False, signChecked = True, isEmpty = False,
     block_data = [], pBlock = None, p_execContext = None \<rparr>"

text \<open>\<^verbatim>\<open>append(unsigned)\<close> reached from an \<^verbatim>\<open>int64_t\<close>.\<close>

definition append_int64 :: "int \<Rightarrow> rlp_stream \<Rightarrow> rlp_error + rlp_stream" where
  "append_int64 i = append_bigint (nat (i mod 2 ^ 32))"

definition streamRLPFields :: "'a pbft_msg_scheme \<Rightarrow> rlp_stream \<Rightarrow> rlp_error + rlp_stream" where
  "streamRLPFields m = stream_all
     [append_int64 (height m), append_int64 (view m), append_bigint (unat (idx m)),
      append_bigint (unat (timestamp m)), append_hash 32 (block_hash m),
      append_bytes (sig m) False, append_bytes (sig2 m) False]"

definition populate :: "'a pbft_msg_scheme \<Rightarrow> bytes \<Rightarrow> rlp_error + 'a pbft_msg_scheme" where
  "populate m r =
     ebind (ebind (rlp_at r 0) (toInt64 Strict)) (\<lambda>h.
     ebind (ebind (rlp_at r 1) (toInt64 Strict)) (\<lambda>v.
     ebind (ebind (rlp_at r 2) (toInt 16 Strict)) (\<lambda>i.
     ebind (ebind (rlp_at r 3) (toInt 256 Strict)) (\<lambda>t.
     ebind (ebind (rlp_at r 4) (toFixedHash 32 VeryStrict)) (\<lambda>bh.
     ebind (ebind (rlp_at r 5) (toBytes LaissezFaire)) (\<lambda>s.
     ebind (ebind (rlp_at r 6) (toBytes LaissezFaire)) (\<lambda>s2.
     Inr (m\<lparr> height := h, view := v, idx := of_nat i, timestamp := of_nat t, block_hash := bh,
             sig := s, sig2 := s2 \<rparr>))))))))"

definition PBFTMsg_encode :: "'a pbft_msg_scheme \<Rightarrow> rlp_error + bytes" where
  "PBFTMsg_encode m = encode_fields (streamRLPFields m)"

definition PBFTMsg_decode :: "'a pbft_msg_scheme \<Rightarrow> bytes \<Rightarrow> rlp_error + 'a pbft_msg_scheme" where
  "PBFTMsg_decode m = decode_fields (populate m) 0"

definition streamStatus :: "'a pbft_msg_scheme \<Rightarrow> rlp_stream \<Rightarrow> rlp_error + rlp_stream" where
  "streamStatus m = stream_all
     [append_int64 (height m), append_int64 (view m), append_bigint (unat (idx m)),
      append_hash 32 (block_hash m)]"

definition encodeStatus :: "'a pbft_msg_scheme \<Rightarrow> rlp_error + bytes" where
  "encodeStatus m = encode_fields (streamStatus m)"

definition populateStatus :: "'a pbft_msg_scheme \<Rightarrow> bytes \<Rightarrow> rlp_error + 'a pbft_msg_scheme" where
  "populateStatus m r =
     ebind (ebind (rlp_at r 0) (toInt64 Strict)) (\<lambda>h.
     ebind (ebind (rlp_at r 1) (toInt64 Strict)) (\<lambda>v.
     ebind (ebind (rlp_at r 2) (toInt 16 Strict)) (\<lambda>i.
     ebind (ebind (rlp_at r 3) (toFixedHash 32 VeryStrict)) (\<lambda>bh.
     Inr (m\<lparr> height := h, view := v, idx := of_nat i, block_hash := bh \<rparr>)))))"

definition decodeStatus :: "'a pbft_msg_scheme \<Rightarrow> bytes \<Rightarrow> rlp_error + 'a pbft_msg_scheme" where
  "decodeStatus m = decode_fields (populateStatus m) 0"

definition streamPrepareFields :: "'a prepare_req_scheme \<Rightarrow> rlp_stream \<Rightarrow> rlp_error + rlp_stream" where
  "streamPrepareFields m s =
     ebind (streamRLPFields m s) (append_bytes (block_data m) False)"

definition populatePrepare :: "'a prepare_req_scheme \<Rightarrow> bytes \<Rightarrow> rlp_error + 'a prepare_req_scheme" where
  "populatePrepare m r =
     ebind (populate m r) (\<lambda>m'.
     ebind (ebind (rlp_at r 7) (toBytes LaissezFaire)) (\<lambda>b.
     Inr (m'\<lparr> block_data := b \<rparr>)))"

definition PrepareReq_encode :: "'a prepare_req_scheme \<Rightarrow> rlp_error + bytes" where
  "PrepareReq_encode m = encode_fields (streamPrepareFields m)"

definition PrepareReq_decode :: "'a prepare_req_scheme \<Rightarrow> bytes \<Rightarrow> rlp_error + 'a prepare_req_scheme" where
  "PrepareReq_decode m = decode_fields (populatePrepare m) 0"

text \<open>
  \<^verbatim>\<open>operator==\<close> and \<^verbatim>\<open>clear\<close>: the \<^verbatim>\<open>resize\<close> calls of \<^verbatim>\<open>clear\<close> keep both signatures as they are.
\<close>

definition msg_eq :: "'a pbft_msg_scheme \<Rightarrow> 'b pbft_msg_scheme \<Rightarrow> bool" where
  "msg_eq a b \<longleftrightarrow> height a = height b \<and> view a = view b \<and> block_hash a = block_hash b \<and>
     sig a = sig b \<and> sig2 a = sig2 b"

definition clear_msg :: "'a pbft_msg_scheme \<Rightarrow> 'a pbft_msg_scheme" where
  "clear_msg m = m\<lparr> height := -1, view := MAXVIEW, idx := MAXIDX, timestamp := Invalid256,
     block_hash := 0 \<rparr>"

definition uniqueKey :: "'a pbft_msg_scheme \<Rightarrow> string" where
  "uniqueKey m = toHex (sig m) @ toHex (sig2 m)"

section \<open>Construction and signing\<close>

text \<open>The hash of height, view, index and timestamp; \<open>now\<close> is \<^verbatim>\<open>utcTime()\<close>.\<close>

definition fieldsWithoutBlock :: "'c crypto_api_scheme \<Rightarrow> 'a pbft_msg_scheme \<Rightarrow> h256" where
  "fieldsWithoutBlock cr m =
     (case ebind (stream_all
         [append_int64 (height m), append_int64 (view m), append_bigint (unat (idx m)),
          append_bigint (unat (timestamp m))] rlpStream) rlp_out of
        Inl _ \<Rightarrow> 0 | Inr bs \<Rightarrow> Hash cr bs)"

definition signMsg :: "'c crypto_api_scheme \<Rightarrow> key_pair \<Rightarrow> 'a pbft_msg_scheme \<Rightarrow> 'a pbft_msg_scheme" where
  "signMsg cr kp m = (let m' = m\<lparr> sig := Sign cr kp (block_hash m) \<rparr> in
     m'\<lparr> sig2 := Sign cr kp (fieldsWithoutBlock cr m') \<rparr>)"

definition mkPBFTMsg :: "'c crypto_api_scheme \<Rightarrow> key_pair \<Rightarrow> nat \<Rightarrow> int \<Rightarrow> VIEWTYPE \<Rightarrow> IDXTYPE \<Rightarrow> h256 \<Rightarrow> pbft_msg" where
  "mkPBFTMsg cr kp now h v i bh = signMsg cr kp
     (emptyMsg\<lparr> height := h, view := v, idx := i, timestamp := of_nat now, block_hash := bh \<rparr>)"

definition mkSignReq :: "'c crypto_api_scheme \<Rightarrow> key_pair \<Rightarrow> nat \<Rightarrow> prepare_req \<Rightarrow> IDXTYPE \<Rightarrow> sign_req" where
  "mkSignReq cr kp now req i = mkPBFTMsg cr kp now (height req) (view req) i (block_hash req)"

definition mkCommitReq :: "'c crypto_api_scheme \<Rightarrow> key_pair \<Rightarrow> nat \<Rightarrow> prepare_req \<Rightarrow> IDXTYPE \<Rightarrow> commit_req" where
  "mkCommitReq cr kp now req i = mkPBFTMsg cr kp now (height req) (view req) i (block_hash req)"

definition mkViewChangeReq :: "'c crypto_api_scheme \<Rightarrow> key_pair \<Rightarrow> nat \<Rightarrow> int \<Rightarrow> VIEWTYPE \<Rightarrow> IDXTYPE \<Rightarrow> h256 \<Rightarrow> viewchange_req" where
  "mkViewChangeReq cr kp now h v i bh = mkPBFTMsg cr kp now h v i bh"

text \<open>The three constructors of \<^verbatim>\<open>PrepareReq\<close>; \<open>encodeProposal\<close> is the block encoder.\<close>

definition mkPrepareFromReq :: "'c crypto_api_scheme \<Rightarrow> key_pair \<Rightarrow> nat \<Rightarrow> prepare_req \<Rightarrow> VIEWTYPE \<Rightarrow> IDXTYPE \<Rightarrow> prepare_req" where
  "mkPrepareFromReq cr kp now req v i = signMsg cr kp
     (emptyPrepare\<lparr> height := height req, view := v, idx := i, timestamp := of_nat now,
        block_hash := block_hash req, block_data := block_data req, pBlock := pBlock req,
        p_execContext := None \<rparr>)"

definition mkPrepareFromBlock :: "'c crypto_api_scheme \<Rightarrow> key_pair \<Rightarrow> nat \<Rightarrow> (block \<Rightarrow> bool \<Rightarrow> bytes) \<Rightarrow> block \<Rightarrow> VIEWTYPE \<Rightarrow> IDXTYPE \<Rightarrow> bool \<Rightarrow> prepare_req" where
  "mkPrepareFromBlock cr kp now encodeProposal b v i onlyHash = signMsg cr kp
     (emptyPrepare\<lparr> height := m_number (blockHeader b), view := v, idx := i,
        timestamp := of_nat now, block_hash := headerHash cr b,
        block_data := encodeProposal b onlyHash, pBlock := Some b, p_execContext := None \<rparr>)"

definition mkPrepareFromSealing :: "'c crypto_api_scheme \<Rightarrow> key_pair \<Rightarrow> nat \<Rightarrow> prepare_req \<Rightarrow> block \<Rightarrow> exec_context option \<Rightarrow> prepare_req" where
  "mkPrepareFromSealing cr kp now req b ctx = signMsg cr kp
     (emptyPrepare\<lparr> height := height req, view := view req, idx := idx req,
        timestamp := of_nat now, block_hash := headerHash cr b, pBlock := Some b,
        p_execContext := ctx \<rparr>)"

section \<open>Packets\<close>

record pbft_msg_packet =
  node_idx :: IDXTYPE
  node_id :: h512
  packet_id :: byte
  ttl :: byte
  prepareWithEmptyBlock :: bool
  pkt_data :: bytes
  pkt_timestamp :: u256
  endpoint :: string
  forwardNodes :: "h512 list option"

definition emptyPacket :: "nat \<Rightarrow> pbft_msg_packet" where
  "emptyPacket now = \<lparr> node_idx = 0, node_id = 0, packet_id = 0, ttl = MAXTTL,
     prepareWithEmptyBlock = False, pkt_data = [], pkt_timestamp = of_nat now, endpoint = [],
     forwardNodes = None \<rparr>"

definition emptyOPacket :: "nat \<Rightarrow> pbft_msg_packet" where
  "emptyOPacket now = (emptyPacket now)\<lparr> forwardNodes := Some [] \<rparr>"

definition packet_eq :: "pbft_msg_packet \<Rightarrow> pbft_msg_packet \<Rightarrow> bool" where
  "packet_eq a b \<longleftrightarrow> node_idx a = node_idx b \<and> node_id a = node_id b \<and>
     packet_id a = packet_id b \<and> pkt_data a = pkt_data b"

definition setOtherField :: "nat \<Rightarrow> IDXTYPE \<Rightarrow> h512 \<Rightarrow> string \<Rightarrow> pbft_msg_packet \<Rightarrow> pbft_msg_packet" where
  "setOtherField now i n ep p =
     p\<lparr> node_idx := i, node_id := n, endpoint := ep, pkt_timestamp := of_nat now \<rparr>"

text \<open>\<^verbatim>\<open>streamRLPFields\<close> also sets the eighth bit of the mutable member \<^verbatim>\<open>ttl\<close>.\<close>

definition extendTTL :: "pbft_msg_packet \<Rightarrow> pbft_msg_packet" where
  "extendTTL p = (if prepareWithEmptyBlock p then p\<lparr> ttl := ttl p OR 0x80 \<rparr> else p)"

definition packet_stream :: "pbft_msg_packet \<Rightarrow> rlp_stream \<Rightarrow> rlp_error + rlp_stream" where
  "packet_stream p = (let p' = extendTTL p in
     stream_all [append_bigint (unat (packet_id p')), append_bigint (unat (ttl p')),
                 append_bytes (pkt_data p') False])"

definition packet_encode :: "pbft_msg_packet \<Rightarrow> rlp_error + (pbft_msg_packet \<times> bytes)" where
  "packet_encode p = ebind (encode_fields (packet_stream p)) (\<lambda>bs. Inr (extendTTL p, bs))"

definition packet_populate :: "pbft_msg_packet \<Rightarrow> bytes \<Rightarrow> rlp_error + pbft_msg_packet" where
  "packet_populate p r =
     ebind (ebind (rlp_at r 0) (toInt 8 Strict)) (\<lambda>i.
     ebind (ebind (rlp_at r 1) (toInt 8 Strict)) (\<lambda>e.
     let extendedTTL = of_nat e :: byte in
     ebind (ebind (rlp_at r 2) (toBytes LaissezFaire)) (\<lambda>d.
     Inr (p\<lparr> packet_id := of_nat i, ttl := extendedTTL AND 0x7f,
             prepareWithEmptyBlock := (extendedTTL AND 0x80 \<noteq> 0), pkt_data := d \<rparr>))))"

definition packet_decode :: "pbft_msg_packet \<Rightarrow> bytes \<Rightarrow> rlp_error + pbft_msg_packet" where
  "packet_decode p = decode_fields (packet_populate p) 0"

text \<open>\<^verbatim>\<open>OPBFTMsgPacket\<close>; its constructor always allocates \<^verbatim>\<open>forwardNodes\<close>.\<close>

definition opacket_stream :: "pbft_msg_packet \<Rightarrow> rlp_stream \<Rightarrow> rlp_error + rlp_stream" where
  "opacket_stream p s = ebind (packet_stream p s)
     (appendVector (append_hash 64)
        (case forwardNodes p of None \<Rightarrow> [] | Some ns \<Rightarrow> ns))"

definition opacket_encode :: "pbft_msg_packet \<Rightarrow> rlp_error + (pbft_msg_packet \<times> bytes)" where
  "opacket_encode p = ebind (encode_fields (opacket_stream p)) (\<lambda>bs. Inr (extendTTL p, bs))"

definition opacket_populate :: "pbft_msg_packet \<Rightarrow> bytes \<Rightarrow> rlp_error + pbft_msg_packet" where
  "opacket_populate p r =
     ebind (packet_populate p r) (\<lambda>p'.
     ebind (ebind (rlp_at r 3) (toVector (toFixedHash 64 LaissezFaire) LaissezFaire)) (\<lambda>ns.
     Inr (p'\<lparr> forwardNodes := Some ns \<rparr>)))"

definition opacket_decode :: "pbft_msg_packet \<Rightarrow> bytes \<Rightarrow> rlp_error + pbft_msg_packet" where
  "opacket_decode p = decode_fields (opacket_populate p) 0"

section \<open>Message fields as items\<close>

definition msg_fields :: "'a pbft_msg_scheme \<Rightarrow> rlp_item list" where
  "msg_fields m =
     [intData (nat (height m mod 2 ^ 32)), intData (nat (view m mod 2 ^ 32)),
      intData (unat (idx m)), intData (unat (timestamp m)),
      RData (fixedHash_data 32 (block_hash m)), RData (sig m), RData (sig2 m)]"

definition msg_restored :: "'a pbft_msg_scheme \<Rightarrow> 'b pbft_msg_scheme \<Rightarrow> 'a pbft_msg_scheme" where
  "msg_restored m0 m = m0\<lparr> height := height m mod 2 ^ 32, view := view m mod 2 ^ 32, idx := idx m,
     timestamp := timestamp m, block_hash := block_hash m, sig := sig m, sig2 := sig2 m \<rparr>"

definition status_fields :: "'a pbft_msg_scheme \<Rightarrow> rlp_item list" where
  "status_fields m =
     [intData (nat (height m mod 2 ^ 32)), intData (nat (view m mod 2 ^ 32)),
      intData (unat (idx m)), RData (fixedHash_data 32 (block_hash m))]"

definition status_restored :: "'a pbft_msg_scheme \<Rightarrow> 'b pbft_msg_scheme \<Rightarrow> 'a pbft_msg_scheme" where
  "status_restored m0 m = m0\<lparr> height := height m mod 2 ^ 32, view := view m mod 2 ^ 32,
     idx := idx m, block_hash := block_hash m \<rparr>"

definition prepare_fields :: "'a prepare_req_scheme \<Rightarrow> rlp_item list" where
  "prepare_fields m = msg_fields m @ [RData (block_data m)]"

definition prepare_restored :: "'a prepare_req_scheme \<Rightarrow> 'b prepare_req_scheme \<Rightarrow> 'a prepare_req_scheme" where
  "prepare_restored m0 m = (msg_restored m0 m)\<lparr> block_data := block_data m \<rparr>"

definition packet_fields :: "pbft_msg_packet \<Rightarrow> rlp_item list" where
  "packet_fields p = [intData (unat (packet_id p)), intData (unat (ttl (extendTTL p))),
     RData (pkt_data p)]"

definition packet_restored :: "pbft_msg_packet \<Rightarrow> pbft_msg_packet \<Rightarrow> pbft_msg_packet" where
  "packet_restored p0 p = p0\<lparr> packet_id := packet_id p, ttl := ttl (extendTTL p) AND 0x7f,
     prepareWithEmptyBlock := (ttl (extendTTL p) AND 0x80 \<noteq> 0), pkt_data := pkt_data p \<rparr>"

definition opacket_fields :: "pbft_msg_packet \<Rightarrow> rlp_item list" where
  "opacket_fields p = packet_fields p @
     [RList (map (\<lambda>x. RData (fixedHash_data 64 x)) (case forwardNodes p of None \<Rightarrow> [] | Some ns \<Rightarrow> ns))]"

definition opacket_restored :: "pbft_msg_packet \<Rightarrow> pbft_msg_packet \<Rightarrow> pbft_msg_packet" where
  "opacket_restored p0 p = (packet_restored p0 p)\<lparr> forwardNodes :=
     Some (case forwardNodes p of None \<Rightarrow> [] | Some ns \<Rightarrow> ns) \<rparr>"

lemma writes_int64 [intro]: "writes (append_int64 i) (intData (nat (i mod 2 ^ 32)))"
  by (auto simp: append_int64_def)

lemma append_items_single: "append_items [t] = append_item t"
  by (rule ext) (simp add: append_items_Nil)

lemma append_item_RData: "append_item (RData b) = append_bytes b False"
  by (rule ext) simp

lemma stream_msg_fields: "streamRLPFields m s = append_items (msg_fields m) s"
  unfolding streamRLPFields_def msg_fields_def
  by (intro stream_all_append_items list.rel_intros writes_int64 writes_bigint writes_hash writes_bytes)

lemma stream_status_fields: "streamStatus m s = append_items (status_fields m) s"
  unfolding streamStatus_def status_fields_def
  by (intro stream_all_append_items list.rel_intros writes_int64 writes_bigint writes_hash writes_bytes)

lemma stream_prepare_fields: "streamPrepareFields m s = append_items (prepare_fields m) s"
  by (simp only: streamPrepareFields_def prepare_fields_def stream_msg_fields append_items_append
      append_items_single append_item_RData)

lemma stream_packet_fields: "packet_stream p s = append_items (packet_fields p) s"
proof -
  have "packet_stream p = stream_all [append_bigint (unat (packet_id p)),
      append_bigint (unat (ttl (extendTTL p))), append_bytes (pkt_data p) False]"
    by (simp add: packet_stream_def Let_def extendTTL_def)
  moreover have "list_all2 writes [append_bigint (unat (packet_id p)),
      append_bigint (unat (ttl (extendTTL p))), append_bytes (pkt_data p) False] (packet_fields p)"
    unfolding packet_fields_def by (intro list.rel_intros writes_bigint writes_bytes)
  ultimately show ?thesis by (simp only: stream_all_append_items)
qed

lemma stream_opacket_fields: "opacket_stream p s = append_items (opacket_fields p) s"
proof -
  let ?ns = "case forwardNodes p of None \<Rightarrow> [] | Some ns \<Rightarrow> ns"
  have "writes (appendVector (append_hash 64) ?ns) (RList (map (\<lambda>x. RData (fixedHash_data 64 x)) ?ns))"
    by (intro writes_vector writes_hash)
  then have "appendVector (append_hash 64) ?ns =
      append_items [RList (map (\<lambda>x. RData (fixedHash_data 64 x)) ?ns)]"
    unfolding writes_def append_items_single by blast
  then show ?thesis
    by (simp only: opacket_stream_def opacket_fields_def append_items_append stream_packet_fields)
qed

section \<open>Reading the fields back\<close>

lemma toInt64_low32:
  assumes "length (enc (intData (nat (i mod 2 ^ 32)))) < rlp_limit"
  shows "toInt64 Strict (enc (intData (nat (i mod 2 ^ 32)))) = Inr (i mod 2 ^ 32)"
proof -
  have r: "0 \<le> i mod 2 ^ 32" "i mod 2 ^ 32 < 2 ^ 32" by simp_all
  have "i mod 2 ^ 32 < 2 ^ 64" by (rule less_trans [OF r(2)]) simp
  then have "nat (i mod 2 ^ 32) < 2 ^ (8 * 8)" by (simp add: nat_less_iff)
  with toInt_intData [OF assms, of 8 Strict]
  have "toInt 64 Strict (enc (intData (nat (i mod 2 ^ 32)))) = Inr (nat (i mod 2 ^ 32))" by simp
  moreover have "is_s64 (i mod 2 ^ 32)"
    unfolding is_s64_def by (intro conjI order_trans [OF _ r(1)] less_trans [OF r(2)]) simp_all
  ultimately show ?thesis using r by (simp add: toInt64_def)
qed

lemmas toInt_word8 = toInt_intData_word [where 'a = 8 and k = 1, simplified]
lemmas toInt_word16 = toInt_intData_word [where 'a = 16 and k = 2, simplified]
lemmas toInt_word256 = toInt_intData_word [where 'a = 256 and k = 32, simplified]

lemma populate_msg_fields:
  assumes "\<forall>t \<in> set (msg_fields m). length (enc t) < rlp_limit"
    and "\<And>i. i < 7 \<Longrightarrow> rlp_at r i = Inr (enc (msg_fields m ! i))"
  shows "populate m0 r = Inr (msg_restored m0 m)"
  using assms toInt64_low32 [of "height m"] toInt64_low32 [of "view m"]
  by (simp add: populate_def msg_fields_def msg_restored_def toInt_word16 toInt_word256
      toFixedHash_enc toBytes_enc del: enc.simps)

lemma item_at_nth: "i < length ts \<Longrightarrow> item_at ts i = enc (ts ! i)"
  by (simp add: item_at_def)

lemma length_msg_fields [simp]: "length (msg_fields m) = 7"
  by (simp add: msg_fields_def)

lemma populate_status_fields:
  assumes "\<forall>t \<in> set (status_fields m). length (enc t) < rlp_limit"
    and "\<And>i. i < 2 ^ 64 - 1 \<Longrightarrow> rlp_at r i = Inr (item_at (status_fields m) i)"
  shows "populateStatus m0 r = Inr (status_restored m0 m)"
  using assms toInt64_low32 [of "height m"] toInt64_low32 [of "view m"]
  by (simp add: populateStatus_def status_fields_def status_restored_def item_at_def toInt_word16
      toFixedHash_enc del: enc.simps)

lemma populate_prepare_fields:
  assumes "\<forall>t \<in> set (prepare_fields m). length (enc t) < rlp_limit"
    and at: "\<And>i. i < 2 ^ 64 - 1 \<Longrightarrow> rlp_at r i = Inr (item_at (prepare_fields m) i)"
  shows "populatePrepare m0 r = Inr (prepare_restored m0 m)"
proof -
  have "populate m0 r = Inr (msg_restored m0 m)"
    by (rule populate_msg_fields)
       (use assms(1) in \<open>simp_all add: at item_at_nth prepare_fields_def nth_append del: enc.simps\<close>)
  moreover have "rlp_at r 7 = Inr (enc (RData (block_data m)))"
    by (simp add: at item_at_nth prepare_fields_def nth_append del: enc.simps)
  ultimately show ?thesis
    using assms(1) by (simp add: populatePrepare_def prepare_restored_def prepare_fields_def
        toBytes_enc del: enc.simps)
qed

lemma populate_packet_fields:
  assumes "\<forall>t \<in> set (packet_fields p). length (enc t) < rlp_limit"
    and "\<And>i. i < 3 \<Longrightarrow> rlp_at r i = Inr (enc (packet_fields p ! i))"
  shows "packet_populate p0 r = Inr (packet_restored p0 p)"
  using assms
  by (simp add: packet_populate_def packet_fields_def packet_restored_def toInt_word8 toBytes_enc
      Let_def del: enc.simps)

lemma length_packet_fields [simp]: "length (packet_fields p) = 3"
  by (simp add: packet_fields_def)

lemma populate_opacket_fields:
  assumes "\<forall>t \<in> set (opacket_fields p). length (enc t) < rlp_limit"
    and at: "\<And>i. i < 2 ^ 64 - 1 \<Longrightarrow> rlp_at r i = Inr (item_at (opacket_fields p) i)"
  shows "opacket_populate p0 r = Inr (opacket_restored p0 p)"
proof -
  let ?ns = "case forwardNodes p of None \<Rightarrow> [] | Some ns \<Rightarrow> ns"
  let ?v = "RList (map (\<lambda>x. RData (fixedHash_data 64 x)) ?ns)"
  have "packet_populate p0 r = Inr (packet_restored p0 p)"
    by (rule populate_packet_fields)
       (use assms(1) in \<open>simp_all add: at item_at_nth opacket_fields_def nth_append del: enc.simps\<close>)
  moreover have "rlp_at r 3 = Inr (enc ?v)"
    by (simp add: at item_at_nth opacket_fields_def nth_append del: enc.simps)
  moreover have "toVector (toFixedHash 64 LaissezFaire) LaissezFaire (enc ?v) = Inr ?ns"
    using assms(1) by (intro toVector_enc toFixedHash_enc) (simp_all add: opacket_fields_def del: enc.simps)
  ultimately show ?thesis by (simp add: opacket_populate_def opacket_restored_def del: enc.simps)
qed

section \<open>The message classes implement the codec interface\<close>

interpretation pbftMsg: rlp_message streamRLPFields populate msg_fields msg_restored
proof unfold_locales
  fix m m0 :: "'a pbft_msg_scheme" and r
  assume "\<forall>t \<in> set (msg_fields m). length (enc t) < rlp_limit"
    and "\<And>i. i < 2 ^ 64 - 1 \<Longrightarrow> rlp_at r i = Inr (item_at (msg_fields m) i)"
  then show "populate m0 r = Inr (msg_restored m0 m)"
    by (intro populate_msg_fields) (simp_all add: item_at_nth del: enc.simps)
qed (rule stream_msg_fields)

interpretation statusMsg: rlp_message streamStatus populateStatus status_fields status_restored
  by unfold_locales (simp_all only: stream_status_fields populate_status_fields)

interpretation prepareMsg: rlp_message streamPrepareFields populatePrepare prepare_fields prepare_restored
  by unfold_locales (simp_all only: stream_prepare_fields populate_prepare_fields)

interpretation packetMsg: rlp_message packet_stream packet_populate packet_fields packet_restored
proof unfold_locales
  fix p p0 :: pbft_msg_packet and r
  assume "\<forall>t \<in> set (packet_fields p). length (enc t) < rlp_limit"
    and "\<And>i. i < 2 ^ 64 - 1 \<Longrightarrow> rlp_at r i = Inr (item_at (packet_fields p) i)"
  then show "packet_populate p0 r = Inr (packet_restored p0 p)"
    by (intro populate_packet_fields) (simp_all add: item_at_nth del: enc.simps)
qed (rule stream_packet_fields)

interpretation opacketMsg: rlp_message opacket_stream opacket_populate opacket_fields opacket_restored
  by unfold_locales (simp_all only: stream_opacket_fields populate_opacket_fields)

lemma prepare_restores:
  fixes m :: prepare_req
  assumes "length (message_bytes (prepare_fields m)) < rlp_limit"
  shows "ebind (PrepareReq_encode m) (PrepareReq_decode emptyPrepare) = Inr (prepare_restored emptyPrepare m)"
  unfolding PrepareReq_encode_def PrepareReq_decode_def
  using prepareMsg.round_trip [OF assms, of "emptyPrepare"] by (simp add: prepare_restored_def msg_restored_def)

section \<open>Messages are short\<close>

lemma bytesRequired_low32: "bytesRequired (nat (i mod 2 ^ 32)) \<le> 4"
  by (simp add: bytesRequired_le nat_less_iff)

lemma msg_fields_bound:
  "sum_list (map item_bound (msg_fields m)) \<le> 200 + length (sig m) + length (sig2 m)"
proof -
  have "bytesRequired (unat (idx m)) \<le> 2" "bytesRequired (unat (timestamp m)) \<le> 32"
    by (simp_all add: bytesRequired_word)
  then show ?thesis
    using bytesRequired_low32 [of "height m"] bytesRequired_low32 [of "view m"]
    by (simp add: msg_fields_def item_bound_intData)
qed

lemma msg_small:
  "length (sig m) + length (sig2 m) < 2 ^ 32 \<Longrightarrow> length (message_bytes (msg_fields m)) < rlp_limit"
  using msg_fields_bound [of m] by (intro message_small) simp

lemma prepare_small:
  "length (sig m) + length (sig2 m) + length (block_data m) < 2 ^ 32 \<Longrightarrow>
   length (message_bytes (prepare_fields m)) < rlp_limit"
  using msg_fields_bound [of m] by (intro message_small) (simp add: prepare_fields_def)

lemma packet_fields_bound:
  "sum_list (map item_bound (packet_fields p)) \<le> 40 + length (pkt_data p)"
proof -
  have "bytesRequired (unat (packet_id p)) \<le> 1" "bytesRequired (unat (ttl (extendTTL p))) \<le> 1"
    by (simp_all add: bytesRequired_word)
  then show ?thesis by (simp add: packet_fields_def item_bound_intData)
qed

lemma opacket_small:
  assumes "length (pkt_data p) < 2 ^ 32" "forwardNodes p = Some ns" "length ns < 2 ^ 32"
  shows "length (message_bytes (opacket_fields p)) < rlp_limit"
  using packet_fields_bound [of p] assms
  by (intro message_small) (simp add: opacket_fields_def comp_def sum_list_triv)

section \<open>Properties\<close>

text \<open>
  A proposal survives the network.  Decoding an encoded \<^verbatim>\<open>PrepareReq\<close> into a fresh object gives
  back the height, view, index, timestamp, block hash, both signatures and the block bytes, provided
  the height and the view are below \<open>2 ^ 32\<close>; the members that are not sent keep their default.
\<close>

theorem prepare_round_trip:
  fixes m :: prepare_req
  assumes "0 \<le> height m" "height m < 2 ^ 32" "0 \<le> view m" "view m < 2 ^ 32"
    and "length (message_bytes (prepare_fields m)) < rlp_limit"
  shows "ebind (PrepareReq_encode m) (PrepareReq_decode emptyPrepare) = Inr (emptyPrepare\<lparr>
     height := height m, view := view m, idx := idx m, timestamp := timestamp m,
     block_hash := block_hash m, sig := sig m, sig2 := sig2 m, block_data := block_data m\<rparr>)"
  using prepare_restores [OF assms(5)] assms(1-4) by (simp add: prepare_restored_def msg_restored_def)

theorem prepare_round_trip_witness:
  "let m = emptyPrepare\<lparr>height := 5, view := 1, idx := 2, block_hash := 7, sig := [1], sig2 := [2, 3],
       block_data := [9, 9]\<rparr>
   in ebind (PrepareReq_encode m) (PrepareReq_decode emptyPrepare) = Inr m"
proof -
  let ?m = "emptyPrepare\<lparr>height := 5, view := 1, idx := 2, block_hash := 7, sig := [1], sig2 := [2, 3],
       block_data := [9, 9]\<rparr>"
  have "length (message_bytes (prepare_fields ?m)) < rlp_limit"
    by (rule prepare_small) (simp add: emptyPrepare_def emptyMsg_def)
  from prepare_round_trip [OF _ _ _ _ this] show ?thesis
    by (simp add: emptyPrepare_def emptyMsg_def)
qed

text \<open>
  C35: Only the low 32 bits of the height and of the view are sent and signed.  The stream operator
  chosen for \<^verbatim>\<open>int64_t\<close> writes an \<^verbatim>\<open>unsigned\<close>, so a message of height \<open>h + 2 ^ 32 * k\<close> is received with
  height \<open>h mod 2 ^ 32\<close>, and its second signature is also a signature for every other height with
  the same low bits.
\<close>

theorem height_truncated:
  fixes m :: pbft_msg
  assumes "length (message_bytes (msg_fields m)) < rlp_limit"
  shows "ebind (PBFTMsg_encode m) (PBFTMsg_decode emptyMsg) = Inr (emptyMsg\<lparr>
     height := height m mod 2 ^ 32, view := view m mod 2 ^ 32, idx := idx m,
     timestamp := timestamp m, block_hash := block_hash m, sig := sig m, sig2 := sig2 m\<rparr>) \<and>
   fieldsWithoutBlock cr (m\<lparr>height := height m + 2 ^ 32 * k\<rparr>) = fieldsWithoutBlock cr m \<and>
   fieldsWithoutBlock cr (m\<lparr>view := view m + 2 ^ 32 * k\<rparr>) = fieldsWithoutBlock cr m"
proof -
  have "append_int64 (i + 2 ^ 32 * k) = append_int64 i" for i :: int
    by (simp add: append_int64_def fun_eq_iff)
  then show ?thesis
    unfolding PBFTMsg_encode_def PBFTMsg_decode_def fieldsWithoutBlock_def
    using pbftMsg.round_trip [OF assms, of emptyMsg] by (simp add: msg_restored_def)
qed

theorem height_truncated_witness:
  "ebind (PBFTMsg_encode (emptyMsg\<lparr>height := 2 ^ 32 + 5, view := 0, idx := 1, timestamp := 0\<rparr>))
     (PBFTMsg_decode emptyMsg)
   = Inr (emptyMsg\<lparr>height := 5, view := 0, idx := 1, timestamp := 0\<rparr>)"
proof -
  let ?m = "emptyMsg\<lparr>height := 2 ^ 32 + 5, view := 0, idx := 1, timestamp := 0\<rparr>"
  have "length (message_bytes (msg_fields ?m)) < rlp_limit"
    by (rule msg_small) (simp add: emptyMsg_def)
  from conjunct1 [OF height_truncated [OF this, of undefined 0]] show ?thesis
    by (simp add: emptyMsg_def)
qed

lemma ttl_flag_byte:
  assumes "(t :: byte) < 0x80"
  shows "(t OR 0x80) AND 0x7f = t" "(t OR 0x80) AND 0x80 = 0x80" "t AND 0x7f = t" "t AND 0x80 = 0"
proof -
  have "unat t < 2 ^ 7" using assms by (simp add: word_less_nat_alt)
  then have t: "take_bit 7 t = t" by (simp add: word_unat_eq_iff unsigned_take_bit_eq take_bit_nat_eq_self)
  have mask: "(0x7f :: byte) = mask 7" "(0x80 :: byte) = 2 ^ 7" by (simp_all add: mask_eq_exp_minus_1)
  show "t AND 0x7f = t" by (simp only: mask t flip: take_bit_eq_mask)
  have "\<not> bit t 7" using t by (metis bit_take_bit_iff less_irrefl)
  then show "t AND 0x80 = 0" by (simp only: mask and_exp_eq_0_iff_not_bit not_False_eq_True)
  then show "(t OR 0x80) AND 0x80 = 0x80" by (simp add: bit.conj_disj_distrib2)
  have "(0x80 :: byte) AND 0x7f = 0" by simp
  then show "(t OR 0x80) AND 0x7f = t"
    using \<open>t AND 0x7f = t\<close> by (simp add: bit.conj_disj_distrib2)
qed

text \<open>
  A packet survives the network with its flag.  The flag that marks a proposal with an empty
  block travels in the top bit of the \<^verbatim>\<open>ttl\<close> byte: for every \<^verbatim>\<open>ttl\<close> below 128 the decoder gets back the
  packet type, the \<^verbatim>\<open>ttl\<close>, the flag, the payload and the list of nodes to forward to.
\<close>

theorem packet_round_trip:
  assumes "ttl p < 0x80" "length (message_bytes (opacket_fields p)) < rlp_limit"
  shows "ebind (opacket_encode p) (\<lambda>(_, bs). opacket_decode (emptyOPacket now) bs)
    = Inr ((emptyOPacket now)\<lparr>packet_id := packet_id p, ttl := ttl p,
        prepareWithEmptyBlock := prepareWithEmptyBlock p, pkt_data := pkt_data p,
        forwardNodes := Some (case forwardNodes p of None \<Rightarrow> [] | Some ns \<Rightarrow> ns)\<rparr>)"
proof -
  have "ebind (opacket_encode p) (\<lambda>(_, bs). opacket_decode (emptyOPacket now) bs)
      = ebind (encode_fields (opacket_stream p)) (opacket_decode (emptyOPacket now))"
    by (cases "encode_fields (opacket_stream p)") (simp_all add: opacket_encode_def)
  also have "\<dots> = Inr (opacket_restored (emptyOPacket now) p)"
    unfolding opacket_decode_def by (rule opacketMsg.round_trip [OF assms(2)])
  finally show ?thesis
    using ttl_flag_byte [OF assms(1)]
    by (cases "prepareWithEmptyBlock p")
      (simp_all add: opacket_restored_def packet_restored_def extendTTL_def)
qed

theorem packet_round_trip_witness:
  "ebind (opacket_encode ((emptyOPacket 3)\<lparr>ttl := 2, prepareWithEmptyBlock := True, pkt_data := [1, 2]\<rparr>))
     (\<lambda>(_, bs). opacket_decode (emptyOPacket 4) bs)
   = Inr ((emptyOPacket 4)\<lparr>ttl := 2, prepareWithEmptyBlock := True, pkt_data := [1, 2]\<rparr>)"
proof -
  let ?p = "(emptyOPacket 3)\<lparr>ttl := 2, prepareWithEmptyBlock := True, pkt_data := [1, 2]\<rparr>"
  have "length (message_bytes (opacket_fields ?p)) < rlp_limit"
    by (rule opacket_small [where ns = "[]"]) (simp_all add: emptyOPacket_def emptyPacket_def)
  from packet_round_trip [OF _ this, of 4] show ?thesis
    by (simp add: emptyOPacket_def emptyPacket_def)
qed

end
