(* ===== verification/BlockChain.thy ===== *)
theory BlockChain
  imports Block
begin

text \<open>
  The part of \<^verbatim>\<open>BlockChainImp\<close> (src/libblockchain/BlockChainImp.cpp, .h) that consensus uses: the
  system tables that index the chain, the cached block number, the \<^verbatim>\<open>BlockCache\<close> of recently used
  blocks, the cached node lists and system parameters, and \<^verbatim>\<open>commitBlock\<close>.

  A table is an association list from the key column to the value; the storage layer behind it is
  not modelled.  What executing a block did to the tables of consensus nodes and system parameters
  is known to the execution context only, so \<^verbatim>\<open>ExecutiveContext::dbCommit\<close> is the argument
  \<open>dbCommit\<close> of \<open>commitBlock\<close>; it returns the new rows, or nothing when it throws.  Likewise the hash
  and the nonce of a transaction and the status of a receipt are arguments.  \<^verbatim>\<open>number()\<close> stores
  the number it reads from the table on the first call; the value it returns is the same before and
  after, and the model leaves that store out.
\<close>

section \<open>State\<close>

record sys_tables =
  sys_consensus :: "(h512 \<times> string \<times> int) list"
  sys_config :: "(string \<times> (string \<times> int)) list"

record blockchain =
  m_blockNumber :: int
  tb_current_number :: "int option"
  tb_total_tx :: "int option"
  tb_total_failed :: "int option"
  tb_number2hash :: "(int \<times> h256) list"
  tb_hash2block :: "(h256 \<times> block) list"
  tb_hash2header :: "(h256 \<times> (block_header \<times> sig_list)) list"
  tb_tx2block :: "(h256 \<times> (int \<times> nat)) list"
  tb_nonces :: "(int \<times> u256 list) list"
  tb_sys :: sys_tables
  m_blockCache :: "(h256 \<times> block) list"
  m_blockCacheFIFO :: "h256 list"
  m_nodeListCache :: "(string \<times> (int \<times> h512 list)) list"
  m_systemConfigRecord :: "(string \<times> (string \<times> int \<times> int)) list"

definition c_blockCacheSize :: nat where
  "c_blockCacheSize = 10"

definition NODE_TYPE_SEALER :: string where "NODE_TYPE_SEALER = ''sealer''"
definition NODE_TYPE_OBSERVER :: string where "NODE_TYPE_OBSERVER = ''observer''"
definition NODE_TYPE_WORKING_SEALER :: string where
  "NODE_TYPE_WORKING_SEALER = ''wSealer''"

section \<open>BlockCache\<close>

definition blockCache_add :: "'c crypto_api_scheme \<Rightarrow> block \<Rightarrow> blockchain \<Rightarrow> blockchain" where
  "blockCache_add cr b c =
     (let c1 = (if length (m_blockCache c) > c_blockCacheSize
                then (let c' = c\<lparr>m_blockCache := AList.delete (hd (m_blockCacheFIFO c)) (m_blockCache c),
                               m_blockCacheFIFO := tl (m_blockCacheFIFO c)\<rparr>
                      in if length (m_blockCache c') > c_blockCacheSize
                         then c'\<lparr>m_blockCache := [], m_blockCacheFIFO := []\<rparr> else c')
                else c);
          h = headerHash cr b
      in c1\<lparr>m_blockCache := (case map_of (m_blockCache c1) h of
              None \<Rightarrow> AList.update h b (m_blockCache c1) | Some _ \<Rightarrow> m_blockCache c1),
            m_blockCacheFIFO := m_blockCacheFIFO c1 @ [h]\<rparr>)"

definition blockCache_get :: "h256 \<Rightarrow> blockchain \<Rightarrow> block option" where
  "blockCache_get h c = map_of (m_blockCache c) h"

section \<open>Reading the chain\<close>

definition obtainNumber :: "blockchain \<Rightarrow> int" where
  "obtainNumber c = (case tb_current_number c of None \<Rightarrow> 0 | Some n \<Rightarrow> n)"

definition number :: "blockchain \<Rightarrow> int" where
  "number c = (if m_blockNumber c = -1 then obtainNumber c else m_blockNumber c)"

definition numberHash :: "int \<Rightarrow> blockchain \<Rightarrow> h256" where
  "numberHash i c = (case map_of (tb_number2hash c) i of None \<Rightarrow> 0 | Some h \<Rightarrow> h)"

definition getBlock :: "'c crypto_api_scheme \<Rightarrow> h256 \<Rightarrow> blockchain \<Rightarrow> block option \<times> blockchain" where
  "getBlock cr h c = (case blockCache_get h c of
     Some b \<Rightarrow> (Some b, c)
   | None \<Rightarrow> (case map_of (tb_hash2block c) h of
       Some b \<Rightarrow> (Some b, blockCache_add cr b c)
     | None \<Rightarrow> (None, c)))"

definition getBlock_number :: "'c crypto_api_scheme \<Rightarrow> int \<Rightarrow> blockchain \<Rightarrow> block option \<times> blockchain" where
  "getBlock_number cr i c =
     (if i > number c then (None, c)
      else if numberHash i c \<noteq> 0 then getBlock cr (numberHash i c) c
      else (None, c))"

definition getBlockByHash :: "'c crypto_api_scheme \<Rightarrow> h256 \<Rightarrow> blockchain \<Rightarrow> block option \<times> blockchain" where
  "getBlockByHash cr h c = getBlock cr h c"

definition getBlockByNumber :: "'c crypto_api_scheme \<Rightarrow> int \<Rightarrow> blockchain \<Rightarrow> block option \<times> blockchain" where
  "getBlockByNumber cr i c = (if i > number c then (None, c) else getBlock_number cr i c)"

definition getNonces :: "int \<Rightarrow> blockchain \<Rightarrow> u256 list option" where
  "getNonces i c = (if i > number c then None
     else Some (case map_of (tb_nonces c) i of None \<Rightarrow> [] | Some ns \<Rightarrow> ns))"

definition totalTransactionCount :: "blockchain \<Rightarrow> int" where
  "totalTransactionCount c = (case tb_total_tx c of None \<Rightarrow> 0 | Some n \<Rightarrow> n)"

definition totalFailedTransactionCount :: "blockchain \<Rightarrow> int" where
  "totalFailedTransactionCount c = (case tb_total_failed c of None \<Rightarrow> 0 | Some n \<Rightarrow> n)"

section \<open>Node lists and system parameters\<close>

text \<open>
  \<^verbatim>\<open>dev::precompiled::getNodeListByType\<close> and \<^verbatim>\<open>getSysteConfigByKey\<close> (src/libprecompiled/Common.cpp)
  on rows whose columns have the expected format.
\<close>

definition getNodeListByType :: "int \<Rightarrow> string \<Rightarrow> sys_tables \<Rightarrow> h512 list" where
  "getNodeListByType blockNumber type t =
     map fst (filter (\<lambda>(_, ty, enable). ty = type \<and> enable \<le> blockNumber) (sys_consensus t))"

definition getSysteConfigByKey :: "string \<Rightarrow> int \<Rightarrow> sys_tables \<Rightarrow> string \<times> int" where
  "getSysteConfigByKey key num t =
     (case filter (\<lambda>(k, _). k = key) (sys_config t) of
        [(_, (v, enable))] \<Rightarrow> if enable \<le> num then (v, enable) else ([], -1)
      | _ \<Rightarrow> ([], -1))"

definition getNodeList :: "string \<Rightarrow> blockchain \<Rightarrow> h512 list \<times> blockchain" where
  "getNodeList type c =
     (let n = number c;
          miss = (let l = getNodeListByType n type (tb_sys c)
                  in (l, c\<lparr>m_nodeListCache := AList.update type (n, l) (m_nodeListCache c)\<rparr>))
      in case map_of (m_nodeListCache c) type of
           Some (cachedNumber, l) \<Rightarrow> if cachedNumber = n then (l, c) else miss
         | None \<Rightarrow> miss)"

definition workingSealerList :: "blockchain \<Rightarrow> h512 list \<times> blockchain" where
  "workingSealerList c = getNodeList NODE_TYPE_WORKING_SEALER c"

definition pendingSealerList :: "blockchain \<Rightarrow> h512 list \<times> blockchain" where
  "pendingSealerList c = getNodeList NODE_TYPE_SEALER c"

definition bc_sealerList :: "blockchain \<Rightarrow> h512 list \<times> blockchain" where
  "bc_sealerList c = (let (w, c1) = workingSealerList c; (p, c2) = pendingSealerList c1 in (w @ p, c2))"

definition observerList :: "blockchain \<Rightarrow> h512 list \<times> blockchain" where
  "observerList c = getNodeList NODE_TYPE_OBSERVER c"

definition getSystemConfigInfoByKey :: "string \<Rightarrow> int \<Rightarrow> blockchain \<Rightarrow> (string \<times> int) \<times> blockchain" where
  "getSystemConfigInfoByKey key num c =
     (let n = (if num = -1 then number c + 1 else num);
          miss = (let r = getSysteConfigByKey key n (tb_sys c)
                  in (r, c\<lparr>m_systemConfigRecord :=
                            AList.update key (fst r, snd r, n) (m_systemConfigRecord c)\<rparr>))
      in case map_of (m_systemConfigRecord c) key of
           Some (v, enable, cur) \<Rightarrow> if cur = n then ((v, enable), c) else miss
         | None \<Rightarrow> miss)"

definition getSystemConfigByKey :: "string \<Rightarrow> blockchain \<Rightarrow> string \<times> blockchain" where
  "getSystemConfigByKey key c =
     (let (r, c') = getSystemConfigInfoByKey key (-1) c in (fst r, c'))"

section \<open>Committing a block\<close>

datatype commit_result = COMMIT_OK | ERROR_NUMBER | ERROR_PARENT_HASH | ERROR_COMMITTING

record commit_env =
  ce_txHash :: "bytes \<Rightarrow> h256"
  ce_txNonce :: "bytes \<Rightarrow> u256"
  ce_receiptFailed :: "bytes \<Rightarrow> bool"

definition isBlockShouldCommit :: "int \<Rightarrow> blockchain \<Rightarrow> bool" where
  "isBlockShouldCommit n c \<longleftrightarrow> n = number c + 1"

definition writeHash2Block :: "'c crypto_api_scheme \<Rightarrow> block \<Rightarrow> blockchain \<Rightarrow> blockchain" where
  "writeHash2Block cr b c =
     c\<lparr>tb_hash2block := AList.update (headerHash cr b) b (tb_hash2block c)\<rparr>"

definition writeNumber2Hash :: "'c crypto_api_scheme \<Rightarrow> block \<Rightarrow> blockchain \<Rightarrow> blockchain" where
  "writeNumber2Hash cr b c =
     c\<lparr>tb_number2hash := AList.update (m_number (blockHeader b)) (headerHash cr b) (tb_number2hash c)\<rparr>"

definition writeNumber :: "block \<Rightarrow> blockchain \<Rightarrow> blockchain" where
  "writeNumber b c = c\<lparr>tb_current_number := Some (m_number (blockHeader b))\<rparr>"

definition writeTotalTransactionCount :: "commit_env \<Rightarrow> block \<Rightarrow> blockchain \<Rightarrow> blockchain" where
  "writeTotalTransactionCount ce b c =
     (let txs = int (length (transactions b));
          failed = int (length (filter (ce_receiptFailed ce) (transactionReceipts b)))
      in c\<lparr>tb_total_tx := Some (case tb_total_tx c of None \<Rightarrow> txs | Some n \<Rightarrow> s64 (n + txs)),
           tb_total_failed := Some (case tb_total_failed c of None \<Rightarrow> failed | Some n \<Rightarrow> s64 (n + failed))\<rparr>)"

definition writeTxToBlock :: "commit_env \<Rightarrow> block \<Rightarrow> blockchain \<Rightarrow> blockchain" where
  "writeTxToBlock ce b c =
     (let n = m_number (blockHeader b);
          txs = transactions b
      in c\<lparr>tb_tx2block := fold (\<lambda>i. AList.update (ce_txHash ce (txs ! i)) (n, i)) [0..<length txs]
             (tb_tx2block c),
           tb_nonces := AList.update n (map (ce_txNonce ce) txs) (tb_nonces c)\<rparr>)"

definition writeHash2BlockHeader :: "'c crypto_api_scheme \<Rightarrow> block \<Rightarrow> blockchain \<Rightarrow> blockchain" where
  "writeHash2BlockHeader cr b c =
     c\<lparr>tb_hash2header := AList.update (headerHash cr b) (blockHeader b, sigList b) (tb_hash2header c)\<rparr>"

text \<open>
  The six writes go to disjoint columns, so the order in which the parallel tasks run does not
  matter.  They are staged in the execution context: when \<^verbatim>\<open>dbCommit\<close> throws, the chain is as before.
\<close>

definition commitBlock :: "'c crypto_api_scheme \<Rightarrow> commit_env \<Rightarrow> (block \<Rightarrow> sys_tables \<Rightarrow> sys_tables option) \<Rightarrow> block \<Rightarrow> blockchain \<Rightarrow> commit_result \<times> blockchain" where
  "commitBlock cr ce dbCommit b c =
     (if \<not> isBlockShouldCommit (m_number (blockHeader b)) c then (ERROR_NUMBER, c)
      else if m_parentHash (blockHeader b) \<noteq> numberHash (number c) c then (ERROR_PARENT_HASH, c)
      else
        (let staged = writeHash2BlockHeader cr b (writeTxToBlock ce b
               (writeTotalTransactionCount ce b (writeNumber b (writeNumber2Hash cr b
                  (writeHash2Block cr b c)))))
         in case dbCommit b (tb_sys c) of
              None \<Rightarrow> (ERROR_COMMITTING, c)
            | Some sys \<Rightarrow>
                (COMMIT_OK, blockCache_add cr b
                   (staged\<lparr>tb_sys := sys, m_blockNumber := m_number (blockHeader b)\<rparr>))))"

section \<open>Invariant\<close>

definition block_at :: "int \<Rightarrow> blockchain \<Rightarrow> block option" where
  "block_at i c = (if i > number c then None
     else case map_of (tb_number2hash c) i of None \<Rightarrow> None | Some h \<Rightarrow> map_of (tb_hash2block c) h)"

definition linked :: "'c crypto_api_scheme \<Rightarrow> blockchain \<Rightarrow> bool" where
  "linked cr c \<longleftrightarrow> 0 \<le> number c \<and>
     (\<forall>i h. map_of (tb_number2hash c) i = Some h \<longrightarrow> 0 \<le> i \<and> i \<le> number c \<and> h \<noteq> 0 \<and>
        (\<exists>b. map_of (tb_hash2block c) h = Some b \<and> headerHash cr b = h \<and> m_number (blockHeader b) = i \<and>
             (0 < i \<longrightarrow> m_parentHash (blockHeader b) = numberHash (i - 1) c))) \<and>
     (\<forall>i. 0 \<le> i \<longrightarrow> i \<le> number c \<longrightarrow> map_of (tb_number2hash c) i \<noteq> None) \<and>
     (\<forall>h b. map_of (tb_hash2block c) h = Some b \<longrightarrow> headerHash cr b = h)"

definition block_cache_ok :: "blockchain \<Rightarrow> bool" where
  "block_cache_ok c \<longleftrightarrow>
     (\<forall>h b. map_of (m_blockCache c) h = Some b \<longrightarrow> map_of (tb_hash2block c) h = Some b) \<and>
     map fst (m_blockCache c) = m_blockCacheFIFO c \<and> distinct (m_blockCacheFIFO c) \<and>
     length (m_blockCache c) \<le> Suc c_blockCacheSize"

definition list_cache_ok :: "blockchain \<Rightarrow> bool" where
  "list_cache_ok c \<longleftrightarrow> (\<forall>ty n l. map_of (m_nodeListCache c) ty = Some (n, l) \<longrightarrow>
     n \<le> number c \<and> (n = number c \<longrightarrow> l = getNodeListByType n ty (tb_sys c)))"

definition config_cache_ok :: "blockchain \<Rightarrow> bool" where
  "config_cache_ok c \<longleftrightarrow> (\<forall>k v e n. map_of (m_systemConfigRecord c) k = Some (v, e, n) \<longrightarrow>
     n \<le> number c + 1 \<and> (n = number c + 1 \<longrightarrow> (v, e) = getSysteConfigByKey k n (tb_sys c)))"

definition chain_ok :: "'c crypto_api_scheme \<Rightarrow> blockchain \<Rightarrow> bool" where
  "chain_ok cr c \<longleftrightarrow> linked cr c \<and> block_cache_ok c \<and> list_cache_ok c \<and> config_cache_ok c"

section \<open>The block cache is transparent\<close>

lemma blockCache_add_frame [simp]:
  "number (blockCache_add cr b c) = number c"
  "tb_number2hash (blockCache_add cr b c) = tb_number2hash c"
  "tb_hash2block (blockCache_add cr b c) = tb_hash2block c"
  "tb_sys (blockCache_add cr b c) = tb_sys c"
  "m_nodeListCache (blockCache_add cr b c) = m_nodeListCache c"
  "m_systemConfigRecord (blockCache_add cr b c) = m_systemConfigRecord c"
  by (simp_all add: blockCache_add_def Let_def number_def obtainNumber_def)

lemma linked_blockCache_add [simp]: "linked cr (blockCache_add cr' b c) = linked cr c"
  by (simp add: linked_def numberHash_def)

lemma list_cache_blockCache_add [simp]: "list_cache_ok (blockCache_add cr b c) = list_cache_ok c"
  by (simp add: list_cache_ok_def)

lemma config_cache_blockCache_add [simp]: "config_cache_ok (blockCache_add cr b c) = config_cache_ok c"
  by (simp add: config_cache_ok_def)

lemma delete_hd_eq_tl:
  assumes "distinct (map fst xs)" "xs \<noteq> []"
  shows "AList.delete (hd (map fst xs)) xs = tl xs"
proof (cases xs)
  case (Cons x ys)
  then have "fst x \<notin> fst ` set ys" using assms by simp
  then have "AList.delete (fst x) ys = ys" by (simp add: delete_idem)
  then show ?thesis using Cons by (cases x) simp
qed (use assms in simp)

lemma update_fresh: "k \<notin> fst ` set xs \<Longrightarrow> AList.update k v xs = xs @ [(k, v)]"
  by (induction xs) auto

lemma map_of_tl: "distinct (map fst xs) \<Longrightarrow> map_of (tl xs) k = Some v \<Longrightarrow> map_of xs k = Some v"
  by (cases xs) (auto dest!: map_of_SomeD intro: rev_image_eqI)

definition evict :: "'a list \<Rightarrow> 'a list" where
  "evict xs = (if length xs > c_blockCacheSize then tl xs else xs)"

lemma evict_facts:
  "set (evict xs) \<subseteq> set xs"
  "distinct xs \<Longrightarrow> distinct (evict xs)"
  "length xs \<le> Suc c_blockCacheSize \<Longrightarrow> length (evict xs) \<le> c_blockCacheSize"
  "map f (evict xs) = evict (map f xs)"
  by (cases xs; auto simp: evict_def)+

lemma map_of_evict: "distinct (map fst xs) \<Longrightarrow> map_of (evict xs) k = Some v \<Longrightarrow> map_of xs k = Some v"
  using map_of_tl [of xs k v] unfolding evict_def by metis

lemma blockCache_add_eq:
  assumes "map fst (m_blockCache c) = m_blockCacheFIFO c" "distinct (m_blockCacheFIFO c)"
    "length (m_blockCache c) \<le> Suc c_blockCacheSize" "headerHash cr b \<notin> set (m_blockCacheFIFO c)"
  shows "m_blockCache (blockCache_add cr b c) = evict (m_blockCache c) @ [(headerHash cr b, b)]"
    and "m_blockCacheFIFO (blockCache_add cr b c) = evict (m_blockCacheFIFO c) @ [headerHash cr b]"
proof -
  have del: "AList.delete (hd (m_blockCacheFIFO c)) (m_blockCache c) = tl (m_blockCache c)"
    if "c_blockCacheSize < length (m_blockCache c)"
    using delete_hd_eq_tl [of "m_blockCache c"] assms(1,2) that by (cases "m_blockCache c = []") auto
  have "headerHash cr b \<notin> fst ` set (evict (m_blockCache c))"
    using assms(4) evict_facts(1) [of "m_blockCacheFIFO c"]
    unfolding set_map [symmetric] evict_facts(4) assms(1) by blast
  then have up: "AList.update (headerHash cr b) b (evict (m_blockCache c))
      = evict (m_blockCache c) @ [(headerHash cr b, b)]"
      "map_of (evict (m_blockCache c)) (headerHash cr b) = None"
    by (simp_all add: update_fresh map_of_eq_None_iff)
  have len: "length (m_blockCacheFIFO c) = length (m_blockCache c)"
    using assms(1) by (metis length_map)
  show "m_blockCache (blockCache_add cr b c) = evict (m_blockCache c) @ [(headerHash cr b, b)]"
    "m_blockCacheFIFO (blockCache_add cr b c) = evict (m_blockCacheFIFO c) @ [headerHash cr b]"
  proof -
    let ?c' = "c\<lparr>m_blockCache := tl (m_blockCache c), m_blockCacheFIFO := tl (m_blockCacheFIFO c)\<rparr>"
    define d where "d = (if c_blockCacheSize < length (m_blockCache c) then ?c' else c)"
    have small: "\<not> c_blockCacheSize < length (m_blockCache c) - 1" using assms(3) by simp
    have d: "m_blockCache d = evict (m_blockCache c)" "m_blockCacheFIFO d = evict (m_blockCacheFIFO c)"
      by (simp_all add: d_def evict_def len)
    have "blockCache_add cr b c = d\<lparr>
        m_blockCache := (case map_of (m_blockCache d) (headerHash cr b) of
          None \<Rightarrow> AList.update (headerHash cr b) b (m_blockCache d) | Some _ \<Rightarrow> m_blockCache d),
        m_blockCacheFIFO := m_blockCacheFIFO d @ [headerHash cr b]\<rparr>"
    proof (cases "c_blockCacheSize < length (m_blockCache c)")
      case True
      show ?thesis
        unfolding blockCache_add_def Let_def d_def del [OF True] using True small by simp
    next
      case False
      then have "d = c" by (simp add: d_def)
      then show ?thesis
        unfolding \<open>d = c\<close> blockCache_add_def Let_def using False by simp
    qed
    then show "m_blockCache (blockCache_add cr b c) = evict (m_blockCache c) @ [(headerHash cr b, b)]"
      "m_blockCacheFIFO (blockCache_add cr b c) = evict (m_blockCacheFIFO c) @ [headerHash cr b]"
      by (simp_all add: d up)
  qed
qed

lemma block_cache_add:
  assumes ok: "block_cache_ok c" and tb: "map_of (tb_hash2block c) (headerHash cr b) = Some b"
    and new: "blockCache_get (headerHash cr b) c = None"
  shows "block_cache_ok (blockCache_add cr b c)"
proof -
  have keys: "map fst (m_blockCache c) = m_blockCacheFIFO c" "distinct (m_blockCacheFIFO c)"
    "length (m_blockCache c) \<le> Suc c_blockCacheSize"
    and hit: "\<And>h b'. map_of (m_blockCache c) h = Some b' \<Longrightarrow> map_of (tb_hash2block c) h = Some b'"
    using ok by (auto simp: block_cache_ok_def)
  have fresh: "headerHash cr b \<notin> set (m_blockCacheFIFO c)"
    using new keys(1) by (metis blockCache_get_def map_of_eq_None_iff set_map)
  note eq = blockCache_add_eq [OF keys fresh]
  have dist: "distinct (evict (m_blockCacheFIFO c) @ [headerHash cr b])"
    using keys(2) fresh evict_facts(1) [of "m_blockCacheFIFO c"] by (auto simp: evict_facts(2))
  have hits: "map_of (tb_hash2block c) h = Some b'"
    if "map_of (evict (m_blockCache c) @ [(headerHash cr b, b)]) h = Some b'" for h b'
  proof (cases "map_of (evict (m_blockCache c)) h")
    case None
    with that tb show ?thesis by (simp add: map_add_def split: if_splits)
  next
    case (Some b1)
    then show ?thesis
      using that hit map_of_evict [of "m_blockCache c" h b1] keys(1,2)
      by (simp add: map_add_def split: if_splits)
  qed
  show ?thesis
    unfolding block_cache_ok_def blockCache_add_frame eq
    using dist hits evict_facts(3) [OF keys(3)] by (simp add: evict_facts(4) keys(1) del: map_of_append)
qed

lemma getBlock_transparent:
  assumes "block_cache_ok c"
  shows "fst (getBlock cr h c) = map_of (tb_hash2block c) h"
  using assms by (auto simp: getBlock_def blockCache_get_def block_cache_ok_def split: option.split)

lemma chain_ok_getBlock:
  assumes ok: "chain_ok cr c"
  shows "chain_ok cr (snd (getBlock cr h c))"
proof -
  have "block_cache_ok (blockCache_add cr b c)"
    if "blockCache_get h c = None" "map_of (tb_hash2block c) h = Some b" for b
    using that ok by (intro block_cache_add) (auto simp: chain_ok_def linked_def)
  then show ?thesis
    using ok by (auto simp: getBlock_def chain_ok_def split: option.split)
qed

lemma getBlock_frame [simp]:
  "number (snd (getBlock cr h c)) = number c"
  "tb_sys (snd (getBlock cr h c)) = tb_sys c"
  "tb_number2hash (snd (getBlock cr h c)) = tb_number2hash c"
  "tb_hash2block (snd (getBlock cr h c)) = tb_hash2block c"
  by (auto simp: getBlock_def split: option.split)

lemma block_at_cong:
  "number c' = number c \<Longrightarrow> tb_number2hash c' = tb_number2hash c \<Longrightarrow>
   tb_hash2block c' = tb_hash2block c \<Longrightarrow> block_at i c' = block_at i c"
  by (simp add: block_at_def split: option.split)

lemma getBlockByNumber_transparent:
  assumes "chain_ok cr c"
  shows "fst (getBlockByNumber cr i c) = block_at i c"
proof -
  have "h \<noteq> 0" if "map_of (tb_number2hash c) i = Some h" for h
    using that assms by (auto simp: chain_ok_def linked_def)
  then show ?thesis
    using assms
    by (auto simp: getBlockByNumber_def getBlock_number_def block_at_def numberHash_def
        getBlock_transparent chain_ok_def split: option.split)
qed

lemma chain_ok_getBlockByNumber: "chain_ok cr c \<Longrightarrow> chain_ok cr (snd (getBlockByNumber cr i c))"
  by (simp add: getBlockByNumber_def getBlock_number_def chain_ok_getBlock)

section \<open>The node lists and parameters are those of the tables\<close>

lemma getNodeList_value:
  "list_cache_ok c \<Longrightarrow> fst (getNodeList ty c) = getNodeListByType (number c) ty (tb_sys c)"
  by (auto simp: getNodeList_def Let_def list_cache_ok_def split: option.split)

lemma getNodeList_frame [simp]:
  "number (snd (getNodeList ty c)) = number c"
  "tb_sys (snd (getNodeList ty c)) = tb_sys c"
  "tb_number2hash (snd (getNodeList ty c)) = tb_number2hash c"
  "tb_hash2block (snd (getNodeList ty c)) = tb_hash2block c"
  by (auto simp: getNodeList_def Let_def number_def obtainNumber_def split: option.split)

lemma chain_ok_getNodeList: "chain_ok cr c \<Longrightarrow> chain_ok cr (snd (getNodeList ty c))"
proof -
  assume ok: "chain_ok cr c"
  let ?c = "c\<lparr>m_nodeListCache := AList.update ty (number c, getNodeListByType (number c) ty (tb_sys c))
    (m_nodeListCache c)\<rparr>"
  have n: "number ?c = number c" by (simp add: number_def obtainNumber_def)
  have "chain_ok cr ?c"
    using ok
    by (auto simp: chain_ok_def linked_def block_cache_ok_def list_cache_ok_def config_cache_ok_def n
        numberHash_def update_conv' split: if_splits)
  then show ?thesis
    using ok by (auto simp: getNodeList_def Let_def split: option.split)
qed

lemma getSystemConfigByKey_value:
  "config_cache_ok c \<Longrightarrow>
     fst (getSystemConfigByKey k c) = fst (getSysteConfigByKey k (number c + 1) (tb_sys c))"
  by (fastforce simp: getSystemConfigByKey_def getSystemConfigInfoByKey_def Let_def config_cache_ok_def
      split: option.split)

lemma getSystemConfigByKey_frame [simp]:
  "number (snd (getSystemConfigByKey k c)) = number c"
  "tb_sys (snd (getSystemConfigByKey k c)) = tb_sys c"
  "tb_number2hash (snd (getSystemConfigByKey k c)) = tb_number2hash c"
  "tb_hash2block (snd (getSystemConfigByKey k c)) = tb_hash2block c"
  by (auto simp: getSystemConfigByKey_def getSystemConfigInfoByKey_def Let_def number_def
      obtainNumber_def split: option.split)

lemma chain_ok_getSystemConfigByKey: "chain_ok cr c \<Longrightarrow> chain_ok cr (snd (getSystemConfigByKey k c))"
proof -
  assume ok: "chain_ok cr c"
  let ?r = "getSysteConfigByKey k (number c + 1) (tb_sys c)"
  let ?c = "c\<lparr>m_systemConfigRecord := AList.update k (fst ?r, snd ?r, number c + 1)
    (m_systemConfigRecord c)\<rparr>"
  have n: "number ?c = number c" by (simp add: number_def obtainNumber_def)
  have "chain_ok cr ?c"
    using ok
    by (auto simp: chain_ok_def linked_def block_cache_ok_def list_cache_ok_def config_cache_ok_def n
        numberHash_def update_conv' split: if_splits)
  then show ?thesis
    using ok by (auto simp: getSystemConfigByKey_def getSystemConfigInfoByKey_def Let_def
        split: option.split)
qed

section \<open>Committing\<close>

definition committable :: "'c crypto_api_scheme \<Rightarrow> block \<Rightarrow> blockchain \<Rightarrow> bool" where
  "committable cr b c \<longleftrightarrow> headerHash cr b \<noteq> 0 \<and> map_of (tb_hash2block c) (headerHash cr b) = None"

lemma commitBlock_error: "fst (commitBlock cr ce db b c) \<noteq> COMMIT_OK \<Longrightarrow> snd (commitBlock cr ce db b c) = c"
  by (auto simp: commitBlock_def Let_def split: option.splits if_splits)

lemma commitBlock_OK:
  assumes "fst (commitBlock cr ce db b c) = COMMIT_OK"
  obtains sys where "snd (commitBlock cr ce db b c) = blockCache_add cr b
        (writeHash2BlockHeader cr b (writeTxToBlock ce b (writeTotalTransactionCount ce b
           (writeNumber b (writeNumber2Hash cr b (writeHash2Block cr b c)))))
         \<lparr>tb_sys := sys, m_blockNumber := m_number (blockHeader b)\<rparr>)"
      "m_number (blockHeader b) = number c + 1"
      "m_parentHash (blockHeader b) = numberHash (number c) c"
  using assms
  by (auto simp: commitBlock_def Let_def isBlockShouldCommit_def split: option.splits if_splits)

lemmas write_defs = writeHash2BlockHeader_def writeTxToBlock_def writeTotalTransactionCount_def
  writeNumber_def writeNumber2Hash_def writeHash2Block_def

lemma commitBlock_tables:
  assumes "fst (commitBlock cr ce db b c) = COMMIT_OK" "0 \<le> number c"
  shows "number (snd (commitBlock cr ce db b c)) = number c + 1"
    and "m_number (blockHeader b) = number c + 1"
    and "m_parentHash (blockHeader b) = numberHash (number c) c"
    and "tb_number2hash (snd (commitBlock cr ce db b c))
      = AList.update (number c + 1) (headerHash cr b) (tb_number2hash c)"
    and "tb_hash2block (snd (commitBlock cr ce db b c))
      = AList.update (headerHash cr b) b (tb_hash2block c)"
    and "m_nodeListCache (snd (commitBlock cr ce db b c)) = m_nodeListCache c"
    and "m_systemConfigRecord (snd (commitBlock cr ce db b c)) = m_systemConfigRecord c"
proof -
  from assms(1) obtain sys where ok: "snd (commitBlock cr ce db b c) = blockCache_add cr b
        (writeHash2BlockHeader cr b (writeTxToBlock ce b (writeTotalTransactionCount ce b
           (writeNumber b (writeNumber2Hash cr b (writeHash2Block cr b c)))))
         \<lparr>tb_sys := sys, m_blockNumber := m_number (blockHeader b)\<rparr>)"
      and n: "m_number (blockHeader b) = number c + 1"
      and p: "m_parentHash (blockHeader b) = numberHash (number c) c"
    by (rule commitBlock_OK)
  show "m_number (blockHeader b) = number c + 1"
    and "m_parentHash (blockHeader b) = numberHash (number c) c"
    by (rule n, rule p)
  have m: "number (d\<lparr>tb_sys := sys, m_blockNumber := number c + 1\<rparr>) = number c + 1" for d
    using assms(2) by (simp add: number_def [of "d\<lparr>tb_sys := sys, m_blockNumber := number c + 1\<rparr>"])
  show "number (snd (commitBlock cr ce db b c)) = number c + 1"
    unfolding ok n blockCache_add_frame by (rule m)
  show "tb_number2hash (snd (commitBlock cr ce db b c))
      = AList.update (number c + 1) (headerHash cr b) (tb_number2hash c)"
    and "tb_hash2block (snd (commitBlock cr ce db b c))
      = AList.update (headerHash cr b) b (tb_hash2block c)"
    and "m_nodeListCache (snd (commitBlock cr ce db b c)) = m_nodeListCache c"
    and "m_systemConfigRecord (snd (commitBlock cr ce db b c)) = m_systemConfigRecord c"
    unfolding ok blockCache_add_frame by (simp_all add: write_defs Let_def n)
qed

lemma linked_commitBlock:
  assumes "linked cr c" "committable cr b c" and ok: "fst (commitBlock cr ce db b c) = COMMIT_OK"
  shows "linked cr (snd (commitBlock cr ce db b c))"
proof -
  have n0: "0 \<le> number c" using assms(1) by (simp add: linked_def)
  note t = commitBlock_tables [OF ok n0]
  have new: "map_of (tb_number2hash c) (number c + 1) = None"
    using assms(1) unfolding linked_def by (metis add_le_same_cancel1 not_one_le_zero option.exhaust)
  have nh: "numberHash i (snd (commitBlock cr ce db b c)) =
      (if i = number c + 1 then headerHash cr b else numberHash i c)" for i
    by (simp add: numberHash_def t update_conv')
  have old: "map_of (tb_hash2block c) h = Some b' \<Longrightarrow> h \<noteq> headerHash cr b" for h b'
    using assms(2) by (auto simp: committable_def)
  show ?thesis
    using assms(1,2) new old unfolding linked_def t nh
    by (fastforce simp: update_conv' committable_def t(2,3) split: if_splits)
qed

lemma block_cache_commitBlock:
  assumes "chain_ok cr c" "committable cr b c" and ok: "fst (commitBlock cr ce db b c) = COMMIT_OK"
  shows "block_cache_ok (snd (commitBlock cr ce db b c))"
proof -
  have bc: "block_cache_ok c" using assms(1) by (simp add: chain_ok_def)
  have none: "blockCache_get (headerHash cr b) c = None"
    using bc assms(2) by (cases "blockCache_get (headerHash cr b) c")
      (auto simp: block_cache_ok_def committable_def blockCache_get_def)
  from ok obtain sys where st: "snd (commitBlock cr ce db b c) = blockCache_add cr b
        (writeHash2BlockHeader cr b (writeTxToBlock ce b (writeTotalTransactionCount ce b
           (writeNumber b (writeNumber2Hash cr b (writeHash2Block cr b c)))))
         \<lparr>tb_sys := sys, m_blockNumber := m_number (blockHeader b)\<rparr>)"
    by (rule commitBlock_OK)
  show ?thesis
    unfolding st
    using bc none assms(2)
    by (intro block_cache_add)
      (auto simp: write_defs Let_def block_cache_ok_def blockCache_get_def update_conv' committable_def)
qed

lemma chain_ok_commitBlock:
  assumes "chain_ok cr c" "committable cr b c"
  shows "chain_ok cr (snd (commitBlock cr ce db b c))"
proof (cases "fst (commitBlock cr ce db b c) = COMMIT_OK")
  case True
  have n0: "0 \<le> number c" using assms(1) by (simp add: chain_ok_def linked_def)
  note t = commitBlock_tables [OF True n0]
  have "list_cache_ok (snd (commitBlock cr ce db b c))"
    using assms(1) unfolding chain_ok_def list_cache_ok_def t by fastforce
  moreover have "config_cache_ok (snd (commitBlock cr ce db b c))"
    using assms(1) unfolding chain_ok_def config_cache_ok_def t by fastforce
  ultimately show ?thesis
    using assms True by (simp add: chain_ok_def linked_commitBlock block_cache_commitBlock)
qed (simp add: assms commitBlock_error)

lemma block_at_commitBlock:
  assumes "chain_ok cr c" "committable cr b c" "i \<le> number c"
  shows "block_at i (snd (commitBlock cr ce db b c)) = block_at i c"
proof (cases "fst (commitBlock cr ce db b c) = COMMIT_OK")
  case True
  have n0: "0 \<le> number c" using assms(1) by (simp add: chain_ok_def linked_def)
  note t = commitBlock_tables [OF True n0]
  have "h \<noteq> headerHash cr b" if "map_of (tb_number2hash c) i = Some h" for h
    using that assms(1,2) unfolding chain_ok_def linked_def committable_def by (metis option.distinct(1))
  then show ?thesis
    using assms(3) by (auto simp: block_at_def t update_conv' split: option.split)
qed (simp add: commitBlock_error)

lemma number_commitBlock_mono:
  "0 \<le> number c \<Longrightarrow> number c \<le> number (snd (commitBlock cr ce db b c))"
  by (cases "fst (commitBlock cr ce db b c) = COMMIT_OK")
    (simp_all add: commitBlock_tables commitBlock_error)

section \<open>The chain only grows\<close>

locale append_only =
  fixes inv :: "'c \<Rightarrow> bool"
    and num :: "'c \<Rightarrow> int"
    and at :: "int \<Rightarrow> 'c \<Rightarrow> 'b option"
    and ok :: "'x \<Rightarrow> 'c \<Rightarrow> bool"
    and step :: "'x \<Rightarrow> 'c \<Rightarrow> 'c"
  assumes inv_step: "inv c \<Longrightarrow> ok x c \<Longrightarrow> inv (step x c)"
    and num_step: "inv c \<Longrightarrow> ok x c \<Longrightarrow> num c \<le> num (step x c)"
    and at_step: "inv c \<Longrightarrow> ok x c \<Longrightarrow> i \<le> num c \<Longrightarrow> at i (step x c) = at i c"
begin

fun ok_run :: "'x list \<Rightarrow> 'c \<Rightarrow> bool" where
  "ok_run [] c = True"
| "ok_run (x # xs) c = (ok x c \<and> ok_run xs (step x c))"

lemma run_keeps:
  "inv c \<Longrightarrow> ok_run xs c \<Longrightarrow> i \<le> num c \<Longrightarrow>
     inv (fold step xs c) \<and> num c \<le> num (fold step xs c) \<and> at i (fold step xs c) = at i c"
proof (induction xs arbitrary: c)
  case (Cons x xs)
  have "inv (step x c)" "ok_run xs (step x c)" "i \<le> num (step x c)"
    using Cons.prems inv_step num_step by (auto intro: order_trans)
  from Cons.IH [OF this] Cons.prems show ?case
    using num_step [of c x] at_step [of c x i] by auto
qed simp

end

interpretation chain: append_only "chain_ok cr" number "\<lambda>i c. fst (getBlockByNumber cr i c)"
  "\<lambda>(db, b). committable cr b" "\<lambda>(db, b) c. snd (commitBlock cr ce db b c)"
  for cr :: "'c crypto_api_scheme" and ce
proof
  fix c :: blockchain and x :: "(block \<Rightarrow> sys_tables \<Rightarrow> sys_tables option) \<times> block" and i
  assume c: "chain_ok cr c" and x: "(case x of (db, b) \<Rightarrow> committable cr b) c"
  obtain db b where xx: "x = (db, b)" by (cases x)
  have n0: "0 \<le> number c" using c by (simp add: chain_ok_def linked_def)
  have ok': "chain_ok cr (snd (commitBlock cr ce db b c))"
    using c x by (simp add: xx chain_ok_commitBlock)
  then show "chain_ok cr ((case x of (db, b) \<Rightarrow> \<lambda>c. snd (commitBlock cr ce db b c)) c)"
    by (simp add: xx)
  show "number c \<le> number ((case x of (db, b) \<Rightarrow> \<lambda>c. snd (commitBlock cr ce db b c)) c)"
    using n0 by (simp add: xx number_commitBlock_mono)
  show "i \<le> number c \<Longrightarrow> fst (getBlockByNumber cr i ((case x of (db, b) \<Rightarrow> \<lambda>c. snd (commitBlock cr ce db b c)) c))
      = fst (getBlockByNumber cr i c)"
    using c x ok' by (simp add: xx getBlockByNumber_transparent block_at_commitBlock)
qed

section \<open>A chain that holds its genesis block only\<close>

definition genesis_chain :: "'c crypto_api_scheme \<Rightarrow> block \<Rightarrow> sys_tables \<Rightarrow> blockchain" where
  "genesis_chain cr b sys = \<lparr>m_blockNumber = 0, tb_current_number = Some 0, tb_total_tx = None,
     tb_total_failed = None, tb_number2hash = [(0, headerHash cr b)],
     tb_hash2block = [(headerHash cr b, b)], tb_hash2header = [], tb_tx2block = [], tb_nonces = [],
     tb_sys = sys, m_blockCache = [], m_blockCacheFIFO = [], m_nodeListCache = [],
     m_systemConfigRecord = []\<rparr>"

lemma number_genesis [simp]: "number (genesis_chain cr b sys) = 0"
  by (simp add: number_def genesis_chain_def)

lemma genesis_tables [simp]:
  "tb_sys (genesis_chain cr b sys) = sys"
  "tb_hash2block (genesis_chain cr b sys) = [(headerHash cr b, b)]"
  "tb_number2hash (genesis_chain cr b sys) = [(0, headerHash cr b)]"
  by (simp_all add: genesis_chain_def)

lemma chain_ok_genesis:
  assumes "headerHash cr b \<noteq> 0" "m_number (blockHeader b) = 0"
  shows "chain_ok cr (genesis_chain cr b sys)"
  using assms number_genesis [of cr b sys]
  by (auto simp: chain_ok_def linked_def block_cache_ok_def list_cache_ok_def config_cache_ok_def
      genesis_chain_def)

definition demo_header :: "int \<Rightarrow> h256 \<Rightarrow> block_header" where
  "demo_header n parent = emptyHeader\<lparr>m_number := n, m_parentHash := parent, m_timestamp := 1, m_sealer := 0\<rparr>"

definition demo_block :: "int \<Rightarrow> h256 \<Rightarrow> block" where
  "demo_block n parent = emptyBlock\<lparr>blockHeader := demo_header n parent\<rparr>"

abbreviation demo_cr :: crypto_api where
  "demo_cr \<equiv> demo_crypto [demo_header 0 0, demo_header 1 1, demo_header 2 2]"

definition demo_sys :: sys_tables where
  "demo_sys = \<lparr>sys_consensus = [(7, NODE_TYPE_SEALER, 0), (9, NODE_TYPE_OBSERVER, 0)],
     sys_config = [(''tx_count_limit'', (''1000'', 0))]\<rparr>"

definition demo_ce :: commit_env where
  "demo_ce = \<lparr>ce_txHash = (\<lambda>t. of_nat (length t)), ce_txNonce = (\<lambda>_. 0), ce_receiptFailed = (\<lambda>_. False)\<rparr>"

lemma demo_hashes:
  "headerHash demo_cr (demo_block 0 0) = 1" "headerHash demo_cr (demo_block 1 1) = 2"
  by (simp_all add: headerHash_def demo_block_def demo_hash short_header_def header_wf_def
      demo_header_def emptyHeader_def)

lemma chain_ok_demo: "chain_ok demo_cr (genesis_chain demo_cr (demo_block 0 0) demo_sys)"
  by (rule chain_ok_genesis) (simp_all add: demo_hashes, simp add: demo_block_def demo_header_def)

section \<open>Properties\<close>

text \<open>
  C7: Committing never rewrites history.  A commit that succeeds extends the chain by exactly the
  given block, whose parent is the former tip; one that fails leaves the whole state as it was.
  Either way every block up to the former tip is found as before through \<^verbatim>\<open>getBlockByNumber\<close>, block
  cache included, and the invariant of the chain (linked by parent hashes, indexes and caches
  consistent) holds again.  The hash of the new block must be fresh and not the zero hash, which the
  code uses for "no such block".
\<close>

theorem commit_extends_chain:
  assumes "chain_ok cr c" "headerHash cr b \<noteq> 0" "map_of (tb_hash2block c) (headerHash cr b) = None"
  shows "let (r, c') = commitBlock cr ce db b c in
     chain_ok cr c' \<and>
     (\<forall>i. i \<le> number c \<longrightarrow> fst (getBlockByNumber cr i c') = fst (getBlockByNumber cr i c)) \<and>
     (if r = COMMIT_OK
      then number c' = number c + 1 \<and> fst (getBlockByNumber cr (number c') c') = Some b \<and>
           m_parentHash (blockHeader b) = numberHash (number c) c
      else c' = c)"
proof -
  let ?c = "snd (commitBlock cr ce db b c)"
  have cm: "committable cr b c" using assms(2,3) by (simp add: committable_def)
  have ok: "chain_ok cr ?c" by (rule chain_ok_commitBlock [OF assms(1) cm])
  have old: "fst (getBlockByNumber cr i ?c) = fst (getBlockByNumber cr i c)" if "i \<le> number c" for i
    using that assms(1) ok cm by (simp add: getBlockByNumber_transparent block_at_commitBlock)
  have n0: "0 \<le> number c" using assms(1) by (simp add: chain_ok_def linked_def)
  have new: "number ?c = number c + 1 \<and> fst (getBlockByNumber cr (number ?c) ?c) = Some b \<and>
      m_parentHash (blockHeader b) = numberHash (number c) c"
    if r: "fst (commitBlock cr ce db b c) = COMMIT_OK"
    using commitBlock_tables [OF r n0] ok
    by (simp add: getBlockByNumber_transparent block_at_def update_conv')
  show ?thesis
    using ok old new commitBlock_error [of cr ce db b c] by (auto simp: case_prod_beta)
qed

theorem commit_extends_chain_witness:
  "let c = genesis_chain demo_cr (demo_block 0 0) demo_sys;
       (r, c') = commitBlock demo_cr demo_ce (\<lambda>_ t. Some t) (demo_block 1 1) c
   in r = COMMIT_OK \<and> number c' = 1 \<and> fst (getBlockByNumber demo_cr 1 c') = Some (demo_block 1 1) \<and>
      fst (getBlockByNumber demo_cr 0 c') = Some (demo_block 0 0)"
proof -
  let ?c = "genesis_chain demo_cr (demo_block 0 0) demo_sys"
  let ?r = "commitBlock demo_cr demo_ce (\<lambda>_ t. Some t) (demo_block 1 1) ?c"
  have ok: "fst ?r = COMMIT_OK"
    by (simp add: commitBlock_def isBlockShouldCommit_def numberHash_def Let_def demo_hashes)
      (simp add: demo_block_def demo_header_def)
  have old: "fst (getBlockByNumber demo_cr 0 ?c) = Some (demo_block 0 0)"
    using getBlockByNumber_transparent [OF chain_ok_demo]
    by (simp add: block_at_def)
  show ?thesis
    using commit_extends_chain [OF chain_ok_demo, of "demo_block 1 1" demo_ce "\<lambda>_ t. Some t"] ok old
    by (auto simp: demo_hashes case_prod_beta)
qed

text \<open>
  The cached node lists and system parameters are never stale: in every state that satisfies the
  chain's invariant, asking for the sealers, the observers or a parameter returns what the tables
  hold for the current block number (for the next one, in the case of a parameter), whether or not
  the answer comes from the cache.
\<close>

theorem governance_caches_fresh:
  assumes "chain_ok cr c"
  shows "fst (bc_sealerList c) = getNodeListByType (number c) NODE_TYPE_WORKING_SEALER (tb_sys c)
           @ getNodeListByType (number c) NODE_TYPE_SEALER (tb_sys c) \<and>
     fst (observerList c) = getNodeListByType (number c) NODE_TYPE_OBSERVER (tb_sys c) \<and>
     fst (getSystemConfigByKey k c) = fst (getSysteConfigByKey k (number c + 1) (tb_sys c))"
proof -
  have lists: "list_cache_ok c" "list_cache_ok (snd (getNodeList NODE_TYPE_WORKING_SEALER c))"
    using assms chain_ok_getNodeList [OF assms] by (simp_all add: chain_ok_def)
  have "config_cache_ok c" using assms by (simp add: chain_ok_def)
  with lists show ?thesis
    by (simp add: bc_sealerList_def workingSealerList_def pendingSealerList_def observerList_def
        case_prod_beta getNodeList_value getSystemConfigByKey_value)
qed

theorem governance_caches_fresh_witness:
  "fst (bc_sealerList (genesis_chain demo_cr (demo_block 0 0) demo_sys)) = [7] \<and>
   fst (observerList (genesis_chain demo_cr (demo_block 0 0) demo_sys)) = [9] \<and>
   fst (getSystemConfigByKey ''tx_count_limit'' (genesis_chain demo_cr (demo_block 0 0) demo_sys)) = ''1000''"
  using governance_caches_fresh [OF chain_ok_demo, of "''tx_count_limit''"]
  by (simp add: getNodeListByType_def getSysteConfigByKey_def demo_sys_def NODE_TYPE_SEALER_def
      NODE_TYPE_OBSERVER_def NODE_TYPE_WORKING_SEALER_def)

end
