(* ===== verification/EngineBase.thy ===== *)
theory EngineBase
  imports PBFT_Msg BlockChain
begin

text \<open>
  \<^verbatim>\<open>ConsensusEngineBase\<close> (src/libconsensus/ConsensusEngineBase.cpp, .h): the configuration every
  engine reads from the chain (transaction limit, sealer list, own index, number of tolerated
  faults), block execution and the checks on a block before it is executed.  The record of the
  engine holds the chain it commits to and what it reads and writes of the sync module
  (src/libsync/SyncMaster.cpp).

  \<^item> Code outside these classes is collected in \<open>engine_env\<close>: the signature scheme, the clocks, the
    connected peers, the block codec, block execution, the storage commit and
    \<^verbatim>\<open>boost::lexical_cast\<close>.  One environment serves one call of a handler, so the clock does not
    move within a handler, except over the execution of a block.
  \<^item> What the engine does to other modules (sending, the transaction pool, the callbacks of the
    sealer) is appended to the list \<open>effects\<close>, newest first; \<open>Signs\<close> records every message the node
    has put its signature under.
  \<^item> A function that may throw returns an \<open>outcome\<close>: the exception with the state it leaves behind,
    or the new state.

  \<^verbatim>\<open>checkBlockTimeStamp\<close> only writes a log line, and the branch for \<^verbatim>\<open>syncTreeRouterEnabled\<close> calls
  members that the sync module does not have; both are left out.  Shown: the quorum arithmetic of
  the configuration and when a node takes part in consensus.
\<close>

section \<open>Environment and effects\<close>

record engine_env =
  crypto :: crypto_api
  utcSteadyTime :: nat
  execTime :: nat
  utcTime :: nat
  alignedTime :: "int option"
  sessions :: "h512 list"
  decodeBlock :: "bytes \<Rightarrow> block option"
  encodeBlock :: "block \<Rightarrow> bool \<Rightarrow> bytes"
  verifyTxs :: "block \<Rightarrow> bool"
  execute :: "block \<Rightarrow> h256 \<times> int \<times> h256 \<Rightarrow> (block \<times> exec_context option) option"
  commitEnv :: commit_env
  dbCommit :: "exec_context option \<Rightarrow> block \<Rightarrow> sys_tables \<Rightarrow> sys_tables option"
  lexical_cast :: "string \<Rightarrow> nat option"

datatype effect =
    Signs packet_type pbft_msg
  | AsyncMulticast "h512 list" bytes nat
  | AsyncSend h512 bytes
  | SetNodeListByGroupID "h512 list"
  | DropBlockTrans block
  | HandleBadBlock block
  | OnViewChange
  | OnTimeout nat
  | OnCommitBlock int nat nat
  | OnNotifyNextLeaderReset "h256 list"

datatype engine_error =
    BadLexicalCast | EmptySealers | NullBlock | ExecuteFailed | DecodeFailed | InvalidTransaction
  | OverThresTransNum | DisabledFutureTime | InvalidBlockHeight | ParentNoneExist | WrongParentHash
  | BlockSealerListWrong

type_synonym 's outcome = "(engine_error \<times> 's) + 's"

datatype NodeAccountType = SealerAccount | ObserverAccount

section \<open>The sync module as the engine sees it\<close>

text \<open>
  \<open>sync_farBehind\<close> is the answer of \<^verbatim>\<open>blockNumberFarBehind\<close>, which the engine calls and
  \<^verbatim>\<open>SyncInterface\<close> does not declare.
\<close>

datatype SyncState = Idle | Downloading

record sync_master =
  sync_state :: SyncState
  knownHighestNumber :: int
  m_currentSealingNumber :: int
  sync_farBehind :: bool

definition noteSealingBlockNumber :: "int \<Rightarrow> sync_master \<Rightarrow> sync_master" where
  "noteSealingBlockNumber n s = s\<lparr>m_currentSealingNumber := n\<rparr>"

definition isSyncing :: "sync_master \<Rightarrow> bool" where
  "isSyncing s \<longleftrightarrow> sync_state s \<noteq> Idle"

section \<open>State\<close>

record consensus_base =
  m_maxBlockTransactions :: nat
  m_sealerListUpdated :: bool
  m_lastSealerListUpdateNumber :: int
  m_blockChain :: blockchain
  m_blockSync :: sync_master
  m_consensusBlockNumber :: int
  m_highestBlock :: block_header
  m_nodeNum :: IDXTYPE
  m_f :: IDXTYPE
  m_accountType :: NodeAccountType
  m_idx :: IDXTYPE
  m_keyPair :: key_pair
  m_sealerList :: "h512 list"
  m_allowFutureBlocks :: bool
  m_startConsensusEngine :: bool
  m_lastNodeList :: string
  m_connectedNode :: IDXTYPE
  m_omitEmptyBlock :: bool
  m_cfgErr :: bool
  m_supportConsensusTimeAdjust :: bool
  effects :: "effect list"

definition emit_effect :: "effect \<Rightarrow> 'a consensus_base_scheme \<Rightarrow> 'a consensus_base_scheme" where
  "emit_effect x e = e\<lparr>effects := x # effects e\<rparr>"

abbreviation on_chain :: "(blockchain \<Rightarrow> blockchain) \<Rightarrow> 'a consensus_base_scheme \<Rightarrow> 'a consensus_base_scheme" where
  "on_chain f e \<equiv> e\<lparr>m_blockChain := f (m_blockChain e)\<rparr>"

abbreviation on_sync :: "(sync_master \<Rightarrow> sync_master) \<Rightarrow> 'a consensus_base_scheme \<Rightarrow> 'a consensus_base_scheme" where
  "on_sync f e \<equiv> e\<lparr>m_blockSync := f (m_blockSync e)\<rparr>"

definition minValidNodes :: "'a consensus_base_scheme \<Rightarrow> IDXTYPE" where
  "minValidNodes e = m_nodeNum e - m_f e"

definition getSealerByIndex :: "nat \<Rightarrow> 'a consensus_base_scheme \<Rightarrow> h512" where
  "getSealerByIndex i e = (if i < length (m_sealerList e) then m_sealerList e ! i else 0)"

definition getAlignedTime :: "engine_env \<Rightarrow> int" where
  "getAlignedTime env = (case alignedTime env of Some t \<Rightarrow> t | None \<Rightarrow> int (utcTime env))"

definition base_start :: "'a consensus_base_scheme \<Rightarrow> 'a consensus_base_scheme" where
  "base_start e = (if m_startConsensusEngine e then e else e\<lparr>m_startConsensusEngine := True\<rparr>)"

definition base_stop :: "'a consensus_base_scheme \<Rightarrow> 'a consensus_base_scheme" where
  "base_stop e = (if \<not> m_startConsensusEngine e then e else e\<lparr>m_startConsensusEngine := False\<rparr>)"

section \<open>Configuration\<close>

definition updateMaxBlockTransactions :: "engine_env \<Rightarrow> 'a consensus_base_scheme \<Rightarrow> 'a consensus_base_scheme outcome" where
  "updateMaxBlockTransactions env e =
     (let (ret, c) = getSystemConfigByKey ''tx_count_limit'' (m_blockChain e);
          e1 = e\<lparr>m_blockChain := c\<rparr>
      in case lexical_cast env ret of
           None \<Rightarrow> Inl (BadLexicalCast, e1)
         | Some n \<Rightarrow> Inr (e1\<lparr>m_maxBlockTransactions := n\<rparr>))"

text \<open>\<^verbatim>\<open>FixedHash::abridged\<close> at 64 bytes.\<close>

definition abridged :: "h512 \<Rightarrow> string" where
  "abridged h = toHex (take 4 (fixedHash_data 64 h)) @ ''...''"

definition updateConsensusNodeList :: "'a consensus_base_scheme \<Rightarrow> 'a consensus_base_scheme" where
  "updateConsensusNodeList e =
     (let (l, c1) = bc_sealerList (m_blockChain e);
          sealers = sort l;
          e1 = e\<lparr>m_blockChain := c1\<rparr>;
          e2 = (if sealers \<noteq> m_sealerList e
                then e1\<lparr>m_sealerList := sealers, m_sealerListUpdated := True,
                        m_lastSealerListUpdateNumber := number c1\<rparr>
                else if number c1 \<noteq> m_lastSealerListUpdateNumber e
                then e1\<lparr>m_sealerListUpdated := False\<rparr> else e1);
          (obs, c2) = observerList c1;
          e3 = e2\<lparr>m_blockChain := c2\<rparr>;
          names = (\<lambda>ns. concat (map (\<lambda>n. abridged n @ '','') ns));
          s2 = ''[updateConsensusNodeList] Sealers:'' @ names (m_sealerList e2) @
               ''Observers:'' @ names obs
      in if m_lastNodeList e3 \<noteq> s2
         then (emit_effect (SetNodeListByGroupID (sort (sealers @ obs))) e3)\<lparr>m_lastNodeList := s2\<rparr>
         else e3)"

fun find_index :: "'a \<Rightarrow> 'a list \<Rightarrow> nat option" where
  "find_index x [] = None"
| "find_index x (y # ys) = (if y = x then Some 0 else map_option Suc (find_index x ys))"

definition base_resetConfig :: "engine_env \<Rightarrow> 'a consensus_base_scheme \<Rightarrow> 'a consensus_base_scheme outcome" where
  "base_resetConfig env e =
     ebind (updateMaxBlockTransactions env e) (\<lambda>e1.
       let e2 = updateConsensusNodeList (e1\<lparr>m_accountType := ObserverAccount\<rparr>);
           found = find_index (kp_pub (m_keyPair e2)) (m_sealerList e2);
           node_idx = (case found of None \<Rightarrow> MAXIDX | Some i \<Rightarrow> of_nat i);
           e3 = (if found = None then e2 else e2\<lparr>m_accountType := SealerAccount\<rparr>);
           nodeNum = length (m_sealerList e3)
       in if nodeNum < 1 then Inl (EmptySealers, e3)
          else
            (let e4 = e3\<lparr>m_nodeNum := of_nat nodeNum\<rparr> in
             Inr (e4\<lparr>m_f := of_nat ((unat (m_nodeNum e4) - 1) div 3),
                     m_cfgErr := (node_idx = MAXIDX), m_idx := node_idx\<rparr>)))"

definition base_appendSealer :: "engine_env \<Rightarrow> h512 \<Rightarrow> 'a consensus_base_scheme \<Rightarrow> 'a consensus_base_scheme outcome" where
  "base_appendSealer env s e = base_resetConfig env (e\<lparr>m_sealerList := m_sealerList e @ [s]\<rparr>)"

section \<open>Blocks\<close>

definition executeBlock :: "engine_env \<Rightarrow> block \<Rightarrow> 'a consensus_base_scheme \<Rightarrow>
    (engine_error \<times> 'a consensus_base_scheme) + ((block \<times> exec_context option) \<times> 'a consensus_base_scheme)" where
  "executeBlock env b e =
     (let (parent, c) = getBlockByNumber (crypto env) (number (m_blockChain e)) (m_blockChain e);
          e1 = e\<lparr>m_blockChain := c\<rparr>
      in case parent of
           None \<Rightarrow> Inl (NullBlock, e1)
         | Some p \<Rightarrow>
             (case execute env b (headerHash (crypto env) p, m_number (blockHeader p),
                                  m_stateRoot (blockHeader p)) of
                None \<Rightarrow> Inl (ExecuteFailed, e1)
              | Some r \<Rightarrow> Inr (r, e1)))"

definition base_checkBlockValid :: "engine_env \<Rightarrow> block \<Rightarrow> 'a consensus_base_scheme \<Rightarrow> 'a consensus_base_scheme outcome" where
  "base_checkBlockValid env b e =
     (let h = blockHeader b in
      if getTransactionSize b > m_maxBlockTransactions e then Inl (OverThresTransNum, e)
      else if m_timestamp h > utcTime env \<and> \<not> m_allowFutureBlocks e then Inl (DisabledFutureTime, e)
      else if m_number h \<le> number (m_blockChain e) then Inl (InvalidBlockHeight, e)
      else
        (let (parent, c) = getBlockByHash (crypto env) (m_parentHash h) (m_blockChain e);
             e1 = e\<lparr>m_blockChain := c\<rparr>
         in if parent = None then Inl (ParentNoneExist, e1)
            else if m_number h > 1 \<and> numberHash (s64 (m_number h - 1)) c \<noteq> m_parentHash h
            then Inl (WrongParentHash, e1)
            else Inr e1))"

section \<open>Facts\<close>

lemma find_index_Some: "find_index x xs = Some i \<Longrightarrow> i < length xs \<and> xs ! i = x"
  by (induction xs arbitrary: i) (auto split: if_splits)

lemma find_index_None: "find_index x xs = None \<longleftrightarrow> x \<notin> set xs"
  by (induction xs) auto

lemma find_index_distinct: "distinct xs \<Longrightarrow> i < length xs \<Longrightarrow> find_index (xs ! i) xs = Some i"
proof (induction xs arbitrary: i)
  case (Cons x xs)
  then show ?case by (cases i) auto
qed simp

lemma emit_effect_sel [simp]:
  "effects (emit_effect x e) = x # effects e"
  "m_sealerList (emit_effect x e) = m_sealerList e"
  "m_keyPair (emit_effect x e) = m_keyPair e"
  "m_blockChain (emit_effect x e) = m_blockChain e"
  by (simp_all add: emit_effect_def)

text \<open>A quorum of the configured size, for a network the index type can count.\<close>

lemma quorum_word:
  assumes "0 < n" "n < 65536"
    and nn: "nn = (of_nat n :: IDXTYPE)" and f: "f = (of_nat ((unat nn - 1) div 3) :: IDXTYPE)"
  shows "unat nn = n" "unat f = (n - 1) div 3" "unat (nn - f) = n - (n - 1) div 3"
proof -
  show n': "unat nn = n" using assms(1,2) unfolding nn by (simp add: unat_of_nat)
  show f': "unat f = (n - 1) div 3" using assms(1,2) unfolding f n' by (simp add: unat_of_nat)
  have "f \<le> nn" unfolding word_le_nat_alt n' f' by simp
  then show "unat (nn - f) = n - (n - 1) div 3" by (simp add: unat_sub n' f')
qed

end
