(* ===== verification/ReqCache.thy ===== *)
theory ReqCache
  imports PBFT_Msg
begin

text \<open>
  The request cache, \<^verbatim>\<open>libconsensus/pbft/PBFTReqCache.h\<close> and \<^verbatim>\<open>PBFTReqCache.cpp\<close>.

  An \<^verbatim>\<open>unordered_map\<close> is an association list with distinct keys; the order of the list stands for the
  iteration order, about which nothing is assumed.  The functions that the source instantiates for
  several caches (\<^verbatim>\<open>cacheExists\<close>, \<^verbatim>\<open>getSizeFromCache\<close>, \<^verbatim>\<open>removeInvalidEntryFromCache\<close>, the view
  filters) are polymorphic in the keys.  A block header passed as the highest block is given by its
  number and its hash.

  \<^verbatim>\<open>checkAndRemoveInvalidFutureReq\<close> walks over a copy of the inner map
  (\<^verbatim>\<open>auto cachedItem = it->second\<close>): erased entries disappear from the copy only, while
  \<^verbatim>\<open>signChecked\<close> is set through the shared pointer and is visible in the cache.
\<close>

section \<open>State\<close>

type_synonym sig_cache = "(h256 \<times> (string \<times> pbft_msg) list) list"
type_synonym view_cache = "(VIEWTYPE \<times> (IDXTYPE \<times> viewchange_req) list) list"

record req_cache =
  m_prepareCache :: prepare_req
  m_rawPrepareCache :: prepare_req
  m_signCache :: sig_cache
  m_recvViewChangeReq :: view_cache
  m_latestViewChangeReqCache :: "(IDXTYPE \<times> viewchange_req) list"
  m_commitCache :: sig_cache
  m_committedPrepareCache :: prepare_req
  m_futurePrepareCache :: "(nat \<times> prepare_req) list"

definition emptyReqCache :: req_cache where
  "emptyReqCache = \<lparr> m_prepareCache = emptyPrepare, m_rawPrepareCache = emptyPrepare,
     m_signCache = [], m_recvViewChangeReq = [], m_latestViewChangeReqCache = [],
     m_commitCache = [], m_committedPrepareCache = emptyPrepare, m_futurePrepareCache = [] \<rparr>"

definition m_maxFuturePrepareCacheSize :: nat where
  "m_maxFuturePrepareCacheSize = 10"

text \<open>The conversion of an \<^verbatim>\<open>int64_t\<close> height to the \<^verbatim>\<open>uint64_t\<close> key of the future cache.\<close>

definition to_uint64 :: "int \<Rightarrow> nat" where
  "to_uint64 h = nat (h mod 2 ^ 64)"

section \<open>Lookups\<close>

definition cacheExists :: "('a \<times> ('b \<times> 'c) list) list \<Rightarrow> 'a \<Rightarrow> 'b \<Rightarrow> bool" where
  "cacheExists cache mainKey key =
     (case map_of cache mainKey of None \<Rightarrow> False | Some m \<Rightarrow> map_of m key \<noteq> None)"

definition getSizeFromCache :: "'a \<Rightarrow> ('a \<times> ('b \<times> 'c) list) list \<Rightarrow> nat" where
  "getSizeFromCache key cache = (case map_of cache key of None \<Rightarrow> 0 | Some m \<Rightarrow> length m)"

definition isExistPrepare :: "'a pbft_msg_scheme \<Rightarrow> req_cache \<Rightarrow> bool" where
  "isExistPrepare req c \<longleftrightarrow> block_hash (m_rawPrepareCache c) = block_hash req"

definition isExistSign :: "sign_req \<Rightarrow> req_cache \<Rightarrow> bool" where
  "isExistSign req c = cacheExists (m_signCache c) (block_hash req) (toHex (sig req))"

definition isExistCommit :: "commit_req \<Rightarrow> req_cache \<Rightarrow> bool" where
  "isExistCommit req c = cacheExists (m_commitCache c) (block_hash req) (toHex (sig req))"

definition isExistViewChange :: "viewchange_req \<Rightarrow> req_cache \<Rightarrow> bool" where
  "isExistViewChange req c = cacheExists (m_recvViewChangeReq c) (view req) (idx req)"

definition getViewChangeSize :: "VIEWTYPE \<Rightarrow> req_cache \<Rightarrow> nat" where
  "getViewChangeSize toView c = getSizeFromCache toView (m_recvViewChangeReq c)"

definition futurePrepareCache :: "nat \<Rightarrow> req_cache \<Rightarrow> prepare_req option" where
  "futurePrepareCache blockNumber c = map_of (m_futurePrepareCache c) blockNumber"

definition futurePrepareCacheSize :: "req_cache \<Rightarrow> nat" where
  "futurePrepareCacheSize c = length (m_futurePrepareCache c)"

definition rawPrepareCacheHeight :: "req_cache \<Rightarrow> int" where
  "rawPrepareCacheHeight c = height (m_rawPrepareCache c)"

section \<open>Future requests\<close>

definition removeAllRedundantFutureReq :: "('k \<times> pbft_msg) list \<Rightarrow> ('k \<times> pbft_msg) list" where
  "removeAllRedundantFutureReq rest = filter (\<lambda>(_, req). \<not> isFuture req) rest"

text \<open>
  One walk over the copied inner map.  The result pairs what is left in the copy with what the cache
  holds afterwards.
\<close>

fun checkFuture_loop :: "(pbft_msg \<Rightarrow> bool) \<Rightarrow> bool \<Rightarrow> nat \<Rightarrow> nat \<Rightarrow> ('k \<times> pbft_msg) list \<Rightarrow> ('k \<times> pbft_msg) list \<times> ('k \<times> pbft_msg) list" where
  "checkFuture_loop check needLimit limitedSize futureReqSize [] = ([], [])"
| "checkFuture_loop check needLimit limitedSize futureReqSize ((k, req) # rest) =
     (if \<not> isFuture req then
        (let (copy, cache) = checkFuture_loop check needLimit limitedSize futureReqSize rest in
         ((k, req) # copy, (k, req) # cache))
      else if needLimit \<and> futureReqSize \<ge> limitedSize then
        (removeAllRedundantFutureReq ((k, req) # rest), (k, req) # rest)
      else if signChecked req then
        (let (copy, cache) = checkFuture_loop check needLimit limitedSize (Suc futureReqSize) rest in
         ((k, req) # copy, (k, req) # cache))
      else if check req then
        (let req' = req\<lparr> signChecked := True \<rparr>;
             (copy, cache) = checkFuture_loop check needLimit limitedSize (Suc futureReqSize) rest in
         ((k, req') # copy, (k, req') # cache))
      else
        (let (copy, cache) = checkFuture_loop check needLimit limitedSize futureReqSize rest in
         (copy, (k, req) # cache)))"

definition checkAndRemoveInvalidFutureReq :: "(pbft_msg \<Rightarrow> bool) \<Rightarrow> h256 \<Rightarrow> bool \<Rightarrow> IDXTYPE \<Rightarrow> sig_cache \<Rightarrow> sig_cache \<times> nat" where
  "checkAndRemoveInvalidFutureReq check blockHash needLimit limitedSize cache =
     (case map_of cache blockHash of
        None \<Rightarrow> (cache, 0)
      | Some m \<Rightarrow>
          (let (copy, m') = checkFuture_loop check needLimit (unat limitedSize) 0 m in
           if length copy = 0 then (AList.delete blockHash cache, 0)
           else (AList.update blockHash m' cache, length copy)))"

text \<open>\<open>check\<close> is the callback \<^verbatim>\<open>m_checkSignCallback\<close> that the engine installs.\<close>

definition getSigCacheSize :: "(pbft_msg \<Rightarrow> bool) \<Rightarrow> h256 \<Rightarrow> IDXTYPE \<Rightarrow> req_cache \<Rightarrow> req_cache \<times> nat" where
  "getSigCacheSize check blockHash sizeToCheckFutureSign c =
     (let cachedSignSize = getSizeFromCache blockHash (m_signCache c) in
      if cachedSignSize \<ge> unat sizeToCheckFutureSign then
        (let (sc, n) = checkAndRemoveInvalidFutureReq check blockHash True
                         (sizeToCheckFutureSign - 1) (m_signCache c) in
         (c\<lparr> m_signCache := sc \<rparr>, n))
      else (c, cachedSignSize))"

definition getCommitCacheSize :: "(pbft_msg \<Rightarrow> bool) \<Rightarrow> h256 \<Rightarrow> IDXTYPE \<Rightarrow> req_cache \<Rightarrow> req_cache \<times> nat" where
  "getCommitCacheSize check blockHash sizeToCheckFutureCommit c =
     (let cachedCommitSize = getSizeFromCache blockHash (m_commitCache c) in
      if cachedCommitSize \<ge> unat sizeToCheckFutureCommit then
        (let (cc, n) = checkAndRemoveInvalidFutureReq check blockHash False
                         (sizeToCheckFutureCommit - 1) (m_commitCache c) in
         (c\<lparr> m_commitCache := cc \<rparr>, n))
      else (c, cachedCommitSize))"

section \<open>Filters\<close>

text \<open>
  Whether \<^verbatim>\<open>removeInvalidEntryFromCache\<close> keeps a request when the highest block has number \<open>n\<close> and
  hash \<open>h\<close>.
\<close>

definition valid_for :: "int \<Rightarrow> h256 \<Rightarrow> 'a pbft_msg_scheme \<Rightarrow> bool" where
  "valid_for n h req \<longleftrightarrow> \<not> height req < n \<and> \<not> (height req = n \<and> block_hash req \<noteq> h)"

definition removeInvalidEntryFromCache :: "int \<Rightarrow> h256 \<Rightarrow> ('a \<times> ('b \<times> pbft_msg) list) list \<Rightarrow> ('a \<times> ('b \<times> pbft_msg) list) list" where
  "removeInvalidEntryFromCache n h cache =
     filter (\<lambda>(_, m). length m \<noteq> 0)
       (map (\<lambda>(k, m). (k, filter (\<lambda>(_, req). valid_for n h req) m)) cache)"

definition removeInvalidViewOf :: "'a \<Rightarrow> VIEWTYPE \<Rightarrow> ('a \<times> ('b \<times> pbft_msg) list) list \<Rightarrow> ('a \<times> ('b \<times> pbft_msg) list) list" where
  "removeInvalidViewOf blockHash v cache =
     (case map_of cache blockHash of
        None \<Rightarrow> cache
      | Some m \<Rightarrow> AList.update blockHash (filter (\<lambda>(_, req). view req = v) m) cache)"

definition removeInvalidSignCache :: "h256 \<Rightarrow> VIEWTYPE \<Rightarrow> req_cache \<Rightarrow> req_cache" where
  "removeInvalidSignCache blockHash v c =
     c\<lparr> m_signCache := removeInvalidViewOf blockHash v (m_signCache c) \<rparr>"

definition removeInvalidCommitCache :: "h256 \<Rightarrow> VIEWTYPE \<Rightarrow> req_cache \<Rightarrow> req_cache" where
  "removeInvalidCommitCache blockHash v c =
     c\<lparr> m_commitCache := removeInvalidViewOf blockHash v (m_commitCache c) \<rparr>"

definition removeInvalidFutureCache :: "int \<Rightarrow> req_cache \<Rightarrow> req_cache" where
  "removeInvalidFutureCache highestBlockNumber c =
     c\<lparr> m_futurePrepareCache :=
          filter (\<lambda>(k, _). \<not> k \<le> to_uint64 highestBlockNumber) (m_futurePrepareCache c) \<rparr>"

definition removeInvalidLatestViewChangeReq :: "int \<Rightarrow> h256 \<Rightarrow> req_cache \<Rightarrow> req_cache" where
  "removeInvalidLatestViewChangeReq n h c =
     c\<lparr> m_latestViewChangeReqCache :=
          filter (\<lambda>(_, req). valid_for n h req) (m_latestViewChangeReqCache c) \<rparr>"

definition removeInvalidViewChange :: "VIEWTYPE \<Rightarrow> int \<Rightarrow> h256 \<Rightarrow> req_cache \<Rightarrow> req_cache" where
  "removeInvalidViewChange v n h c =
     (case map_of (m_recvViewChangeReq c) v of
        None \<Rightarrow> c
      | Some m \<Rightarrow> removeInvalidLatestViewChangeReq n h
          (c\<lparr> m_recvViewChangeReq :=
               AList.update v (filter (\<lambda>(_, req). valid_for n h req) m) (m_recvViewChangeReq c) \<rparr>))"

definition removeInvalidViewChange_view :: "VIEWTYPE \<Rightarrow> req_cache \<Rightarrow> req_cache" where
  "removeInvalidViewChange_view curView c =
     c\<lparr> m_recvViewChangeReq := filter (\<lambda>(v, _). \<not> v \<le> curView) (m_recvViewChangeReq c),
        m_latestViewChangeReqCache :=
          filter (\<lambda>(_, req). \<not> view req \<le> curView) (m_latestViewChangeReqCache c) \<rparr>"

definition delInvalidViewChange :: "int \<Rightarrow> h256 \<Rightarrow> req_cache \<Rightarrow> req_cache" where
  "delInvalidViewChange n h c =
     c\<lparr> m_recvViewChangeReq := removeInvalidEntryFromCache n h (m_recvViewChangeReq c) \<rparr>"

definition collectGarbage :: "int \<Rightarrow> h256 \<Rightarrow> req_cache \<Rightarrow> req_cache" where
  "collectGarbage n h c =
     (let c1 = c\<lparr> m_signCache := removeInvalidEntryFromCache n h (m_signCache c) \<rparr>;
          c2 = c1\<lparr> m_commitCache := removeInvalidEntryFromCache n h (m_commitCache c1) \<rparr>;
          c3 = removeInvalidFutureCache n c2;
          c4 = delInvalidViewChange n h c3
      in removeInvalidLatestViewChangeReq n h c4)"

section \<open>Adding requests\<close>

definition addRawPrepare :: "prepare_req \<Rightarrow> req_cache \<Rightarrow> req_cache" where
  "addRawPrepare req c =
     c\<lparr> m_rawPrepareCache := req, m_prepareCache := clear_msg (m_prepareCache c) \<rparr>"

definition addPrepareReq :: "prepare_req \<Rightarrow> req_cache \<Rightarrow> req_cache" where
  "addPrepareReq req c =
     removeInvalidCommitCache (block_hash req) (view req)
       (removeInvalidSignCache (block_hash req) (view req) (c\<lparr> m_prepareCache := req \<rparr>))"

text \<open>\<^verbatim>\<open>cache[req->block_hash][toHex(req->sig)] = req\<close>; a missing inner map is created.\<close>

definition addReq :: "pbft_msg \<Rightarrow> sig_cache \<Rightarrow> sig_cache" where
  "addReq req cache =
     AList.update (block_hash req)
       (AList.update (toHex (sig req)) req
          (case map_of cache (block_hash req) of None \<Rightarrow> [] | Some m \<Rightarrow> m)) cache"

definition addSignReq :: "sign_req \<Rightarrow> req_cache \<Rightarrow> req_cache" where
  "addSignReq req c =
     (if cacheExists (m_signCache c) (block_hash req) (toHex (sig req)) then c
      else c\<lparr> m_signCache := addReq req (m_signCache c) \<rparr>)"

definition addCommitReq :: "commit_req \<Rightarrow> req_cache \<Rightarrow> req_cache" where
  "addCommitReq req c =
     (if cacheExists (m_commitCache c) (block_hash req) (toHex (sig req)) then c
      else c\<lparr> m_commitCache := addReq req (m_commitCache c) \<rparr>)"

definition addFuturePrepareCache :: "prepare_req \<Rightarrow> req_cache \<Rightarrow> req_cache" where
  "addFuturePrepareCache req c =
     (if length (m_futurePrepareCache c) \<ge> m_maxFuturePrepareCacheSize then c
      else case map_of (m_futurePrepareCache c) (to_uint64 (height req)) of
          None \<Rightarrow> c\<lparr> m_futurePrepareCache :=
                     AList.update (to_uint64 (height req)) req (m_futurePrepareCache c) \<rparr>
        | Some _ \<Rightarrow> c)"

definition eraseHandledFutureReq :: "nat \<Rightarrow> req_cache \<Rightarrow> req_cache" where
  "eraseHandledFutureReq blockNumber c =
     c\<lparr> m_futurePrepareCache := AList.delete blockNumber (m_futurePrepareCache c) \<rparr>"

definition updateCommittedPrepare :: "req_cache \<Rightarrow> req_cache" where
  "updateCommittedPrepare c = c\<lparr> m_committedPrepareCache := m_rawPrepareCache c \<rparr>"

section \<open>View changes\<close>

definition eraseExpiredViewChange :: "IDXTYPE \<Rightarrow> req_cache \<Rightarrow> req_cache" where
  "eraseExpiredViewChange i c =
     (case map_of (m_latestViewChangeReqCache c) i of
        None \<Rightarrow> c
      | Some vc \<Rightarrow>
          (case map_of (m_recvViewChangeReq c) (view vc) of
             None \<Rightarrow> c
           | Some m \<Rightarrow>
               (case map_of m i of
                  None \<Rightarrow> c
                | Some vc' \<Rightarrow>
                    (let recv = (if vc = vc'
                                 then AList.update (view vc) (AList.delete i m) (m_recvViewChangeReq c)
                                 else m_recvViewChangeReq c) in
                     c\<lparr> m_recvViewChangeReq := recv,
                        m_latestViewChangeReqCache :=
                          AList.delete i (m_latestViewChangeReqCache c) \<rparr>))))"

definition checkViewChangeReq :: "viewchange_req \<Rightarrow> int \<Rightarrow> req_cache \<Rightarrow> req_cache \<times> bool" where
  "checkViewChangeReq req blockNumber c =
     (if height req < blockNumber then (c, False)
      else case map_of (m_latestViewChangeReqCache c) (idx req) of
          None \<Rightarrow> (c, True)
        | Some vc \<Rightarrow>
            if height vc < blockNumber then (eraseExpiredViewChange (idx vc) c, True)
            else if height req < height vc then (c, False)
            else if view req < view vc then (c, False)
            else (c, True))"

definition addViewChangeReq :: "viewchange_req \<Rightarrow> int \<Rightarrow> req_cache \<Rightarrow> req_cache" where
  "addViewChangeReq req blockNumber c =
     (let (c1, ok) = checkViewChangeReq req blockNumber c in
      if \<not> ok then c1
      else
        (let c2 = eraseExpiredViewChange (idx req) c1;
             m = (case map_of (m_recvViewChangeReq c2) (view req) of None \<Rightarrow> [] | Some m \<Rightarrow> m) in
         c2\<lparr> m_recvViewChangeReq :=
               AList.update (view req) (AList.update (idx req) req m) (m_recvViewChangeReq c2),
             m_latestViewChangeReqCache :=
               AList.update (idx req) req (m_latestViewChangeReqCache c2) \<rparr>))"

text \<open>
  \<^verbatim>\<open>canTriggerViewChange\<close>: the entries are visited view by view; the accumulator holds
  \<^verbatim>\<open>idx_view_map\<close>, \<^verbatim>\<open>minView\<close> and \<^verbatim>\<open>min_height\<close>.
\<close>

type_synonym trigger_acc = "(IDXTYPE \<times> VIEWTYPE) list \<times> VIEWTYPE \<times> int"

definition trigger_entry :: "int \<Rightarrow> VIEWTYPE \<Rightarrow> IDXTYPE \<times> viewchange_req \<Rightarrow> trigger_acc \<Rightarrow> trigger_acc" where
  "trigger_entry highestNumber v entry acc =
     (case (entry, acc) of ((i, req), (idx_view_map, minView, min_height)) \<Rightarrow>
        if (case map_of idx_view_map i of None \<Rightarrow> True | Some v' \<Rightarrow> v > v')
           \<and> height req \<ge> highestNumber
        then (AList.update i v idx_view_map, min minView v, min min_height (height req))
        else acc)"

definition trigger_scan :: "VIEWTYPE \<Rightarrow> int \<Rightarrow> view_cache \<Rightarrow> trigger_acc" where
  "trigger_scan toView highestNumber recv =
     fold (\<lambda>(v, m) acc. if v > toView then fold (trigger_entry highestNumber v) m acc else acc)
       recv ([], MAXVIEW, 2 ^ 63 - 1)"

definition canTriggerViewChange :: "IDXTYPE \<Rightarrow> VIEWTYPE \<Rightarrow> int \<Rightarrow> int \<Rightarrow> req_cache \<Rightarrow> VIEWTYPE \<times> bool" where
  "canTriggerViewChange maxInvalidNodeNum toView highestNumber consensusBlockNumber c =
     (case trigger_scan toView highestNumber (m_recvViewChangeReq c) of
        (idx_view_map, minView, min_height) \<Rightarrow>
          (let count = of_nat (length idx_view_map) :: IDXTYPE;
               flag = (min_height = consensusBlockNumber \<and>
                       min_height = height (m_committedPrepareCache c)) in
           (minView, count > maxInvalidNodeNum \<and> \<not> flag)))"

definition triggerViewChange :: "VIEWTYPE \<Rightarrow> int \<Rightarrow> req_cache \<Rightarrow> req_cache" where
  "triggerViewChange curView highestBlockNumber c =
     (let c1 = c\<lparr> m_rawPrepareCache := clear_msg (m_rawPrepareCache c),
                  m_prepareCache := clear_msg (m_prepareCache c) \<rparr>;
          c2 = fold (\<lambda>(h, _). removeInvalidCommitCache h curView) (m_commitCache c1) c1;
          c3 = fold (\<lambda>(h, _). removeInvalidSignCache h curView) (m_signCache c2) c2;
          c4 = c3\<lparr> m_signCache :=
                 filter (\<lambda>(h, _). map_of (m_commitCache c3) h \<noteq> None) (m_signCache c3) \<rparr>;
          c5 = removeInvalidFutureCache highestBlockNumber c4;
          c6 = c5\<lparr> m_futurePrepareCache :=
                 filter (\<lambda>(_, req). map_of (m_commitCache c5) (block_hash req) \<noteq> None)
                   (m_futurePrepareCache c5) \<rparr>
      in removeInvalidViewChange_view curView c6)"

definition eraseLatestViewChangeCacheForNodeUpdated :: "viewchange_req \<Rightarrow> req_cache \<Rightarrow> req_cache" where
  "eraseLatestViewChangeCacheForNodeUpdated req c =
     c\<lparr> m_latestViewChangeReqCache := AList.delete (idx req) (m_latestViewChangeReqCache c) \<rparr>"

section \<open>Committing and clearing\<close>

definition delCache :: "int \<Rightarrow> h256 \<Rightarrow> req_cache \<Rightarrow> req_cache" where
  "delCache n h c =
     (let c1 = c\<lparr> m_signCache := AList.delete h (m_signCache c),
                  m_commitCache := AList.delete h (m_commitCache c) \<rparr>;
          c2 = (if h = block_hash (m_prepareCache c1)
                then c1\<lparr> m_prepareCache := clear_msg (m_prepareCache c1) \<rparr> else c1)
      in removeInvalidFutureCache n c2)"

text \<open>
  The signature list of the block is built from the keys of the commit cache, decoded with
  \<^verbatim>\<open>fromHex\<close> (which does not throw here).
\<close>

definition hex_bytes :: "string \<Rightarrow> bytes" where
  "hex_bytes s = (case fromHex s False of Inl _ \<Rightarrow> [] | Inr bs \<Rightarrow> bs)"

definition generateAndSetSigList :: "block \<Rightarrow> IDXTYPE \<Rightarrow> req_cache \<Rightarrow> block \<times> bool" where
  "generateAndSetSigList b minSigSize c =
     (case map_of (m_commitCache c) (block_hash (m_prepareCache c)) of
        None \<Rightarrow> (b, False)
      | Some m \<Rightarrow>
          (let sig_list = map (\<lambda>(k, req). (ucast (idx req) :: u256, hex_bytes k)) m in
           if length sig_list < unat minSigSize then (b, False)
           else (setSigList sig_list b, True)))"

definition clearAllExceptCommitCache :: "req_cache \<Rightarrow> req_cache" where
  "clearAllExceptCommitCache c =
     c\<lparr> m_prepareCache := clear_msg (m_prepareCache c), m_signCache := [], m_recvViewChangeReq := [] \<rparr>"

definition clearAll :: "req_cache \<Rightarrow> req_cache" where
  "clearAll c =
     (clearAllExceptCommitCache
        (c\<lparr> m_rawPrepareCache := clear_msg (m_rawPrepareCache c), m_futurePrepareCache := [] \<rparr>))
     \<lparr> m_commitCache := [] \<rparr>"

section \<open>Two-level maps\<close>

text \<open>\<open>lookup2\<close> is what a two-level cache means; \<open>wf2\<close> is what makes its lists maps.\<close>

definition lookup2 :: "('a \<times> ('b \<times> 'c) list) list \<Rightarrow> 'a \<Rightarrow> 'b \<Rightarrow> 'c option" where
  "lookup2 c a b = (case map_of c a of None \<Rightarrow> None | Some m \<Rightarrow> map_of m b)"

definition wf2 :: "('a \<times> ('b \<times> 'c) list) list \<Rightarrow> bool" where
  "wf2 c \<longleftrightarrow> distinct (map fst c) \<and> (\<forall>a m. map_of c a = Some m \<longrightarrow> distinct (map fst m))"

definition filter_opt :: "('a \<Rightarrow> bool) \<Rightarrow> 'a option \<Rightarrow> 'a option" where
  "filter_opt P x = (case x of None \<Rightarrow> None | Some a \<Rightarrow> if P a then Some a else None)"

lemma filter_opt_eq_Some [simp]: "filter_opt P x = Some a \<longleftrightarrow> x = Some a \<and> P a"
  by (auto simp: filter_opt_def split: option.splits)

lemma filter_opt_simps [simp]:
  "filter_opt P None = None" "filter_opt P (Some a) = (if P a then Some a else None)"
  by (simp_all add: filter_opt_def)

lemma map_of_filter_key:
  "map_of (filter (\<lambda>(k, _). P k) xs) k = (if P k then map_of xs k else None)"
  by (induction xs) auto

lemma map_of_filter_val:
  "distinct (map fst xs) \<Longrightarrow> map_of (filter (\<lambda>(_, v). P v) xs) k = filter_opt P (map_of xs k)"
proof (induction xs)
  case (Cons x xs)
  then show ?case
    by (cases x) (auto simp: filter_opt_def map_of_eq_None_iff [symmetric] split: option.splits
        dest: map_of_SomeD intro: rev_image_eqI)
qed simp

lemma distinct_filter_fst: "distinct (map fst xs) \<Longrightarrow> distinct (map fst (filter P xs))"
  by (induction xs) auto

lemma map_fst_map_snd: "map fst (map (\<lambda>(k, m). (k, f k m)) xs) = map fst xs"
  by (induction xs) auto

lemma lookup2_Nil [simp]: "lookup2 [] a b = None"
  by (simp add: lookup2_def)

lemma wf2_Nil [simp]: "wf2 []"
  by (simp add: wf2_def)

lemma wf2_inner: "wf2 c \<Longrightarrow> map_of c a = Some m \<Longrightarrow> distinct (map fst m)"
  by (simp add: wf2_def)

lemma cacheExists_lookup2: "cacheExists c a b \<longleftrightarrow> lookup2 c a b \<noteq> None"
  by (auto simp: cacheExists_def lookup2_def split: option.splits)

lemma getSizeFromCache_card:
  assumes "wf2 c"
  shows "getSizeFromCache a c = card (dom (lookup2 c a))"
proof (cases "map_of c a")
  case (Some m)
  with assms have "distinct (map fst m)" by (rule wf2_inner)
  then have "card (dom (map_of m)) = length m"
    by (metis card_image distinct_card distinct_map dom_map_of_conv_image_fst length_map list.set_map)
  moreover have "lookup2 c a = map_of m" using Some by (auto simp: lookup2_def)
  ultimately show ?thesis using Some by (simp add: getSizeFromCache_def)
qed (simp add: getSizeFromCache_def lookup2_def dom_def)

lemma wf2_update:
  "wf2 c \<Longrightarrow> distinct (map fst m) \<Longrightarrow> wf2 (AList.update a m c)"
  by (auto simp: wf2_def update_conv' distinct_update split: if_splits)

lemma lookup2_update:
  "lookup2 (AList.update a m c) a' b = (if a' = a then map_of m b else lookup2 c a' b)"
  by (simp add: lookup2_def update_conv')

lemma wf2_delete: "wf2 c \<Longrightarrow> wf2 (AList.delete a c)"
  by (auto simp: wf2_def delete_conv' distinct_delete split: if_splits)

lemma lookup2_delete: "lookup2 (AList.delete a c) a' b = (if a' = a then None else lookup2 c a' b)"
  by (simp add: lookup2_def delete_conv')

lemma wf2_filter_key: "wf2 c \<Longrightarrow> wf2 (filter (\<lambda>(k, _). P k) c)"
  by (auto simp: wf2_def map_of_filter_key distinct_filter_fst split: if_splits)

lemma lookup2_filter_key:
  "lookup2 (filter (\<lambda>(k, _). P k) c) a b = (if P a then lookup2 c a b else None)"
  by (simp add: lookup2_def map_of_filter_key)

lemma wf2_removeInvalidEntry:
  assumes "wf2 c"
  shows "wf2 (removeInvalidEntryFromCache n h c)"
proof -
  let ?c = "map (\<lambda>(k, m). (k, filter (\<lambda>(_, req). valid_for n h req) m)) c"
  have "map fst ?c = map fst c" by (rule map_fst_map_snd)
  then have d: "distinct (map fst ?c)" using assms unfolding wf2_def by metis
  then have "distinct (map fst (removeInvalidEntryFromCache n h c))"
    unfolding removeInvalidEntryFromCache_def by (rule distinct_filter_fst)
  moreover have "distinct (map fst m)" if "map_of (removeInvalidEntryFromCache n h c) a = Some m" for a m
  proof -
    have "map_of ?c a = Some m"
      using that d by (simp add: removeInvalidEntryFromCache_def map_of_filter_val)
    then show ?thesis
      using wf2_inner [OF assms] by (auto simp: map_of_map intro: distinct_filter_fst)
  qed
  ultimately show ?thesis by (simp add: wf2_def)
qed

lemma lookup2_removeInvalidEntry [cache_simps]:
  assumes "wf2 c"
  shows "lookup2 (removeInvalidEntryFromCache n h c) a b = filter_opt (valid_for n h) (lookup2 c a b)"
proof -
  let ?c = "map (\<lambda>(k, m). (k, filter (\<lambda>(_, req). valid_for n h req) m)) c"
  have "map fst ?c = map fst c" by (rule map_fst_map_snd)
  then have d: "distinct (map fst ?c)" using assms unfolding wf2_def by metis
  have out: "map_of (removeInvalidEntryFromCache n h c) a =
      filter_opt (\<lambda>m. length m \<noteq> 0)
        (map_option (filter (\<lambda>(_, req). valid_for n h req)) (map_of c a))"
    unfolding removeInvalidEntryFromCache_def map_of_filter_val [OF d] by (simp add: map_of_map)
  show ?thesis
  proof (cases "map_of c a")
    case (Some m)
    have i: "map_of (filter (\<lambda>(_, req). valid_for n h req) m) b = filter_opt (valid_for n h) (map_of m b)"
      using wf2_inner [OF assms Some] by (rule map_of_filter_val)
    show ?thesis
    proof (cases "filter (\<lambda>(_, req). valid_for n h req) m = []")
      case True
      then have "filter_opt (valid_for n h) (map_of m b) = None" using i by simp
      with True Some show ?thesis by (simp add: lookup2_def out)
    qed (use Some i in \<open>simp add: lookup2_def out\<close>)
  qed (simp add: lookup2_def out)
qed

lemma wf2_removeInvalidViewOf: "wf2 c \<Longrightarrow> wf2 (removeInvalidViewOf k v c)"
  by (auto simp: removeInvalidViewOf_def split: option.splits
      intro!: wf2_update distinct_filter_fst dest: wf2_inner)

lemma lookup2_removeInvalidViewOf [cache_simps]:
  "wf2 c \<Longrightarrow> lookup2 (removeInvalidViewOf k v c) a b =
    (if a = k then filter_opt (\<lambda>r. view r = v) (lookup2 c a b) else lookup2 c a b)"
proof (cases "map_of c k")
  case (Some m)
  assume "wf2 c"
  with Some show ?thesis
    by (simp add: removeInvalidViewOf_def lookup2_update map_of_filter_val wf2_inner)
       (simp add: lookup2_def)
qed (simp add: removeInvalidViewOf_def lookup2_def)

lemma wf2_addReq: "wf2 c \<Longrightarrow> wf2 (addReq r c)"
  by (auto simp: addReq_def split: option.splits intro!: wf2_update distinct_update dest: wf2_inner)

lemma lookup2_addReq [cache_simps]:
  "lookup2 (addReq r c) a b =
    (if a = block_hash r \<and> b = toHex (sig r) then Some r else lookup2 c a b)"
  by (auto simp: addReq_def lookup2_update lookup2_def update_conv' split: option.splits)

lemma map_of_removeInvalidViewOf_eq_None [simp]:
  "map_of (removeInvalidViewOf k v c) a = None \<longleftrightarrow> map_of c a = None"
  by (auto simp: removeInvalidViewOf_def update_conv' split: option.splits)

section \<open>The invariant\<close>

text \<open>
  Every request is stored under its own block hash and signature (view and node index for view
  changes), the latest view change of a node is the one cached for its view, and the future cache is
  bounded.
\<close>

definition sig_wf :: "sig_cache \<Rightarrow> bool" where
  "sig_wf c \<longleftrightarrow> wf2 c \<and>
     (\<forall>h k r. lookup2 c h k = Some r \<longrightarrow> block_hash r = h \<and> toHex (sig r) = k)"

definition view_wf :: "view_cache \<Rightarrow> bool" where
  "view_wf c \<longleftrightarrow> wf2 c \<and> (\<forall>v i r. lookup2 c v i = Some r \<longrightarrow> view r = v \<and> idx r = i)"

definition latest_wf :: "(IDXTYPE \<times> viewchange_req) list \<Rightarrow> view_cache \<Rightarrow> bool" where
  "latest_wf l recv \<longleftrightarrow> distinct (map fst l) \<and>
     (\<forall>i r. map_of l i = Some r \<longrightarrow> idx r = i \<and>
        (\<forall>r'. lookup2 recv (view r) i = Some r' \<longrightarrow> r' = r))"

definition future_wf :: "(nat \<times> prepare_req) list \<Rightarrow> bool" where
  "future_wf f \<longleftrightarrow> distinct (map fst f) \<and> length f \<le> m_maxFuturePrepareCacheSize"

definition cache_inv :: "req_cache \<Rightarrow> bool" where
  "cache_inv c \<longleftrightarrow> sig_wf (m_signCache c) \<and> sig_wf (m_commitCache c) \<and>
     view_wf (m_recvViewChangeReq c) \<and>
     latest_wf (m_latestViewChangeReqCache c) (m_recvViewChangeReq c) \<and>
     future_wf (m_futurePrepareCache c)"

lemma cache_invD [dest]:
  assumes "cache_inv c"
  shows "sig_wf (m_signCache c)" "sig_wf (m_commitCache c)" "view_wf (m_recvViewChangeReq c)"
    "latest_wf (m_latestViewChangeReqCache c) (m_recvViewChangeReq c)"
    "future_wf (m_futurePrepareCache c)"
  using assms by (simp_all add: cache_inv_def)

lemma sig_wf_wf2 [dest]: "sig_wf c \<Longrightarrow> wf2 c"
  by (simp add: sig_wf_def)

lemma view_wf_wf2 [dest]: "view_wf c \<Longrightarrow> wf2 c"
  by (simp add: view_wf_def)

text \<open>Dropping entries keeps each part of the invariant.\<close>

lemma sig_wf_sub:
  "sig_wf c \<Longrightarrow> wf2 c' \<Longrightarrow> (\<And>h k r. lookup2 c' h k = Some r \<Longrightarrow> lookup2 c h k = Some r) \<Longrightarrow> sig_wf c'"
  unfolding sig_wf_def by blast

lemma view_wf_sub:
  "view_wf c \<Longrightarrow> wf2 c' \<Longrightarrow> (\<And>h k r. lookup2 c' h k = Some r \<Longrightarrow> lookup2 c h k = Some r) \<Longrightarrow> view_wf c'"
  unfolding view_wf_def by blast

lemma latest_wf_sub:
  "latest_wf l c \<Longrightarrow> distinct (map fst l') \<Longrightarrow> (\<And>i r. map_of l' i = Some r \<Longrightarrow> map_of l i = Some r) \<Longrightarrow>
   (\<And>h k r. lookup2 c' h k = Some r \<Longrightarrow> lookup2 c h k = Some r) \<Longrightarrow> latest_wf l' c'"
  unfolding latest_wf_def by blast

lemma latest_wf_distinct [dest]: "latest_wf l c \<Longrightarrow> distinct (map fst l)"
  by (simp add: latest_wf_def)

lemma future_wf_filter: "future_wf f \<Longrightarrow> future_wf (filter P f)"
  by (auto simp: future_wf_def distinct_filter_fst intro: le_trans [OF length_filter_le])

lemma future_wf_delete: "future_wf f \<Longrightarrow> future_wf (AList.delete k f)"
  using length_delete_le [of k f] by (auto simp: future_wf_def distinct_delete)

lemma sig_wf_removeInvalidEntry: "sig_wf c \<Longrightarrow> sig_wf (removeInvalidEntryFromCache n h c)"
  by (frule sig_wf_wf2, erule sig_wf_sub) (auto simp: cache_simps intro: wf2_removeInvalidEntry)

lemma view_wf_removeInvalidEntry: "view_wf c \<Longrightarrow> view_wf (removeInvalidEntryFromCache n h c)"
  by (frule view_wf_wf2, erule view_wf_sub) (auto simp: cache_simps intro: wf2_removeInvalidEntry)

lemma sig_wf_removeInvalidViewOf: "sig_wf c \<Longrightarrow> sig_wf (removeInvalidViewOf k v c)"
  by (frule sig_wf_wf2, erule sig_wf_sub)
     (auto simp: cache_simps intro: wf2_removeInvalidViewOf split: if_splits)

lemma sig_wf_delete: "sig_wf c \<Longrightarrow> sig_wf (AList.delete h c)"
  by (frule sig_wf_wf2, erule sig_wf_sub) (auto simp: lookup2_delete intro: wf2_delete split: if_splits)

lemma sig_wf_filter_key: "sig_wf c \<Longrightarrow> sig_wf (filter (\<lambda>(h, _). P h) c)"
  by (frule sig_wf_wf2, erule sig_wf_sub) (auto simp: lookup2_filter_key intro: wf2_filter_key split: if_splits)

lemma sig_wf_addReq: "sig_wf c \<Longrightarrow> sig_wf (addReq r c)"
  by (auto simp: sig_wf_def cache_simps intro: wf2_addReq split: if_splits)

lemma sig_wf_Nil [simp]: "sig_wf []" "view_wf []" "future_wf []"
  by (simp_all add: sig_wf_def view_wf_def future_wf_def)

lemma latest_wf_recv_Nil [simp]: "latest_wf l [] \<longleftrightarrow> distinct (map fst l) \<and> (\<forall>i r. map_of l i = Some r \<longrightarrow> idx r = i)"
  by (auto simp: latest_wf_def)

section \<open>Checking future requests\<close>

text \<open>What the walk does to the cache: it only marks requests whose signature it verified.\<close>

definition marks :: "(pbft_msg \<Rightarrow> bool) \<Rightarrow> 'k \<times> pbft_msg \<Rightarrow> 'k \<times> pbft_msg \<Rightarrow> bool" where
  "marks check x y \<longleftrightarrow> fst y = fst x \<and>
     (snd y = snd x \<or> check (snd x) \<and> snd y = (snd x)\<lparr> signChecked := True \<rparr>)"

lemma checkFuture_marks:
  "list_all2 (marks check) m (snd (checkFuture_loop check lim k n m))"
proof (induction m arbitrary: n)
  case (Cons x m)
  have refl: "list_all2 (marks check) xs xs" for xs :: "('a \<times> pbft_msg) list"
    by (simp add: list_all2_refl marks_def)
  show ?case
    using Cons refl by (cases x) (simp add: marks_def [of _ "(_, _)"] case_prod_beta Let_def)
qed simp

lemma marks_fst: "list_all2 (marks check) m m' \<Longrightarrow> map fst m' = map fst m"
  by (induction rule: list_all2_induct) (simp_all add: marks_def)

lemma marks_map_of:
  "list_all2 (marks check) m m' \<Longrightarrow> map_of m' k = Some r' \<Longrightarrow>
   \<exists>r. map_of m k = Some r \<and> (r' = r \<or> check r \<and> r' = r\<lparr> signChecked := True \<rparr>)"
  by (induction arbitrary: rule: list_all2_induct) (auto simp: marks_def split: if_splits)

lemma checkAndRemove_lookup2:
  assumes "wf2 c" and "checkAndRemoveInvalidFutureReq check h lim k c = (c', n)"
  shows "wf2 c'"
    and "lookup2 c' a b = Some r' \<Longrightarrow>
      \<exists>r. lookup2 c a b = Some r \<and> (r' = r \<or> check r \<and> r' = r\<lparr> signChecked := True \<rparr>)"
proof -
  have *: "wf2 c' \<and> (lookup2 c' a b = Some r' \<longrightarrow>
      (\<exists>r. lookup2 c a b = Some r \<and> (r' = r \<or> check r \<and> r' = r\<lparr> signChecked := True \<rparr>)))"
  proof (cases "map_of c h")
    case (Some m)
    define m' where "m' = snd (checkFuture_loop check lim (unat k) 0 m)"
    have mk: "list_all2 (marks check) m m'" unfolding m'_def by (rule checkFuture_marks)
    have "distinct (map fst m')" using marks_fst [OF mk] wf2_inner [OF assms(1) Some] by simp
    moreover have "c' = AList.delete h c \<or> c' = AList.update h m' c"
      using assms(2) Some by (auto simp: checkAndRemoveInvalidFutureReq_def m'_def Let_def split: prod.splits if_splits)
    moreover have "map_of m' b = Some r' \<Longrightarrow>
        \<exists>r. lookup2 c h b = Some r \<and> (r' = r \<or> check r \<and> r' = r\<lparr> signChecked := True \<rparr>)"
      using marks_map_of [OF mk] Some by (simp add: lookup2_def)
    ultimately show ?thesis
      using assms(1) by (auto simp: wf2_delete wf2_update lookup2_delete lookup2_update split: if_splits)
  qed (use assms in \<open>simp add: checkAndRemoveInvalidFutureReq_def\<close>)
  show "wf2 c'" using * by blast
  show "\<exists>r. lookup2 c a b = Some r \<and> (r' = r \<or> check r \<and> r' = r\<lparr> signChecked := True \<rparr>)"
    if "lookup2 c' a b = Some r'" using * that by blast
qed

lemma sig_wf_checkAndRemove:
  assumes "sig_wf c" "checkAndRemoveInvalidFutureReq check h lim k c = (c', n)"
  shows "sig_wf c'"
  unfolding sig_wf_def
proof (intro conjI allI impI)
  show "wf2 c'" using assms checkAndRemove_lookup2(1) by blast
  fix a b r' assume "lookup2 c' a b = Some r'"
  then obtain r where r: "lookup2 c a b = Some r" "r' = r \<or> r' = r\<lparr> signChecked := True \<rparr>"
    using checkAndRemove_lookup2(2) [OF _ assms(2)] assms(1) by blast
  have "block_hash r = a" "toHex (sig r) = b" using assms(1) r(1) by (auto simp: sig_wf_def)
  with r(2) show "block_hash r' = a" "toHex (sig r') = b" by auto
qed

text \<open>
  The size reported for commit requests counts the requests that are not future requests or whose
  signature is valid.
\<close>

lemma checkFuture_copy_unlimited:
  "length (fst (checkFuture_loop check False k n m)) =
   length (filter (\<lambda>(_, r). \<not> isFuture r \<or> signChecked r \<or> check r) m)"
proof (induction m arbitrary: n)
  case (Cons x m)
  then show ?case by (cases x) (simp add: case_prod_beta Let_def)
qed simp

section \<open>Effects of the view change cleanup\<close>

lemma fold_removeInvalidCommitCache:
  "fold (\<lambda>(h, _). removeInvalidCommitCache h v) xs c =
   c\<lparr> m_commitCache := fold (\<lambda>(h, _). removeInvalidViewOf h v) xs (m_commitCache c) \<rparr>"
  by (induction xs arbitrary: c) (auto simp: removeInvalidCommitCache_def)

lemma fold_removeInvalidSignCache:
  "fold (\<lambda>(h, _). removeInvalidSignCache h v) xs c =
   c\<lparr> m_signCache := fold (\<lambda>(h, _). removeInvalidViewOf h v) xs (m_signCache c) \<rparr>"
  by (induction xs arbitrary: c) (auto simp: removeInvalidSignCache_def)

lemma sig_wf_fold_removeInvalidViewOf:
  "sig_wf c \<Longrightarrow> sig_wf (fold (\<lambda>(h, _). removeInvalidViewOf h v) xs c)"
  by (induction xs arbitrary: c) (auto intro: sig_wf_removeInvalidViewOf)

lemma lookup2_fold_removeInvalidViewOf:
  "wf2 c \<Longrightarrow> lookup2 (fold (\<lambda>(h, _). removeInvalidViewOf h v) xs c) a b =
    (if a \<in> fst ` set xs then filter_opt (\<lambda>r. view r = v) (lookup2 c a b) else lookup2 c a b)"
proof (induction xs arbitrary: c)
  case (Cons x xs)
  then show ?case
    by (cases x) (auto simp: wf2_removeInvalidViewOf cache_simps filter_opt_def split: option.splits)
qed simp

lemma lookup2_Some_key: "lookup2 c a b = Some r \<Longrightarrow> a \<in> fst ` set c"
  by (auto simp: lookup2_def split: option.splits dest!: map_of_SomeD intro: rev_image_eqI)

lemma lookup2_fold_all:
  assumes "wf2 c"
  shows "lookup2 (fold (\<lambda>(h, _). removeInvalidViewOf h v) c c) a b =
    filter_opt (\<lambda>r. view r = v) (lookup2 c a b)"
  using assms lookup2_Some_key [of c a b]
  by (cases "lookup2 c a b") (auto simp: lookup2_fold_removeInvalidViewOf)

lemma map_of_fold_eq_None:
  "map_of (fold (\<lambda>(h, _). removeInvalidViewOf h v) xs c) a = None \<longleftrightarrow> map_of c a = None"
proof (induction xs arbitrary: c)
  case (Cons x xs)
  obtain h m where x: "x = (h, m)" by (cases x)
  show ?case
    using Cons.IH [of "removeInvalidViewOf h v c"]
    by (simp only: x fold.simps o_apply prod.case map_of_removeInvalidViewOf_eq_None)
qed simp

lemma triggerViewChange_fields:
  defines "vf \<equiv> \<lambda>v (c :: sig_cache). fold (\<lambda>(h, _). removeInvalidViewOf h v) c c"
  shows "m_committedPrepareCache (triggerViewChange v n c) = m_committedPrepareCache c"
    and "m_rawPrepareCache (triggerViewChange v n c) = clear_msg (m_rawPrepareCache c)"
    and "m_prepareCache (triggerViewChange v n c) = clear_msg (m_prepareCache c)"
    and "m_commitCache (triggerViewChange v n c) = vf v (m_commitCache c)"
    and "m_signCache (triggerViewChange v n c) =
      filter (\<lambda>(h, _). map_of (m_commitCache c) h \<noteq> None) (vf v (m_signCache c))"
    and "m_recvViewChangeReq (triggerViewChange v n c) =
      filter (\<lambda>(v', _). \<not> v' \<le> v) (m_recvViewChangeReq c)"
    and "m_latestViewChangeReqCache (triggerViewChange v n c) =
      filter (\<lambda>(_, req). \<not> view req \<le> v) (m_latestViewChangeReqCache c)"
    and "m_futurePrepareCache (triggerViewChange v n c) =
      filter (\<lambda>(_, req). map_of (m_commitCache c) (block_hash req) \<noteq> None)
        (filter (\<lambda>(k, _). \<not> k \<le> to_uint64 n) (m_futurePrepareCache c))"
  by (simp_all add: triggerViewChange_def Let_def removeInvalidViewChange_view_def
      removeInvalidFutureCache_def fold_removeInvalidCommitCache fold_removeInvalidSignCache vf_def
      map_of_fold_eq_None del: not_None_eq)

section \<open>Every operation keeps the invariant\<close>

lemma inv_empty: "cache_inv emptyReqCache"
  by (simp add: cache_inv_def emptyReqCache_def)

lemma inv_addRawPrepare: "cache_inv c \<Longrightarrow> cache_inv (addRawPrepare req c)"
  by (simp add: cache_inv_def addRawPrepare_def)

lemma inv_addPrepareReq: "cache_inv c \<Longrightarrow> cache_inv (addPrepareReq req c)"
  by (simp add: cache_inv_def addPrepareReq_def removeInvalidSignCache_def
      removeInvalidCommitCache_def sig_wf_removeInvalidViewOf)

lemma inv_addSignReq: "cache_inv c \<Longrightarrow> cache_inv (addSignReq req c)"
  by (simp add: cache_inv_def addSignReq_def sig_wf_addReq)

lemma inv_addCommitReq: "cache_inv c \<Longrightarrow> cache_inv (addCommitReq req c)"
  by (simp add: cache_inv_def addCommitReq_def sig_wf_addReq)

lemma inv_getSigCacheSize: "cache_inv c \<Longrightarrow> cache_inv (fst (getSigCacheSize check h n c))"
  by (auto simp: cache_inv_def getSigCacheSize_def Let_def split: prod.splits
      intro: sig_wf_checkAndRemove)

lemma inv_getCommitCacheSize: "cache_inv c \<Longrightarrow> cache_inv (fst (getCommitCacheSize check h n c))"
  by (auto simp: cache_inv_def getCommitCacheSize_def Let_def split: prod.splits
      intro: sig_wf_checkAndRemove)

lemma length_AList_update_le: "length (AList.update k v xs) \<le> Suc (length xs)"
  by (induction xs) auto

lemma inv_addFuturePrepareCache: "cache_inv c \<Longrightarrow> cache_inv (addFuturePrepareCache req c)"
  using length_AList_update_le [of "to_uint64 (height req)" req "m_futurePrepareCache c"]
  by (auto simp: cache_inv_def addFuturePrepareCache_def future_wf_def distinct_update
      split: option.splits)

lemma inv_eraseHandledFutureReq: "cache_inv c \<Longrightarrow> cache_inv (eraseHandledFutureReq n c)"
  by (simp add: cache_inv_def eraseHandledFutureReq_def future_wf_delete)

lemma inv_updateCommittedPrepare: "cache_inv c \<Longrightarrow> cache_inv (updateCommittedPrepare c)"
  by (simp add: cache_inv_def updateCommittedPrepare_def)

lemma inv_removeInvalidFutureCache: "cache_inv c \<Longrightarrow> cache_inv (removeInvalidFutureCache n c)"
  by (simp add: cache_inv_def removeInvalidFutureCache_def future_wf_filter)

lemma inv_delCache: "cache_inv c \<Longrightarrow> cache_inv (delCache n h c)"
  unfolding delCache_def Let_def
  by (rule inv_removeInvalidFutureCache) (simp add: cache_inv_def sig_wf_delete)

lemma latest_wf_filter_val:
  "latest_wf l c \<Longrightarrow> (\<And>h k r. lookup2 c' h k = Some r \<Longrightarrow> lookup2 c h k = Some r) \<Longrightarrow>
   latest_wf (filter (\<lambda>(_, r). P r) l) c'"
  by (frule latest_wf_distinct, erule latest_wf_sub)
     (auto simp: map_of_filter_val distinct_filter_fst simp del: map_of_eq_Some_iff)

lemma latest_wf_delete:
  "latest_wf l c \<Longrightarrow> (\<And>h k r. lookup2 c' h k = Some r \<Longrightarrow> lookup2 c h k = Some r) \<Longrightarrow>
   latest_wf (AList.delete i l) c'"
  by (frule latest_wf_distinct, erule latest_wf_sub)
     (auto simp: delete_conv' distinct_delete split: if_splits simp del: map_of_eq_Some_iff)

lemma inv_removeInvalidLatest: "cache_inv c \<Longrightarrow> cache_inv (removeInvalidLatestViewChangeReq n h c)"
  by (auto simp: cache_inv_def removeInvalidLatestViewChangeReq_def intro: latest_wf_filter_val)

lemma inv_collectGarbage:
  assumes "cache_inv c"
  shows "cache_inv (collectGarbage n h c)"
proof -
  have v: "wf2 (m_recvViewChangeReq c)" using assms by blast
  have l: "latest_wf (filter (\<lambda>(_, r). valid_for n h r) (m_latestViewChangeReqCache c))
      (removeInvalidEntryFromCache n h (m_recvViewChangeReq c))"
    using assms by (intro latest_wf_filter_val [where c = "m_recvViewChangeReq c"])
      (auto simp: lookup2_removeInvalidEntry [OF v])
  show ?thesis
    using assms l
    by (simp add: cache_inv_def collectGarbage_def Let_def removeInvalidFutureCache_def
        delInvalidViewChange_def removeInvalidLatestViewChangeReq_def sig_wf_removeInvalidEntry
        view_wf_removeInvalidEntry future_wf_filter)
qed

lemma recv_filter_view:
  assumes "view_wf c" "map_of c v = Some m"
  shows "view_wf (AList.update v (filter (\<lambda>(_, r). P r) m) c)"
    and "lookup2 (AList.update v (filter (\<lambda>(_, r). P r) m) c) a b = Some r \<Longrightarrow> lookup2 c a b = Some r"
proof -
  have d: "distinct (map fst m)" using wf2_inner [OF view_wf_wf2] assms .
  have sub: "lookup2 c a b = Some r"
    if "lookup2 (AList.update v (filter (\<lambda>(_, r). P r) m) c) a b = Some r" for a b r
  proof (cases "a = v")
    case True
    then have "map_of m b = Some r"
      using that by (simp add: lookup2_update map_of_filter_val [OF d] del: map_of_eq_Some_iff)
    with True assms(2) show ?thesis by (simp add: lookup2_def)
  qed (use that in \<open>simp add: lookup2_update\<close>)
  show "view_wf (AList.update v (filter (\<lambda>(_, r). P r) m) c)"
    by (rule view_wf_sub [OF assms(1)]) (use assms(1) d sub in \<open>auto intro: wf2_update distinct_filter_fst\<close>)
  show "lookup2 (AList.update v (filter (\<lambda>(_, r). P r) m) c) a b = Some r \<Longrightarrow> lookup2 c a b = Some r"
    by (rule sub)
qed

lemma inv_removeInvalidViewChange:
  assumes "cache_inv c"
  shows "cache_inv (removeInvalidViewChange v n h c)"
proof (cases "map_of (m_recvViewChangeReq c) v")
  case (Some m)
  have vw: "view_wf (m_recvViewChangeReq c)" using assms by blast
  let ?r = "AList.update v (filter (\<lambda>(_, req). valid_for n h req) m) (m_recvViewChangeReq c)"
  have "latest_wf (filter (\<lambda>(_, r). valid_for n h r) (m_latestViewChangeReqCache c)) ?r"
    using assms recv_filter_view(2) [OF vw Some]
    by (intro latest_wf_filter_val [where c = "m_recvViewChangeReq c"]) blast+
  with assms recv_filter_view(1) [OF vw Some] Some show ?thesis
    by (simp add: cache_inv_def removeInvalidViewChange_def removeInvalidLatestViewChangeReq_def)
qed (use assms in \<open>simp add: removeInvalidViewChange_def\<close>)

lemma inv_triggerViewChange:
  assumes "cache_inv c"
  shows "cache_inv (triggerViewChange v n c)"
proof -
  have "view_wf (filter (\<lambda>(v', _). \<not> v' \<le> v) (m_recvViewChangeReq c))"
    by (rule view_wf_sub [where c = "m_recvViewChangeReq c"])
       (use assms in \<open>auto simp: lookup2_filter_key intro!: wf2_filter_key split: if_splits\<close>)
  moreover have "latest_wf (filter (\<lambda>(_, req). \<not> view req \<le> v) (m_latestViewChangeReqCache c))
      (filter (\<lambda>(v', _). \<not> v' \<le> v) (m_recvViewChangeReq c))"
    using assms by (intro latest_wf_filter_val [where c = "m_recvViewChangeReq c"])
      (auto simp: lookup2_filter_key split: if_splits)
  ultimately show ?thesis
    using assms by (simp add: cache_inv_def triggerViewChange_fields sig_wf_filter_key
        sig_wf_fold_removeInvalidViewOf future_wf_filter)
qed

lemma inv_eraseLatest: "cache_inv c \<Longrightarrow> cache_inv (eraseLatestViewChangeCacheForNodeUpdated req c)"
  by (auto simp: cache_inv_def eraseLatestViewChangeCacheForNodeUpdated_def intro: latest_wf_delete)

lemma inv_clearAllExceptCommitCache: "cache_inv c \<Longrightarrow> cache_inv (clearAllExceptCommitCache c)"
  by (auto simp: cache_inv_def clearAllExceptCommitCache_def latest_wf_def)

lemma inv_clearAll: "cache_inv c \<Longrightarrow> cache_inv (clearAll c)"
  by (auto simp: cache_inv_def clearAll_def clearAllExceptCommitCache_def latest_wf_def)

section \<open>View change requests\<close>

text \<open>
  On a cache that satisfies the invariant the pointer comparison in \<^verbatim>\<open>eraseExpiredViewChange\<close> always
  succeeds: the request leaves both maps.
\<close>

lemma eraseExpired_cases:
  assumes "cache_inv c"
  obtains (same) "eraseExpiredViewChange i c = c"
      "\<And>vc. map_of (m_latestViewChangeReqCache c) i = Some vc \<Longrightarrow>
         lookup2 (m_recvViewChangeReq c) (view vc) i = None"
    | (erased) vc m where "map_of (m_latestViewChangeReqCache c) i = Some vc"
      "map_of (m_recvViewChangeReq c) (view vc) = Some m" "map_of m i = Some vc"
      "eraseExpiredViewChange i c =
        c\<lparr> m_recvViewChangeReq := AList.update (view vc) (AList.delete i m) (m_recvViewChangeReq c),
           m_latestViewChangeReqCache := AList.delete i (m_latestViewChangeReqCache c) \<rparr>"
proof (cases "map_of (m_latestViewChangeReqCache c) i")
  case None
  then show ?thesis by (intro same) (simp_all add: eraseExpiredViewChange_def)
next
  case (Some vc)
  show ?thesis
  proof (cases "lookup2 (m_recvViewChangeReq c) (view vc) i")
    case None
    with Some show ?thesis
      by (intro same) (auto simp: eraseExpiredViewChange_def lookup2_def split: option.splits)
  next
    case (Some vc')
    then obtain m where m: "map_of (m_recvViewChangeReq c) (view vc) = Some m" "map_of m i = Some vc'"
      by (auto simp: lookup2_def split: option.splits)
    have "latest_wf (m_latestViewChangeReqCache c) (m_recvViewChangeReq c)" using assms by blast
    with \<open>map_of (m_latestViewChangeReqCache c) i = Some vc\<close> Some have "vc' = vc"
      unfolding latest_wf_def by blast
    with m \<open>map_of (m_latestViewChangeReqCache c) i = Some vc\<close> show ?thesis
      by (intro erased [of vc m]) (simp_all add: eraseExpiredViewChange_def)
  qed
qed

lemma eraseExpired_recv:
  assumes "cache_inv c"
  shows "lookup2 (m_recvViewChangeReq (eraseExpiredViewChange i c)) v j =
    (if j = i \<and> (\<exists>vc. map_of (m_latestViewChangeReqCache c) i = Some vc \<and> v = view vc) then None
     else lookup2 (m_recvViewChangeReq c) v j)"
  using assms
proof (cases rule: eraseExpired_cases [of c i])
  case same
  then show ?thesis by auto
next
  case (erased vc m)
  then show ?thesis
    by (simp add: lookup2_update delete_conv') (simp add: lookup2_def)
qed

lemma inv_eraseExpired:
  assumes "cache_inv c"
  shows "cache_inv (eraseExpiredViewChange i c)"
  using assms
proof (cases rule: eraseExpired_cases [of c i])
  case same
  then show ?thesis using assms by simp
next
  case (erased vc m)
  let ?r = "AList.update (view vc) (AList.delete i m) (m_recvViewChangeReq c)"
  have sub: "lookup2 (m_recvViewChangeReq c) a b = Some r" if "lookup2 ?r a b = Some r" for a b r
  proof -
    have "m_recvViewChangeReq (eraseExpiredViewChange i c) = ?r" using erased(4) by simp
    then show ?thesis using eraseExpired_recv [OF assms, of i a b] that by (metis option.distinct(1))
  qed
  have vw: "view_wf (m_recvViewChangeReq c)" using assms by blast
  have "distinct (map fst m)" using wf2_inner [OF view_wf_wf2 [OF vw] erased(2)] .
  then have "view_wf ?r" using vw sub
    by (intro view_wf_sub [OF vw]) (auto intro: wf2_update distinct_delete)
  moreover have "latest_wf (AList.delete i (m_latestViewChangeReqCache c)) ?r"
    using assms sub by (intro latest_wf_delete [where c = "m_recvViewChangeReq c"]) blast+
  ultimately show ?thesis using assms erased(4) by (simp add: cache_inv_def)
qed

lemma inv_checkViewChangeReq: "cache_inv c \<Longrightarrow> cache_inv (fst (checkViewChangeReq req n c))"
  by (simp add: checkViewChangeReq_def inv_eraseExpired split: option.split)

lemma inv_insert_viewchange:
  fixes req :: viewchange_req
  assumes "cache_inv c"
  defines "m \<equiv> (case map_of (m_recvViewChangeReq c) (view req) of None \<Rightarrow> [] | Some m \<Rightarrow> m)"
  defines "c' \<equiv> c\<lparr> m_recvViewChangeReq :=
      AList.update (view req) (AList.update (idx req) req m) (m_recvViewChangeReq c),
    m_latestViewChangeReqCache := AList.update (idx req) req (m_latestViewChangeReqCache c) \<rparr>"
  shows "cache_inv c'"
    and "lookup2 (m_recvViewChangeReq c') v i =
      (if v = view req \<and> i = idx req then Some req else lookup2 (m_recvViewChangeReq c) v i)"
proof -
  have look: "lookup2 (m_recvViewChangeReq c') v i =
      (if v = view req \<and> i = idx req then Some req else lookup2 (m_recvViewChangeReq c) v i)" for v i
    by (auto simp: c'_def m_def lookup2_update lookup2_def update_conv' split: option.splits)
  have vw: "view_wf (m_recvViewChangeReq c)" and lw: "latest_wf (m_latestViewChangeReqCache c) (m_recvViewChangeReq c)"
    using assms(1) by blast+
  have "distinct (map fst m)"
    using wf2_inner [OF view_wf_wf2 [OF vw]] by (auto simp: m_def split: option.splits)
  then have "wf2 (m_recvViewChangeReq c')"
    using view_wf_wf2 [OF vw] by (simp add: c'_def wf2_update distinct_update)
  then have "view_wf (m_recvViewChangeReq c')"
    using vw by (simp add: view_wf_def look)
  moreover have "latest_wf (m_latestViewChangeReqCache c') (m_recvViewChangeReq c')"
    unfolding latest_wf_def look
  proof (intro conjI allI impI)
    show "distinct (map fst (m_latestViewChangeReqCache c'))"
      using lw by (auto simp: c'_def latest_wf_def distinct_update)
  next
    fix i r assume a: "map_of (m_latestViewChangeReqCache c') i = Some r"
    then have "i = idx req \<and> r = req \<or> i \<noteq> idx req \<and> map_of (m_latestViewChangeReqCache c) i = Some r"
      by (auto simp: c'_def update_conv' split: if_splits)
    then show "idx r = i" using lw unfolding latest_wf_def by blast
    fix r' assume "(if view r = view req \<and> i = idx req then Some req
      else lookup2 (m_recvViewChangeReq c) (view r) i) = Some r'"
    with \<open>i = idx req \<and> r = req \<or> _\<close> show "r' = r"
      using lw unfolding latest_wf_def by (auto split: if_splits)
  qed
  ultimately show "cache_inv c'" using assms(1) by (simp add: cache_inv_def c'_def)
  show "lookup2 (m_recvViewChangeReq c') v i =
      (if v = view req \<and> i = idx req then Some req else lookup2 (m_recvViewChangeReq c) v i)"
    by (rule look)
qed

lemma inv_addViewChangeReq:
  assumes "cache_inv c"
  shows "cache_inv (addViewChangeReq req n c)"
proof -
  have c1: "cache_inv (fst (checkViewChangeReq req n c))" using assms by (rule inv_checkViewChangeReq)
  show ?thesis
    using c1 inv_insert_viewchange(1) [OF inv_eraseExpired [OF c1]]
    by (simp add: addViewChangeReq_def Let_def case_prod_beta)
qed

section \<open>Counting the nodes that ask for a view change\<close>

text \<open>What the scan records: node \<open>i\<close> is in the map only with a request that qualifies.\<close>

definition qualifies :: "VIEWTYPE \<Rightarrow> int \<Rightarrow> view_cache \<Rightarrow> IDXTYPE \<Rightarrow> VIEWTYPE \<Rightarrow> bool" where
  "qualifies toView n recv i v \<longleftrightarrow> v > toView \<and> (\<exists>r. lookup2 recv v i = Some r \<and> height r \<ge> n)"

definition acc_ok :: "VIEWTYPE \<Rightarrow> int \<Rightarrow> view_cache \<Rightarrow> trigger_acc \<Rightarrow> bool" where
  "acc_ok toView n recv acc \<longleftrightarrow> (case acc of (ivm, minView, _) \<Rightarrow>
     distinct (map fst ivm) \<and> (\<forall>i v. map_of ivm i = Some v \<longrightarrow> qualifies toView n recv i v \<and> minView \<le> v) \<and>
     (minView = MAXVIEW \<and> ivm = [] \<or> (\<exists>i. qualifies toView n recv i minView)))"

lemma acc_ok_entry:
  assumes "acc_ok toView n recv acc" "v > toView" "lookup2 recv v i = Some r" "v \<le> MAXVIEW"
  shows "acc_ok toView n recv (trigger_entry n v (i, r) acc)"
proof -
  obtain ivm mv mh where acc: "acc = (ivm, mv, mh)" by (cases acc)
  show ?thesis
  proof (cases "(case map_of ivm i of None \<Rightarrow> True | Some v' \<Rightarrow> v > v') \<and> height r \<ge> n")
    case True
    have q: "qualifies toView n recv i v" using assms True by (auto simp: qualifies_def)
    have "mv = MAXVIEW \<and> ivm = [] \<or> (\<exists>i. qualifies toView n recv i mv)"
      using assms(1) by (simp add: acc_ok_def acc)
    then have "\<exists>i. qualifies toView n recv i (min mv v)" using q assms(4) by (auto simp: min_def)
    moreover have "qualifies toView n recv j w \<and> min mv v \<le> w"
      if "map_of (AList.update i v ivm) j = Some w" for j w
    proof -
      have "j = i \<and> w = v \<or> map_of ivm j = Some w"
        using that by (simp add: update_conv' split: if_splits)
      moreover have "qualifies toView n recv j w \<and> mv \<le> w" if "map_of ivm j = Some w"
        using assms(1) that by (simp add: acc_ok_def acc del: map_of_eq_Some_iff)
      ultimately show ?thesis using q by (auto intro: min.coboundedI1)
    qed
    ultimately show ?thesis
      using assms(1) True by (simp add: acc_ok_def trigger_entry_def acc distinct_update)
  qed (use assms(1) in \<open>auto simp: trigger_entry_def acc\<close>)
qed

lemma acc_ok_entries:
  assumes "v > toView" "v \<le> MAXVIEW" "\<And>i r. (i, r) \<in> set m \<Longrightarrow> lookup2 recv v i = Some r"
    and "acc_ok toView n recv acc"
  shows "acc_ok toView n recv (fold (trigger_entry n v) m acc)"
  using assms(3,4)
proof (induction m arbitrary: acc)
  case (Cons x m)
  have "acc_ok toView n recv (trigger_entry n v x acc)"
    using Cons.prems assms(1,2) by (cases x) (auto intro: acc_ok_entry)
  with Cons show ?case by simp
qed simp

lemma trigger_scan_ok:
  assumes "wf2 recv" and views: "\<And>v m. (v, m) \<in> set recv \<Longrightarrow> v \<le> MAXVIEW"
  shows "acc_ok toView n recv (trigger_scan toView n recv)"
proof -
  have "acc_ok toView n recv (fold (\<lambda>(v, m) acc. if v > toView then fold (trigger_entry n v) m acc else acc) xs acc)"
    if "acc_ok toView n recv acc" "set xs \<subseteq> set recv" for xs acc
    using that
  proof (induction xs arbitrary: acc)
    case (Cons x xs)
    obtain v m where x: "x = (v, m)" by (cases x)
    with Cons.prems have mem: "(v, m) \<in> set recv" by simp
    then have m: "map_of recv v = Some m" using assms(1) by (simp add: wf2_def)
    have "lookup2 recv v i = Some r" if "(i, r) \<in> set m" for i r
      using that m wf2_inner [OF assms(1) m] by (simp add: lookup2_def)
    then have "acc_ok toView n recv (if v > toView then fold (trigger_entry n v) m acc else acc)"
      using Cons.prems views [OF mem] by (auto intro: acc_ok_entries)
    with Cons x show ?case by simp
  qed simp
  moreover have "acc_ok toView n recv ([], MAXVIEW, 2 ^ 63 - 1)" by (simp add: acc_ok_def)
  ultimately show ?thesis by (simp add: trigger_scan_def)
qed

section \<open>The sign and commit caches as stores of signatures\<close>

text \<open>
  What the engine relies on when it counts votes: a store keeps, per block hash, one request per
  signature, the first one that arrived, and its size is the number of signatures.
\<close>

locale signature_store =
  fixes inv :: "'s \<Rightarrow> bool"
    and votes :: "'s \<Rightarrow> h256 \<Rightarrow> string \<Rightarrow> pbft_msg option"
    and add :: "pbft_msg \<Rightarrow> 's \<Rightarrow> 's"
    and count :: "'s \<Rightarrow> h256 \<Rightarrow> nat"
  assumes inv_add: "inv s \<Longrightarrow> inv (add r s)"
    and votes_add: "inv s \<Longrightarrow> votes (add r s) h k =
      (if h = block_hash r \<and> k = toHex (sig r) \<and> votes s h k = None then Some r else votes s h k)"
    and count_votes: "inv s \<Longrightarrow> count s h = card (dom (votes s h))"
begin

lemma inv_add_all: "inv s \<Longrightarrow> inv (fold add rs s)"
  by (induction rs arbitrary: s) (simp_all add: inv_add)

lemma votes_add_all:
  "inv s \<Longrightarrow> dom (votes (fold add rs s) h) =
    dom (votes s h) \<union> toHex ` {sig r | r. r \<in> set rs \<and> block_hash r = h}"
proof (induction rs arbitrary: s)
  case (Cons r rs)
  have "dom (votes (add r s) h) = dom (votes s h) \<union> toHex ` {sig x | x. x = r \<and> block_hash x = h}"
    using Cons.prems by (auto simp: votes_add dom_def split: if_splits)
  with Cons show ?case by (auto simp: inv_add)
qed auto

lemma first_vote_kept:
  "inv s \<Longrightarrow> votes s h k = Some r \<Longrightarrow> votes (fold add rs s) h k = Some r"
  by (induction rs arbitrary: s) (simp_all add: inv_add votes_add)

lemma count_distinct_signatures:
  assumes "inv s" "votes s h = Map.empty"
  shows "count (fold add rs s) h = card {sig r | r. r \<in> set rs \<and> block_hash r = h}"
proof -
  have "inj_on toHex {sig r | r. r \<in> set rs \<and> block_hash r = h}" by (simp add: inj_on_def)
  then show ?thesis
    using assms by (simp add: count_votes inv_add_all votes_add_all card_image)
qed

lemma count_order_irrelevant:
  assumes "inv s" "set rs = set rs'"
  shows "count (fold add rs s) h = count (fold add rs' s) h"
  using assms by (simp add: count_votes inv_add_all votes_add_all)

end

interpretation signStore: signature_store cache_inv "\<lambda>c. lookup2 (m_signCache c)" addSignReq
  "\<lambda>c h. getSizeFromCache h (m_signCache c)"
proof unfold_locales
  fix c r h k assume "cache_inv c"
  then show "lookup2 (m_signCache (addSignReq r c)) h k =
      (if h = block_hash r \<and> k = toHex (sig r) \<and> lookup2 (m_signCache c) h k = None then Some r
       else lookup2 (m_signCache c) h k)"
    by (auto simp: addSignReq_def cacheExists_lookup2 cache_simps)
qed (auto simp: getSizeFromCache_card sig_wf_wf2 intro: inv_addSignReq)

interpretation commitStore: signature_store cache_inv "\<lambda>c. lookup2 (m_commitCache c)" addCommitReq
  "\<lambda>c h. getSizeFromCache h (m_commitCache c)"
proof unfold_locales
  fix c r h k assume "cache_inv c"
  then show "lookup2 (m_commitCache (addCommitReq r c)) h k =
      (if h = block_hash r \<and> k = toHex (sig r) \<and> lookup2 (m_commitCache c) h k = None then Some r
       else lookup2 (m_commitCache c) h k)"
    by (auto simp: addCommitReq_def cacheExists_lookup2 cache_simps)
qed (auto simp: getSizeFromCache_card sig_wf_wf2 intro: inv_addCommitReq)

section \<open>Reachable caches\<close>

text \<open>The calls the engine makes on the cache, with their arguments.\<close>

datatype cache_op =
    AddRawPrepare prepare_req
  | AddPrepare prepare_req
  | AddSign sign_req
  | AddCommit commit_req
  | AddViewChange viewchange_req int
  | AddFuture prepare_req
  | EraseFuture nat
  | SigSize "pbft_msg \<Rightarrow> bool" h256 IDXTYPE
  | CommitSize "pbft_msg \<Rightarrow> bool" h256 IDXTYPE
  | UpdateCommitted
  | DelCache int h256
  | CollectGarbage int h256
  | RemoveInvalidViewChange VIEWTYPE int h256
  | TriggerViewChange VIEWTYPE int
  | EraseLatest viewchange_req
  | ClearAllExceptCommit
  | ClearAll

fun run_op :: "cache_op \<Rightarrow> req_cache \<Rightarrow> req_cache" where
  "run_op (AddRawPrepare r) c = addRawPrepare r c"
| "run_op (AddPrepare r) c = addPrepareReq r c"
| "run_op (AddSign r) c = addSignReq r c"
| "run_op (AddCommit r) c = addCommitReq r c"
| "run_op (AddViewChange r n) c = addViewChangeReq r n c"
| "run_op (AddFuture r) c = addFuturePrepareCache r c"
| "run_op (EraseFuture n) c = eraseHandledFutureReq n c"
| "run_op (SigSize check h n) c = fst (getSigCacheSize check h n c)"
| "run_op (CommitSize check h n) c = fst (getCommitCacheSize check h n c)"
| "run_op UpdateCommitted c = updateCommittedPrepare c"
| "run_op (DelCache n h) c = delCache n h c"
| "run_op (CollectGarbage n h) c = collectGarbage n h c"
| "run_op (RemoveInvalidViewChange v n h) c = removeInvalidViewChange v n h c"
| "run_op (TriggerViewChange v n) c = triggerViewChange v n c"
| "run_op (EraseLatest r) c = eraseLatestViewChangeCacheForNodeUpdated r c"
| "run_op ClearAllExceptCommit c = clearAllExceptCommitCache c"
| "run_op ClearAll c = clearAll c"

lemmas inv_ops = inv_addRawPrepare inv_addPrepareReq inv_addSignReq inv_addCommitReq
  inv_addViewChangeReq inv_addFuturePrepareCache inv_eraseHandledFutureReq inv_getSigCacheSize
  inv_getCommitCacheSize inv_updateCommittedPrepare inv_delCache inv_collectGarbage
  inv_removeInvalidViewChange inv_triggerViewChange inv_eraseLatest inv_clearAllExceptCommitCache
  inv_clearAll

lemma inv_run_op: "cache_inv c \<Longrightarrow> cache_inv (run_op op c)"
  by (cases op) (simp_all add: inv_ops)

lemma inv_run_ops: "cache_inv c \<Longrightarrow> cache_inv (fold run_op ops c)"
  by (induction ops arbitrary: c) (simp_all add: inv_run_op)

section \<open>Properties of the cache\<close>

text \<open>
  C24: every sequence of cache operations, from the empty cache of the constructor, leaves a cache in
  which each sign and commit request is stored under its own block hash and signature, each view
  change under its own view and node index, the latest view change of a node is the one cached for
  its view (so that the pointer comparison in \<^verbatim>\<open>eraseExpiredViewChange\<close> never fails), and at most ten
  future prepare requests are kept.
\<close>
theorem cache_ops_keep_invariant: "cache_inv (fold run_op ops emptyReqCache)"
  by (rule inv_run_ops) (rule inv_empty)

text \<open>
  The number of commit requests the cache reports for a block hash is the number of different
  signatures among the requests added for that hash, whatever the order of arrival and however often
  a request is repeated.
\<close>
theorem commit_cache_counts_signatures:
  assumes "cache_inv c" and "getSizeFromCache h (m_commitCache c) = 0"
  shows "getSizeFromCache h (m_commitCache (fold addCommitReq rs c)) =
    card (set (map sig (filter (\<lambda>r. block_hash r = h) rs)))"
proof -
  have "lookup2 (m_commitCache c) h =
      (case map_of (m_commitCache c) h of None \<Rightarrow> Map.empty | Some m \<Rightarrow> map_of m)"
    by (auto simp: lookup2_def fun_eq_iff split: option.splits)
  then have "finite (dom (lookup2 (m_commitCache c) h))"
    by (simp add: finite_dom_map_of split: option.splits)
  then have none: "lookup2 (m_commitCache c) h = Map.empty"
    using assms commitStore.count_votes [OF assms(1), of h] by simp
  have sigs: "set (map sig (filter (\<lambda>r. block_hash r = h) rs)) =
      {sig r | r. r \<in> set rs \<and> block_hash r = h}" by auto
  show ?thesis unfolding sigs by (rule commitStore.count_distinct_signatures [OF assms(1) none])
qed

theorem commit_cache_counts_signatures_witness:
  "getSizeFromCache 5 (m_commitCache (fold addCommitReq
     [emptyMsg\<lparr> block_hash := 5, sig := [1] \<rparr>, emptyMsg\<lparr> block_hash := 5, sig := [2] \<rparr>,
      emptyMsg\<lparr> block_hash := 5, sig := [1] \<rparr>] emptyReqCache)) = 2"
  using commit_cache_counts_signatures [OF inv_empty, of 5
      "[emptyMsg\<lparr> block_hash := 5, sig := [1] \<rparr>, emptyMsg\<lparr> block_hash := 5, sig := [2] \<rparr>,
        emptyMsg\<lparr> block_hash := 5, sig := [1] \<rparr>]"]
  by (simp add: getSizeFromCache_def emptyReqCache_def card_insert_if)

text \<open>
  After \<^verbatim>\<open>triggerViewChange\<close> both prepare caches are cleared and the committed prepare request
  is kept; the commit requests left are exactly those of the new view, the sign requests left are
  those of the new view whose hash also has an entry in the commit cache, and the view change
  requests left are exactly those for higher views.
\<close>
theorem view_change_cleanup:
  assumes "cache_inv c"
  shows "let c' = triggerViewChange v n c in
    m_committedPrepareCache c' = m_committedPrepareCache c \<and>
    block_hash (m_prepareCache c') = 0 \<and> height (m_prepareCache c') = -1 \<and>
    block_hash (m_rawPrepareCache c') = 0 \<and> height (m_rawPrepareCache c') = -1 \<and>
    lookup2 (m_commitCache c') h k = filter_opt (\<lambda>r. view r = v) (lookup2 (m_commitCache c) h k) \<and>
    lookup2 (m_signCache c') h k =
      (if map_of (m_commitCache c) h = None then None
       else filter_opt (\<lambda>r. view r = v) (lookup2 (m_signCache c) h k)) \<and>
    lookup2 (m_recvViewChangeReq c') w i =
      (if w \<le> v then None else lookup2 (m_recvViewChangeReq c) w i)"
proof -
  have "wf2 (m_commitCache c)" "wf2 (m_signCache c)" using assms(1) by blast+
  then show ?thesis
    unfolding Let_def triggerViewChange_fields
    by (simp add: lookup2_filter_key lookup2_fold_all clear_msg_def del: not_None_eq)
qed

theorem view_change_cleanup_witness:
  "lookup2 (m_commitCache (triggerViewChange 1 0 (addCommitReq (emptyMsg\<lparr> view := 1, block_hash := 5 \<rparr>)
      emptyReqCache))) 5 [] = Some (emptyMsg\<lparr> view := 1, block_hash := 5 \<rparr>)"
  using view_change_cleanup [OF inv_addCommitReq [OF inv_empty], of 1 0
      "emptyMsg\<lparr> view := 1, block_hash := 5 \<rparr>" 5 "[]" 0 0]
  by (simp add: Let_def addCommitReq_def emptyReqCache_def cacheExists_lookup2 cache_simps emptyMsg_def)

text \<open>
  \<^verbatim>\<open>collectGarbage\<close> removes from the sign, commit and view change caches exactly the requests
  below the highest block and those at its height that carry another block hash.
\<close>
theorem garbage_collected:
  assumes "cache_inv c"
  shows "lookup2 (m_signCache (collectGarbage n hash c)) h k =
      filter_opt (valid_for n hash) (lookup2 (m_signCache c) h k) \<and>
    lookup2 (m_commitCache (collectGarbage n hash c)) h k =
      filter_opt (valid_for n hash) (lookup2 (m_commitCache c) h k) \<and>
    lookup2 (m_recvViewChangeReq (collectGarbage n hash c)) v i =
      filter_opt (valid_for n hash) (lookup2 (m_recvViewChangeReq c) v i)"
proof -
  have "wf2 (m_commitCache c)" "wf2 (m_signCache c)" "wf2 (m_recvViewChangeReq c)"
    using assms by blast+
  then show ?thesis
    by (simp add: collectGarbage_def Let_def removeInvalidFutureCache_def delInvalidViewChange_def
        removeInvalidLatestViewChangeReq_def cache_simps)
qed

theorem garbage_collected_witness:
  "lookup2 (m_signCache (collectGarbage 7 9 (addSignReq (emptyMsg\<lparr> height := 7, block_hash := 5 \<rparr>)
      emptyReqCache))) 5 [] = None"
  using garbage_collected [OF inv_addSignReq [OF inv_empty], of 7 9 "emptyMsg\<lparr> height := 7, block_hash := 5 \<rparr>"
      5 "[]" 0 0]
  by (simp add: addSignReq_def emptyReqCache_def cacheExists_lookup2 cache_simps emptyMsg_def valid_for_def)



text \<open>
  A view change request that is accepted becomes the only cached request of its node for the
  view it names and the latest request of the node; the request it replaces leaves the cache, and
  the requests of other nodes stay as they are.  A request below the block number, or below the
  height or the view of the node's latest live request, changes nothing.
\<close>
theorem newest_view_change_kept:
  assumes "cache_inv c"
  shows "let c' = addViewChangeReq req n c; latest = map_of (m_latestViewChangeReqCache c) (idx req) in
    if height req < n \<or> (\<exists>vc. latest = Some vc \<and> n \<le> height vc \<and> (height req < height vc \<or> view req < view vc))
    then c' = c
    else lookup2 (m_recvViewChangeReq c') (view req) (idx req) = Some req \<and>
      map_of (m_latestViewChangeReqCache c') (idx req) = Some req \<and>
      (\<forall>vc. latest = Some vc \<longrightarrow> view vc = view req \<or>
         lookup2 (m_recvViewChangeReq c') (view vc) (idx req) = None) \<and>
      (\<forall>v i. i = idx req \<or> lookup2 (m_recvViewChangeReq c') v i = lookup2 (m_recvViewChangeReq c) v i)"
proof (cases "height req < n \<or> (\<exists>vc. map_of (m_latestViewChangeReqCache c) (idx req) = Some vc \<and>
    n \<le> height vc \<and> (height req < height vc \<or> view req < view vc))")
  case True
  then have "checkViewChangeReq req n c = (c, False)"
    by (auto simp: checkViewChangeReq_def split: option.splits)
  then have "addViewChangeReq req n c = c" by (simp add: addViewChangeReq_def)
  then show ?thesis using True by (simp add: Let_def)
next
  case False
  let ?i = "idx req"
  have li: "idx vc = ?i" if "map_of (m_latestViewChangeReqCache c) ?i = Some vc" for vc
    using assms that unfolding cache_inv_def latest_wf_def by blast
  obtain c1 where c1: "checkViewChangeReq req n c = (c1, True)" "c1 = c \<or> c1 = eraseExpiredViewChange ?i c"
  proof (cases "map_of (m_latestViewChangeReqCache c) ?i")
    case None
    with False that [of c] show ?thesis by (simp add: checkViewChangeReq_def)
  next
    case (Some vc)
    with False that [of "if height vc < n then eraseExpiredViewChange ?i c else c"] li [OF Some]
    show ?thesis by (auto simp: checkViewChangeReq_def)
  qed
  have i1: "cache_inv c1" using c1(2) assms inv_eraseExpired by auto
  define c2 where "c2 = eraseExpiredViewChange ?i c1"
  have i2: "cache_inv c2" unfolding c2_def using i1 by (rule inv_eraseExpired)
  note ins = inv_insert_viewchange(2) [OF i2, of req]
  have recv: "lookup2 (m_recvViewChangeReq (addViewChangeReq req n c)) v i =
      (if v = view req \<and> i = ?i then Some req else lookup2 (m_recvViewChangeReq c2) v i)" for v i
    using ins [of v i] by (simp add: addViewChangeReq_def c1(1) c2_def Let_def)
  have latest: "map_of (m_latestViewChangeReqCache (addViewChangeReq req n c)) ?i = Some req"
    by (simp add: addViewChangeReq_def c1(1) Let_def update_conv')
  have others: "lookup2 (m_recvViewChangeReq c2) v i = lookup2 (m_recvViewChangeReq c) v i" if "i \<noteq> ?i" for v i
    using that c1(2) eraseExpired_recv [OF assms, of ?i v i] eraseExpired_recv [OF i1, of ?i v i]
    by (auto simp: c2_def)
  have gone: "lookup2 (m_recvViewChangeReq c2) (view vc) ?i = None"
    if "map_of (m_latestViewChangeReqCache c) ?i = Some vc" for vc
    using that c1(2) eraseExpired_recv [OF assms, of ?i "view vc" ?i] eraseExpired_recv [OF i1, of ?i "view vc" ?i]
    by (auto simp: c2_def)
  have rest: "i = ?i \<or> (if v = view req \<and> i = ?i then Some req else lookup2 (m_recvViewChangeReq c2) v i) =
      lookup2 (m_recvViewChangeReq c) v i" for v i
    by (cases "i = ?i") (simp_all add: others)
  show ?thesis
    unfolding Let_def if_not_P [OF False] recv
    by (intro conjI allI impI rest) (simp_all add: latest gone)
qed

theorem newest_view_change_kept_witness:
  "lookup2 (m_recvViewChangeReq (addViewChangeReq (emptyMsg\<lparr> height := 3, view := 6, idx := 2 \<rparr>) 3
     (addViewChangeReq (emptyMsg\<lparr> height := 3, view := 5, idx := 2 \<rparr>) 3 emptyReqCache))) 5 2 = None"
proof -
  let ?r = "emptyMsg\<lparr> height := 3, view := 6, idx := 2 \<rparr>"
  let ?c = "addViewChangeReq (emptyMsg\<lparr> height := 3, view := 5, idx := 2 \<rparr>) 3 emptyReqCache"
  have inv: "cache_inv ?c" by (intro inv_addViewChangeReq inv_empty)
  have l: "map_of (m_latestViewChangeReqCache ?c) 2 = Some (emptyMsg\<lparr> height := 3, view := 5, idx := 2 \<rparr>)"
    by code_simp
  from newest_view_change_kept [OF inv, of ?r 3] l show ?thesis by (simp add: Let_def)
qed

lemmas sig_list_eval = generateAndSetSigList_def addCommitReq_def addReq_def cacheExists_def
  emptyReqCache_def emptyPrepare_def emptyMsg_def setSigList_def hex_bytes_def fromHex_toHex Let_def

text \<open>
  When \<^verbatim>\<open>generateAndSetSigList\<close> succeeds, the block carries one signature for every commit request
  cached for the prepared block, with the index of the node that sent it, and there are at least
  \<^verbatim>\<open>minSigSize\<close> of them; nothing else of the block changes.
\<close>
theorem sig_list_from_commit_cache:
  assumes "cache_inv c" and "generateAndSetSigList b minSigSize c = (b', True)"
  shows "b' = b\<lparr> sigList := sigList b' \<rparr> \<and> unat minSigSize \<le> length (sigList b') \<and>
    set (sigList b') = {(ucast (idx r), sig r) | r k.
      lookup2 (m_commitCache c) (block_hash (m_prepareCache c)) k = Some r}"
proof -
  let ?h = "block_hash (m_prepareCache c)"
  obtain m where m: "map_of (m_commitCache c) ?h = Some m"
    and b': "b' = setSigList (map (\<lambda>(k, r). (ucast (idx r), hex_bytes k)) m) b"
    and len: "unat minSigSize \<le> length m"
    using assms(2) by (auto simp: generateAndSetSigList_def Let_def split: option.splits if_splits)
  have d: "distinct (map fst m)" using wf2_inner [OF _ m] assms(1) by blast
  have look: "lookup2 (m_commitCache c) ?h k = Some r \<longleftrightarrow> (k, r) \<in> set m" for k r
    using m d by (simp add: lookup2_def)
  have key: "hex_bytes k = sig r" if "(k, r) \<in> set m" for k r
  proof -
    have "toHex (sig r) = k" using assms(1) that look [of k r] by (auto simp: cache_inv_def sig_wf_def)
    then show ?thesis by (auto simp: hex_bytes_def fromHex_toHex)
  qed
  have "set (map (\<lambda>(k, r). (ucast (idx r) :: u256, hex_bytes k)) m) =
      {(ucast (idx r), sig r) | r k. (k, r) \<in> set m}"
    using key by force
  then show ?thesis using b' len by (simp add: setSigList_def look)
qed

theorem sig_list_from_commit_cache_witness:
  "set (sigList (fst (generateAndSetSigList emptyBlock 1
      ((addCommitReq (emptyMsg\<lparr> idx := 3, sig := [9] \<rparr>) emptyReqCache))))) = {(3, [9])}"
proof -
  let ?r = "emptyMsg\<lparr> idx := 3, sig := [9] \<rparr>"
  let ?c = "addCommitReq ?r emptyReqCache"
  have gen: "generateAndSetSigList emptyBlock 1 ?c = (emptyBlock\<lparr> sigList := [(3, [9])] \<rparr>, True)"
    by (simp add: sig_list_eval)
  have "cache_inv ?c" by (intro inv_addCommitReq inv_empty)
  from sig_list_from_commit_cache [OF this gen] gen show ?thesis by simp
qed


end
