(* ===== verification/MsgCache.thy ===== *)
theory MsgCache
  imports PBFT_Msg
begin

text \<open>
  The broadcast cache of the engine: \<^verbatim>\<open>QueueSet\<close> (src/libdevcore/Common.h), a FIFO queue
  without duplicates, \<^verbatim>\<open>PBFTMsgCache\<close>, four such queues, one for each kind of PBFT packet, and
  \<^verbatim>\<open>PBFTBroadcastCache\<close>, one \<^verbatim>\<open>PBFTMsgCache\<close> for each peer
  (src/libconsensus/pbft/PBFTMsgCache.h).  The engine asks it before every send whether the peer
  has already been given the message.  The locale \<open>known_keys\<close> is the contract the engine
  relies on: a key is known right after it was marked, marking never forgets the keys of another
  peer or another packet type, and a fresh key outlives a bounded number of later insertions.
\<close>

section \<open>QueueSet\<close>

record 'a queue_set =
  m_set :: "'a set"
  m_queue :: "'a list"

definition emptyQueueSet :: "'a queue_set" where
  "emptyQueueSet = \<lparr>m_set = {}, m_queue = []\<rparr>"

definition qs_push :: "'a \<Rightarrow> 'a queue_set \<Rightarrow> 'a queue_set \<times> bool" where
  "qs_push t q = (if t \<notin> m_set q
     then (q\<lparr>m_set := insert t (m_set q), m_queue := m_queue q @ [t]\<rparr>, True)
     else (q, False))"

definition qs_pop :: "'a queue_set \<Rightarrow> 'a queue_set \<times> bool" where
  "qs_pop q = (case m_queue q of
     [] \<Rightarrow> (q, False)
   | t # ts \<Rightarrow> (q\<lparr>m_set := m_set q - {t}, m_queue := ts\<rparr>, True))"

definition qs_exist :: "'a \<Rightarrow> 'a queue_set \<Rightarrow> bool" where
  "qs_exist t q \<longleftrightarrow> t \<in> m_set q"

definition qs_size :: "'a queue_set \<Rightarrow> nat" where
  "qs_size q = card (m_set q)"

definition qs_clear :: "'a queue_set \<Rightarrow> 'a queue_set" where
  "qs_clear q = q\<lparr>m_set := {}, m_queue := []\<rparr>"

section \<open>PBFTMsgCache\<close>

record msg_cache =
  m_knownPrepare :: "string queue_set"
  m_knownSign :: "string queue_set"
  m_knownCommit :: "string queue_set"
  m_knownViewChange :: "string queue_set"

definition emptyMsgCache :: msg_cache where
  "emptyMsgCache = \<lparr>m_knownPrepare = emptyQueueSet, m_knownSign = emptyQueueSet,
     m_knownCommit = emptyQueueSet, m_knownViewChange = emptyQueueSet\<rparr>"

definition c_known :: nat where
  "c_known = 1024"

definition insertMessage :: "nat \<Rightarrow> 'a \<Rightarrow> 'a queue_set \<Rightarrow> 'a queue_set" where
  "insertMessage maxCacheSize key queue =
     (let q = (if qs_size queue > maxCacheSize then fst (qs_pop queue) else queue)
      in fst (qs_push key q))"

definition insertByPacketType :: "byte \<Rightarrow> string \<Rightarrow> msg_cache \<Rightarrow> msg_cache \<times> bool" where
  "insertByPacketType type key c =
     (if type = packet_code PrepareReqPacket
        then (c\<lparr>m_knownPrepare := insertMessage c_known key (m_knownPrepare c)\<rparr>, True)
      else if type = packet_code SignReqPacket
        then (c\<lparr>m_knownSign := insertMessage c_known key (m_knownSign c)\<rparr>, True)
      else if type = packet_code CommitReqPacket
        then (c\<lparr>m_knownCommit := insertMessage c_known key (m_knownCommit c)\<rparr>, True)
      else if type = packet_code ViewChangeReqPacket
        then (c\<lparr>m_knownViewChange := insertMessage c_known key (m_knownViewChange c)\<rparr>, True)
      else (c, False))"

definition existsByPacketType :: "byte \<Rightarrow> string \<Rightarrow> msg_cache \<Rightarrow> bool" where
  "existsByPacketType type key c =
     (if type = packet_code PrepareReqPacket then qs_exist key (m_knownPrepare c)
      else if type = packet_code SignReqPacket then qs_exist key (m_knownSign c)
      else if type = packet_code CommitReqPacket then qs_exist key (m_knownCommit c)
      else if type = packet_code ViewChangeReqPacket then qs_exist key (m_knownViewChange c)
      else False)"

definition msgCache_clearAll :: "msg_cache \<Rightarrow> msg_cache" where
  "msgCache_clearAll c = c\<lparr>m_knownPrepare := qs_clear (m_knownPrepare c),
     m_knownSign := qs_clear (m_knownSign c), m_knownCommit := qs_clear (m_knownCommit c),
     m_knownViewChange := qs_clear (m_knownViewChange c)\<rparr>"

section \<open>PBFTBroadcastCache\<close>

type_synonym broadcast_cache = "(h512 \<times> msg_cache) list"

definition insertKey :: "h512 \<Rightarrow> byte \<Rightarrow> string \<Rightarrow> broadcast_cache \<Rightarrow> broadcast_cache \<times> bool" where
  "insertKey nodeId type key c =
     (let m = (case map_of c nodeId of None \<Rightarrow> emptyMsgCache | Some m \<Rightarrow> m);
          (m', r) = insertByPacketType type key m
      in (AList.update nodeId m' c, r))"

definition keyExists :: "h512 \<Rightarrow> byte \<Rightarrow> string \<Rightarrow> broadcast_cache \<Rightarrow> bool" where
  "keyExists nodeId type key c =
     (case map_of c nodeId of None \<Rightarrow> False | Some m \<Rightarrow> existsByPacketType type key m)"

definition broadcastCache_clearAll :: "broadcast_cache \<Rightarrow> broadcast_cache" where
  "broadcastCache_clearAll c = map (\<lambda>(n, m). (n, msgCache_clearAll m)) c"

definition broadcastMark :: "h512 \<Rightarrow> byte \<Rightarrow> string \<Rightarrow> broadcast_cache \<Rightarrow> broadcast_cache" where
  "broadcastMark nodeId packetType key c =
     (if keyExists nodeId packetType key c then c else fst (insertKey nodeId packetType key c))"

section \<open>Invariant\<close>

definition qs_inv :: "'a queue_set \<Rightarrow> bool" where
  "qs_inv q \<longleftrightarrow> distinct (m_queue q) \<and> set (m_queue q) = m_set q"

definition qs_bounded :: "nat \<Rightarrow> 'a queue_set \<Rightarrow> bool" where
  "qs_bounded n q \<longleftrightarrow> qs_inv q \<and> qs_size q \<le> Suc n"

definition msg_cache_inv :: "msg_cache \<Rightarrow> bool" where
  "msg_cache_inv c \<longleftrightarrow> qs_bounded c_known (m_knownPrepare c) \<and> qs_bounded c_known (m_knownSign c)
     \<and> qs_bounded c_known (m_knownCommit c) \<and> qs_bounded c_known (m_knownViewChange c)"

definition broadcast_inv :: "broadcast_cache \<Rightarrow> bool" where
  "broadcast_inv c \<longleftrightarrow> (\<forall>n m. map_of c n = Some m \<longrightarrow> msg_cache_inv m)"

lemma qs_size_queue: "qs_inv q \<Longrightarrow> qs_size q = length (m_queue q)"
  by (metis distinct_card qs_inv_def qs_size_def)

lemma qs_exist_queue: "qs_inv q \<Longrightarrow> qs_exist t q \<longleftrightarrow> t \<in> set (m_queue q)"
  by (simp add: qs_exist_def qs_inv_def)

lemma qs_inv_empty [simp]: "qs_inv emptyQueueSet"
  by (simp add: qs_inv_def emptyQueueSet_def)

lemma qs_inv_push: "qs_inv q \<Longrightarrow> qs_inv (fst (qs_push t q))"
  by (auto simp: qs_inv_def qs_push_def)

lemma qs_inv_pop: "qs_inv q \<Longrightarrow> qs_inv (fst (qs_pop q))"
  by (cases "m_queue q") (auto simp: qs_inv_def qs_pop_def)

lemma qs_inv_insertMessage: "qs_inv q \<Longrightarrow> qs_inv (insertMessage n k q)"
  by (simp add: insertMessage_def Let_def qs_inv_push qs_inv_pop)

text \<open>The queue of the client's view: the same insertion on the plain list of keys.\<close>

definition keep_last :: "nat \<Rightarrow> 'a \<Rightarrow> 'a list \<Rightarrow> 'a list" where
  "keep_last n k xs =
     (let ys = (if length xs > n then tl xs else xs) in if k \<in> set ys then ys else ys @ [k])"

lemma queue_insertMessage:
  assumes "qs_inv q"
  shows "m_queue (insertMessage n k q) = keep_last n k (m_queue q)"
proof -
  have pop: "m_queue (fst (qs_pop q)) = tl (m_queue q)"
    by (cases "m_queue q") (simp_all add: qs_pop_def)
  have push: "qs_inv p \<Longrightarrow> m_queue (fst (qs_push k p)) = (if k \<in> set (m_queue p) then m_queue p else m_queue p @ [k])"
    for p by (auto simp: qs_push_def qs_inv_def)
  show ?thesis
    by (simp add: insertMessage_def keep_last_def Let_def qs_size_queue assms pop push qs_inv_pop)
qed

lemma length_keep_last: "length xs \<le> Suc n \<Longrightarrow> length (keep_last n k xs) \<le> Suc n"
  by (auto simp: keep_last_def Let_def)

lemma qs_bounded_insertMessage: "qs_bounded n q \<Longrightarrow> qs_bounded n (insertMessage n k q)"
  unfolding qs_bounded_def
  by (metis length_keep_last qs_inv_insertMessage qs_size_queue queue_insertMessage)

lemma qs_bounded_clear [simp]: "qs_bounded n (qs_clear q)"
  by (simp add: qs_bounded_def qs_inv_def qs_clear_def qs_size_def)

lemma qs_bounded_empty [simp]: "qs_bounded n emptyQueueSet"
  by (simp add: qs_bounded_def qs_size_def emptyQueueSet_def qs_inv_def)

section \<open>Recency\<close>

text \<open>
  A key that sits behind \<open>length xs\<close> others survives as many insertions as it takes to fill the
  queue and then to push those others out.
\<close>

lemma keep_last_slack:
  assumes "length (xs @ k # ys) \<le> Suc n" "m \<le> Suc n - length (xs @ k # ys) + length xs" "0 < m"
  shows "\<exists>xs' ys'. keep_last n j (xs @ k # ys) = xs' @ k # ys'
    \<and> length (xs' @ k # ys') \<le> Suc n
    \<and> m - 1 \<le> Suc n - length (xs' @ k # ys') + length xs'"
proof (cases "length (xs @ k # ys) > n")
  case True
  then obtain x xs1 where xs: "xs = x # xs1" using assms by (cases xs) auto
  show ?thesis
  proof (cases "j \<in> set (xs1 @ k # ys)")
    case True
    with \<open>length (xs @ k # ys) > n\<close> have "keep_last n j (xs @ k # ys) = xs1 @ k # ys"
      by (simp add: keep_last_def xs)
    then show ?thesis using assms xs by (intro exI [of _ xs1] exI [of _ ys]) auto
  next
    case False
    with \<open>length (xs @ k # ys) > n\<close> have "keep_last n j (xs @ k # ys) = xs1 @ k # (ys @ [j])"
      by (simp add: keep_last_def xs)
    then show ?thesis using assms xs by (intro exI [of _ xs1] exI [of _ "ys @ [j]"]) auto
  qed
next
  case False
  show ?thesis
  proof (cases "j \<in> set (xs @ k # ys)")
    case True
    then have "keep_last n j (xs @ k # ys) = xs @ k # ys"
      using False by (simp add: keep_last_def)
    then show ?thesis using assms by (intro exI [of _ xs] exI [of _ ys]) auto
  next
    case no: False
    then have "keep_last n j (xs @ k # ys) = xs @ k # (ys @ [j])"
      using False by (simp add: keep_last_def)
    then show ?thesis using assms False by (intro exI [of _ xs] exI [of _ "ys @ [j]"]) auto
  qed
qed

lemma fold_keep_last_slack:
  assumes "length (xs @ k # ys) \<le> Suc n" "length js \<le> Suc n - length (xs @ k # ys) + length xs"
  shows "k \<in> set (fold (keep_last n) js (xs @ k # ys))"
  using assms
proof (induction js arbitrary: xs ys)
  case (Cons j js)
  obtain xs' ys' where step: "keep_last n j (xs @ k # ys) = xs' @ k # ys'"
      "length (xs' @ k # ys') \<le> Suc n" "length js \<le> Suc n - length (xs' @ k # ys') + length xs'"
    using keep_last_slack [OF Cons.prems, of j] by auto
  have "k \<in> set (fold (keep_last n) js (xs' @ k # ys'))"
    by (rule Cons.IH) (use step in auto)
  then show ?case by (simp add: step(1))
qed simp

lemma keep_last_fresh:
  assumes "length zs \<le> Suc n" "k \<notin> set zs" "length js \<le> n"
  shows "k \<in> set (fold (keep_last n) js (keep_last n k zs))"
proof -
  let ?xs = "if length zs > n then tl zs else zs"
  have "k \<notin> set ?xs" using assms(2) by (cases zs) auto
  then have e: "keep_last n k zs = ?xs @ k # []" by (simp add: keep_last_def Let_def)
  have "length ?xs \<le> n" using assms(1) by auto
  then show ?thesis
    unfolding e using assms(3) by (intro fold_keep_last_slack) auto
qed

lemma fold_insertMessage:
  "qs_inv q \<Longrightarrow> qs_inv (fold (insertMessage n) js q)
     \<and> m_queue (fold (insertMessage n) js q) = fold (keep_last n) js (m_queue q)"
  by (induction js arbitrary: q) (simp_all add: qs_inv_insertMessage queue_insertMessage)

lemma insertMessage_recent:
  assumes "qs_bounded n q" "\<not> qs_exist k q" "length js \<le> n"
  shows "qs_exist k (fold (insertMessage n) js (insertMessage n k q))"
proof -
  have inv: "qs_inv q" and len: "length (m_queue q) \<le> Suc n" and new: "k \<notin> set (m_queue q)"
    using assms by (auto simp: qs_bounded_def qs_size_queue qs_exist_queue)
  show ?thesis
    using keep_last_fresh [OF len new assms(3)] inv
    by (simp add: qs_exist_queue fold_insertMessage qs_inv_insertMessage queue_insertMessage)
qed

lemma insertMessage_exists: "qs_inv q \<Longrightarrow> qs_exist k (insertMessage n k q)"
  by (auto simp: qs_exist_queue qs_inv_insertMessage queue_insertMessage keep_last_def Let_def)

section \<open>The cache of one peer\<close>

definition is_packet :: "byte \<Rightarrow> bool" where
  "is_packet t \<longleftrightarrow> t \<in> {packet_code PrepareReqPacket, packet_code SignReqPacket,
     packet_code CommitReqPacket, packet_code ViewChangeReqPacket}"

definition msg_queue :: "byte \<Rightarrow> msg_cache \<Rightarrow> string list" where
  "msg_queue t m =
     (if t = packet_code PrepareReqPacket then m_queue (m_knownPrepare m)
      else if t = packet_code SignReqPacket then m_queue (m_knownSign m)
      else if t = packet_code CommitReqPacket then m_queue (m_knownCommit m)
      else if t = packet_code ViewChangeReqPacket then m_queue (m_knownViewChange m)
      else [])"

definition peer_queue :: "h512 \<Rightarrow> byte \<Rightarrow> broadcast_cache \<Rightarrow> string list" where
  "peer_queue n t c = msg_queue t (case map_of c n of None \<Rightarrow> emptyMsgCache | Some m \<Rightarrow> m)"

lemma msg_cache_inv_empty [simp]: "msg_cache_inv emptyMsgCache"
  by (simp add: msg_cache_inv_def emptyMsgCache_def)

lemma msg_cache_inv_insert: "msg_cache_inv m \<Longrightarrow> msg_cache_inv (fst (insertByPacketType t k m))"
  by (simp add: msg_cache_inv_def insertByPacketType_def qs_bounded_insertMessage)

lemma broadcast_inv_insertKey:
  assumes "broadcast_inv c"
  shows "broadcast_inv (fst (insertKey n t k c))"
  using assms unfolding broadcast_inv_def insertKey_def Let_def
  by (auto simp: case_prod_beta update_conv' map_of_eq_None_iff split: option.splits if_splits
      intro!: msg_cache_inv_insert)

lemma broadcast_inv_mark: "broadcast_inv c \<Longrightarrow> broadcast_inv (broadcastMark n t k c)"
  by (simp add: broadcastMark_def broadcast_inv_insertKey)

lemma broadcast_inv_clearAll: "broadcast_inv (broadcastCache_clearAll c)"
proof -
  have "map_of (broadcastCache_clearAll c) n = map_option msgCache_clearAll (map_of c n)" for n
    by (simp add: broadcastCache_clearAll_def map_of_map)
  then show ?thesis
    by (auto simp: broadcast_inv_def msg_cache_inv_def msgCache_clearAll_def)
qed

lemma clearAll_forgets: "\<not> keyExists n t k (broadcastCache_clearAll c)"
proof -
  have "map_of (broadcastCache_clearAll c) n = map_option msgCache_clearAll (map_of c n)"
    by (simp add: broadcastCache_clearAll_def map_of_map)
  then show ?thesis
    by (simp add: keyExists_def existsByPacketType_def msgCache_clearAll_def qs_exist_def qs_clear_def
        split: option.split)
qed

lemma keyExists_queue:
  "broadcast_inv c \<Longrightarrow> keyExists n t k c \<longleftrightarrow> k \<in> set (peer_queue n t c)"
  by (auto simp: keyExists_def peer_queue_def msg_queue_def existsByPacketType_def broadcast_inv_def
      msg_cache_inv_def qs_bounded_def qs_exist_queue emptyMsgCache_def emptyQueueSet_def
      split: option.split)

lemma msg_queue_insert:
  "msg_cache_inv m \<Longrightarrow> is_packet t \<Longrightarrow> msg_queue t' (fst (insertByPacketType t k m)) =
     (if t' = t then keep_last c_known k (msg_queue t m) else msg_queue t' m)"
  by (auto simp: msg_queue_def insertByPacketType_def is_packet_def msg_cache_inv_def
      qs_bounded_def queue_insertMessage)

lemma peer_queue_insertKey:
  assumes "broadcast_inv c" "is_packet t"
  shows "peer_queue n' t' (fst (insertKey n t k c)) =
    (if n' = n \<and> t' = t then keep_last c_known k (peer_queue n t c) else peer_queue n' t' c)"
proof -
  have "msg_cache_inv (case map_of c n of None \<Rightarrow> emptyMsgCache | Some m \<Rightarrow> m)"
    using assms(1) by (auto simp: broadcast_inv_def split: option.split)
  from msg_queue_insert [OF this assms(2)] show ?thesis
    by (simp add: peer_queue_def insertKey_def Let_def case_prod_beta update_conv')
qed

lemma peer_queue_mark:
  assumes "broadcast_inv c" "is_packet t"
  shows "peer_queue n' t' (broadcastMark n t k c) =
    (if n' = n \<and> t' = t \<and> k \<notin> set (peer_queue n t c)
     then keep_last c_known k (peer_queue n t c) else peer_queue n' t' c)"
  using assms by (simp add: broadcastMark_def keyExists_queue peer_queue_insertKey)

section \<open>The contract the engine relies on\<close>

locale known_keys =
  fixes inv :: "'c \<Rightarrow> bool"
    and ok :: "'t \<Rightarrow> bool"
    and known :: "'n \<Rightarrow> 't \<Rightarrow> 'k \<Rightarrow> 'c \<Rightarrow> bool"
    and mark :: "'n \<Rightarrow> 't \<Rightarrow> 'k \<Rightarrow> 'c \<Rightarrow> 'c"
  assumes inv_mark: "inv c \<Longrightarrow> inv (mark n t k c)"
    and known_mark: "inv c \<Longrightarrow> ok t \<Longrightarrow> known n t k (mark n t k c)"
    and known_other: "inv c \<Longrightarrow> ok t \<Longrightarrow> n' \<noteq> n \<or> t' \<noteq> t \<Longrightarrow>
      known n' t' k' (mark n t k c) = known n' t' k' c"
begin

lemma inv_fold: "inv c \<Longrightarrow> inv (fold (\<lambda>n. mark n t k) ns c)"
  by (induction ns arbitrary: c) (simp_all add: inv_mark)

lemma known_fold_other:
  "inv c \<Longrightarrow> ok t \<Longrightarrow> n \<notin> set ns \<Longrightarrow>
     known n t k' (fold (\<lambda>n. mark n t k) ns c) = known n t k' c"
  by (induction ns arbitrary: c) (simp_all add: inv_mark known_other)

lemma known_fold:
  assumes "inv c" "ok t" "n \<in> set ns"
  shows "known n t k (fold (\<lambda>n. mark n t k) ns c)"
  using assms
proof (induction ns arbitrary: c)
  case (Cons m ns)
  show ?case
  proof (cases "n \<in> set ns")
    case True
    with Cons show ?thesis by (simp add: inv_mark)
  next
    case False
    with Cons show ?thesis by (auto simp: inv_mark known_fold_other known_mark)
  qed
qed simp

end

lemma keep_last_mem: "k \<in> set (keep_last n k xs)"
  by (simp add: keep_last_def Let_def)

interpretation broadcastKeys: known_keys broadcast_inv is_packet keyExists broadcastMark
proof
  fix c :: broadcast_cache and n n' :: h512 and t t' :: byte and k k' :: string
  assume c: "broadcast_inv c"
  show "broadcast_inv (broadcastMark n t k c)" using c by (rule broadcast_inv_mark)
  show "is_packet t \<Longrightarrow> keyExists n t k (broadcastMark n t k c)"
    using c by (simp add: keyExists_queue broadcast_inv_mark peer_queue_mark keep_last_mem)
  show "is_packet t \<Longrightarrow> n' \<noteq> n \<or> t' \<noteq> t \<Longrightarrow>
      keyExists n' t' k' (broadcastMark n t k c) = keyExists n' t' k' c"
    using c by (auto simp: keyExists_queue broadcast_inv_mark peer_queue_mark)
qed

section \<open>Memory of the broadcast cache\<close>

lemma peer_queue_marks:
  assumes "broadcast_inv c" "list_all (\<lambda>(n, t, k). is_packet t) ms"
  shows "\<exists>js. length js \<le> length ms \<and>
    peer_queue n t (fold (\<lambda>(n, t, k). broadcastMark n t k) ms c) =
    fold (keep_last c_known) js (peer_queue n t c)"
  using assms
proof (induction ms arbitrary: c)
  case (Cons m ms)
  obtain n1 t1 k1 where m: "m = (n1, t1, k1)" by (cases m) auto
  let ?c = "broadcastMark n1 t1 k1 c"
  obtain js where js: "length js \<le> length ms"
      "peer_queue n t (fold (\<lambda>(n, t, k). broadcastMark n t k) ms ?c) =
       fold (keep_last c_known) js (peer_queue n t ?c)"
    using Cons.IH [of ?c] Cons.prems by (auto simp: m broadcast_inv_mark)
  have "peer_queue n t ?c = keep_last c_known k1 (peer_queue n t c) \<or> peer_queue n t ?c = peer_queue n t c"
    using Cons.prems by (auto simp: m peer_queue_mark)
  then show ?case
    using js by (auto simp: m intro: exI [of _ "k1 # js"] exI [of _ js])
qed auto

lemma peer_queue_length:
  "broadcast_inv c \<Longrightarrow> length (peer_queue n t c) \<le> Suc c_known"
  using qs_size_queue
  by (fastforce simp: peer_queue_def msg_queue_def broadcast_inv_def msg_cache_inv_def
      qs_bounded_def emptyMsgCache_def emptyQueueSet_def split: option.split)

text \<open>
  A message that a peer has not been given yet is remembered, once marked, through the next
  1024 marks, whatever peers, packet types and keys those have: until then the engine does not send
  the same message to that peer again.
\<close>

theorem broadcast_memory:
  assumes "broadcast_inv c" "is_packet t" "\<not> keyExists n t k c"
    and "list_all (\<lambda>(n, t, k). is_packet t) ms" "length ms \<le> 1024"
  shows "keyExists n t k (fold (\<lambda>(n, t, k). broadcastMark n t k) ms (broadcastMark n t k c))"
proof -
  let ?c = "broadcastMark n t k c"
  have inv: "broadcast_inv (fold (\<lambda>(n, t, k). broadcastMark n t k) ms b)" if "broadcast_inv b" for b
    using that by (induction ms arbitrary: b) (auto simp: broadcast_inv_mark)
  obtain js where js: "length js \<le> length ms"
      "peer_queue n t (fold (\<lambda>(n, t, k). broadcastMark n t k) ms ?c) =
       fold (keep_last c_known) js (peer_queue n t ?c)"
    using peer_queue_marks [of ?c ms n t] assms broadcast_inv_mark by blast
  have new: "k \<notin> set (peer_queue n t c)" using assms by (simp add: keyExists_queue)
  have "k \<in> set (fold (keep_last c_known) js (keep_last c_known k (peer_queue n t c)))"
    using peer_queue_length [OF assms(1)] new js(1) assms(5)
    by (intro keep_last_fresh) (auto simp: c_known_def)
  then show ?thesis
    using assms new js(2) by (simp add: keyExists_queue inv broadcast_inv_mark peer_queue_mark)
qed

theorem broadcast_memory_witness:
  "keyExists 7 1 ''k'' (fold (\<lambda>(n, t, k). broadcastMark n t k) [(7, 1, ''a''), (9, 3, ''b'')]
     (broadcastMark 7 1 ''k'' []))"
  by (rule broadcast_memory)
    (simp_all add: broadcast_inv_def is_packet_def keyExists_def)

text \<open>
  The queues of known messages hold at most 1025 keys each, whatever was marked: one more than
  the limit the source names, since \<^verbatim>\<open>insertMessage\<close> drops a key only when the queue is already
  above the limit; and the bound is reached.
\<close>

theorem broadcast_bound:
  "(\<forall>ms n t. length (peer_queue n t (fold (\<lambda>(n, t, k). broadcastMark n t k) ms [])) \<le> 1025) \<and>
   (\<exists>ms. length (peer_queue 0 0 (fold (\<lambda>(n, t, k). broadcastMark n t k) ms [])) = 1025)"
proof (intro conjI allI)
  fix ms n t
  have "broadcast_inv (fold (\<lambda>(n, t, k). broadcastMark n t k) ms c)" if "broadcast_inv c" for c
    using that by (induction ms arbitrary: c) (auto simp: broadcast_inv_mark)
  from this [of "[]"] show "length (peer_queue n t (fold (\<lambda>(n, t, k). broadcastMark n t k) ms [])) \<le> 1025"
    using peer_queue_length [of "fold (\<lambda>(n, t, k). broadcastMark n t k) ms []" n t]
    by (simp add: broadcast_inv_def c_known_def)
next
  let ?key = "\<lambda>i::nat. replicate i CHR ''k''"
  let ?run = "\<lambda>i. fold (\<lambda>(n, t, k). broadcastMark n t k) (map (\<lambda>j. (0, 0, ?key j)) [0..<i]) []"
  have "i \<le> 1025 \<Longrightarrow> broadcast_inv (?run i) \<and> peer_queue 0 0 (?run i) = map ?key [0..<i]" for i
  proof (induction i)
    case (Suc i)
    have "?key i \<notin> set (map ?key [0..<i])" by auto
    then show ?case
      using Suc by (auto simp: broadcast_inv_mark peer_queue_mark is_packet_def keep_last_def c_known_def)
  qed (simp_all add: broadcast_inv_def peer_queue_def msg_queue_def emptyMsgCache_def emptyQueueSet_def)
  then have "length (peer_queue 0 0 (?run 1025)) = 1025" by simp
  then show "\<exists>ms. length (peer_queue 0 0 (fold (\<lambda>(n, t, k). broadcastMark n t k) ms [])) = 1025"
    by blast
qed

end
