(* ===== verification/TimeManager.thy ===== *)
theory TimeManager
  imports PBFT_Prelude
begin

text \<open>
  The timers of the engine, \<^verbatim>\<open>TimeManager\<close> (src/libconsensus/pbft/TimeManager.h): when the last
  block was agreed on, when enough signatures were last collected, when the last proposal arrived
  and when it was executed.  \<^verbatim>\<open>isTimeout\<close> decides from them, with an interval that grows by the
  factor 1.5 for each failed view change, whether the node asks for a view change.

  Clock readings are natural numbers and arguments of the operations.  The difference
  \<^verbatim>\<open>_now - last\<close> is taken at 64 bits without sign, as in the source.  The interval is computed
  there in double precision; \<^verbatim>\<open>pow(1.5, c)\<close> is the exact quotient of \<open>3 ^ c\<close> by \<open>2 ^ c\<close> for
  \<open>c \<le> 20\<close>, and the product is exact as long as \<open>viewTimeOut * 3 ^ c < 2 ^ 53\<close>, that is for every
  timeout below 29 minutes; the model computes the exact product, rounded down as the cast does.
\<close>

record time_manager =
  m_emptyBlockGenTime :: nat
  m_viewTimeout :: nat
  m_consensusTimeout :: nat
  m_changeCycle :: nat
  m_lastSignTime :: nat
  m_lastConsensusTime :: nat
  m_lastAddRawPrepareTime :: nat
  m_lastExecTime :: nat
  m_minBlockGenTime :: nat
  m_lastGarbageCollection :: nat

definition kMaxChangeCycle :: nat where
  "kMaxChangeCycle = 20"

definition CollectInterval :: nat where
  "CollectInterval = 60"

definition newTimeManager :: time_manager where
  "newTimeManager = \<lparr>m_emptyBlockGenTime = 1000, m_viewTimeout = 3000, m_consensusTimeout = 3000,
     m_changeCycle = 0, m_lastSignTime = 0, m_lastConsensusTime = 0, m_lastAddRawPrepareTime = 0,
     m_lastExecTime = 0, m_minBlockGenTime = 500, m_lastGarbageCollection = 0\<rparr>"

definition tm_resetConsensusTimeout :: "nat \<Rightarrow> time_manager \<Rightarrow> time_manager" where
  "tm_resetConsensusTimeout t tm = tm\<lparr>m_consensusTimeout := t\<rparr>"

definition initTimerManager :: "nat \<Rightarrow> nat \<Rightarrow> time_manager \<Rightarrow> time_manager" where
  "initTimerManager now view_timeout tm = tm\<lparr>
     m_lastAddRawPrepareTime := now, m_lastConsensusTime := now, m_lastExecTime := now,
     m_lastSignTime := 0, m_viewTimeout := view_timeout, m_changeCycle := 0,
     m_lastGarbageCollection := now\<rparr>"

definition tm_changeView :: "time_manager \<Rightarrow> time_manager" where
  "tm_changeView tm = tm\<lparr>m_lastConsensusTime := 0, m_lastSignTime := 0\<rparr>"

definition updateChangeCycle :: "time_manager \<Rightarrow> time_manager" where
  "updateChangeCycle tm = tm\<lparr>m_changeCycle := min (m_changeCycle tm + 1) kMaxChangeCycle\<rparr>"

definition timeout_interval :: "nat \<Rightarrow> nat \<Rightarrow> nat" where
  "timeout_interval viewTimeOut cycle = viewTimeOut * 3 ^ cycle div 2 ^ cycle"

definition isTimeout :: "nat \<Rightarrow> time_manager \<Rightarrow> bool" where
  "isTimeout now tm =
     (let maxConsensusTime = max (m_lastConsensusTime tm) (m_lastSignTime tm);
          (viewTimeOut, last) =
            (if m_lastAddRawPrepareTime tm > maxConsensusTime
                \<and> (m_lastConsensusTime tm \<noteq> 0 \<or> m_lastSignTime tm \<noteq> 0)
             then (if m_lastAddRawPrepareTime tm > m_lastExecTime tm
                   then (m_consensusTimeout tm, m_lastAddRawPrepareTime tm)
                   else (m_viewTimeout tm, m_lastExecTime tm))
             else (m_viewTimeout tm, maxConsensusTime));
          interval = timeout_interval viewTimeOut (m_changeCycle tm)
      in u64 (int now - int last) \<ge> int interval)"

text \<open>\<^verbatim>\<open>PBFTEngine::setMinBlockGenerationTime\<close>, \<^verbatim>\<open>reachMinBlockGenTime\<close> and
  \<^verbatim>\<open>reachBlockIntervalTime\<close> (PBFTEngine.h) only read and write the timers.\<close>

definition setMinBlockGenerationTime :: "nat \<Rightarrow> time_manager \<Rightarrow> time_manager" where
  "setMinBlockGenerationTime time tm =
     (if time < m_emptyBlockGenTime tm then tm\<lparr>m_minBlockGenTime := time\<rparr>
      else tm\<lparr>m_minBlockGenTime := (m_emptyBlockGenTime tm + 2 ^ 32 - 1) mod 2 ^ 32\<rparr>)"

definition reachMinBlockGenTime :: "nat \<Rightarrow> time_manager \<Rightarrow> bool" where
  "reachMinBlockGenTime now tm =
     (u64 (int now - int (m_lastConsensusTime tm)) \<ge> int (m_minBlockGenTime tm))"

definition reachBlockIntervalTime :: "nat \<Rightarrow> time_manager \<Rightarrow> bool" where
  "reachBlockIntervalTime now tm =
     (u64 (int now - int (m_lastConsensusTime tm)) \<ge> int (m_emptyBlockGenTime tm))"

section \<open>Facts\<close>

definition tm_inv :: "time_manager \<Rightarrow> bool" where
  "tm_inv tm \<longleftrightarrow> m_changeCycle tm \<le> kMaxChangeCycle"

lemma tm_inv_updateChangeCycle [simp]: "tm_inv (updateChangeCycle tm)"
  by (simp add: tm_inv_def updateChangeCycle_def)

lemma timeout_interval_ge: "v \<le> timeout_interval v c"
proof -
  have "v * 2 ^ c \<le> v * 3 ^ c" by (simp add: power_mono)
  then have "v * 2 ^ c div 2 ^ c \<le> v * 3 ^ c div 2 ^ c" by (rule div_le_mono)
  then show ?thesis by (simp add: timeout_interval_def)
qed

lemma timeout_interval_Suc: "timeout_interval v c \<le> timeout_interval v (Suc c)"
proof -
  have "v * 3 ^ c div 2 ^ c = (v * 3 ^ c * 2) div (2 ^ c * 2)" by simp
  also have "\<dots> = (v * 3 ^ c * 2) div 2 ^ Suc c" by (simp add: mult.commute)
  also have "\<dots> \<le> v * 3 ^ Suc c div 2 ^ Suc c" by (rule div_le_mono) simp
  finally show ?thesis by (simp add: timeout_interval_def)
qed

lemma timeout_interval_mono: "c \<le> d \<Longrightarrow> timeout_interval v c \<le> timeout_interval v d"
  by (rule lift_Suc_mono_le [of "timeout_interval v"]) (rule timeout_interval_Suc)

lemma timeout_interval_mono_timeout: "v \<le> w \<Longrightarrow> timeout_interval v c \<le> timeout_interval w c"
  by (simp add: timeout_interval_def div_le_mono)

lemma timeout_interval_le:
  assumes "c \<le> kMaxChangeCycle"
  shows "timeout_interval v c \<le> 3326 * v"
proof -
  have "timeout_interval v c \<le> timeout_interval v 20"
    using assms by (intro timeout_interval_mono) (simp add: kMaxChangeCycle_def)
  also have "\<dots> \<le> (3326 * v) * 2 ^ 20 div 2 ^ 20"
    unfolding timeout_interval_def by (rule div_le_mono) simp
  finally show ?thesis by simp
qed

lemma u64_diff: "l \<le> n \<Longrightarrow> n < 2 ^ 64 \<Longrightarrow> u64 (int n - int l) = int (n - l)"
  by (simp add: u64_def of_nat_diff)

text \<open>
  The timer is neither too eager nor stuck.  Let all recorded times lie in the past.  If less
  than the smaller of the two configured timeouts has passed since the last agreed block or the
  last full set of signatures, no timeout is reported.  If more than 3326 times the larger of the
  two (1.5 to the power 20, rounded up) has passed since the latest recorded event, a timeout is
  reported, however many view changes have failed before.
\<close>

theorem timeout_bounds:
  assumes "now < 2 ^ 64" "tm_inv tm"
    and "m_lastConsensusTime tm \<le> now" "m_lastSignTime tm \<le> now"
        "m_lastAddRawPrepareTime tm \<le> now" "m_lastExecTime tm \<le> now"
  shows "(now - max (m_lastConsensusTime tm) (m_lastSignTime tm)
            < min (m_viewTimeout tm) (m_consensusTimeout tm) \<longrightarrow> \<not> isTimeout now tm) \<and>
    (Max {m_lastConsensusTime tm, m_lastSignTime tm, m_lastAddRawPrepareTime tm, m_lastExecTime tm}
       + 3326 * max (m_viewTimeout tm) (m_consensusTimeout tm) \<le> now \<longrightarrow> isTimeout now tm)"
proof -
  have c: "m_changeCycle tm \<le> kMaxChangeCycle" using assms(2) by (simp add: tm_inv_def)
  note ge = timeout_interval_ge [of "m_viewTimeout tm" "m_changeCycle tm"]
    timeout_interval_ge [of "m_consensusTimeout tm" "m_changeCycle tm"]
  note le = timeout_interval_le [OF c, of "m_viewTimeout tm"]
    timeout_interval_le [OF c, of "m_consensusTimeout tm"]
  show ?thesis
    using assms(1,3-) ge le
    by (auto simp: isTimeout_def Let_def u64_diff simp del: of_nat_le_iff)
qed

theorem timeout_bounds_witness:
  "\<not> isTimeout 3999 (newTimeManager\<lparr>m_lastConsensusTime := 1000\<rparr>) \<and>
   isTimeout 9979000 (newTimeManager\<lparr>m_lastConsensusTime := 1000\<rparr>)"
  using timeout_bounds [of 3999 "newTimeManager\<lparr>m_lastConsensusTime := 1000\<rparr>"]
    timeout_bounds [of 9979000 "newTimeManager\<lparr>m_lastConsensusTime := 1000\<rparr>"]
  by (simp add: newTimeManager_def tm_inv_def kMaxChangeCycle_def)

text \<open>
  After \<^verbatim>\<open>changeView\<close> (the fast view change that follows an empty block or enough
  view-change requests) the node times out at once: the timer compares the absolute clock with the
  interval, whatever the proposals received and executed before.
\<close>

theorem fast_view_change_times_out:
  assumes "now < 2 ^ 64"
  shows "isTimeout now (tm_changeView tm)
    \<longleftrightarrow> timeout_interval (m_viewTimeout tm) (m_changeCycle tm) \<le> now"
  using assms by (simp add: isTimeout_def tm_changeView_def u64_diff [of 0, simplified])

theorem fast_view_change_times_out_witness:
  "isTimeout 5000 (tm_changeView (newTimeManager\<lparr>m_lastConsensusTime := 4999\<rparr>))"
  using fast_view_change_times_out [of 5000 "newTimeManager\<lparr>m_lastConsensusTime := 4999\<rparr>"]
  by (simp add: newTimeManager_def timeout_interval_def)

end
