(* ===== verification/EngineSend.thy ===== *)
theory EngineSend
  imports EngineBase ReqCache MsgCache TimeManager
begin

text \<open>
  The state of \<^verbatim>\<open>PBFTEngine\<close> (src/libconsensus/pbft/PBFTEngine.h) and the functions with which it
  sends, broadcasts and forwards messages (PBFTEngine.cpp).

  The callbacks that the sealer registers are flags (registered or not), and calling one is an
  effect.  \<open>m_threadPool\<close> is the queue of the single background thread: what its tasks read, they
  read when they run.  \<open>m_backupDB\<close> is the content of the key-value store, once opened.  The
  structure for proposals that carry only transaction hashes (\<^verbatim>\<open>m_enablePrepareWithTxsHash\<close>, off by
  default) is not part of the state.

  Messages are encoded with the RLP writer; \<open>encoded\<close> reads its result, which is never an exception
  for messages below \<open>2 ^ 64\<close> bytes.
\<close>

section \<open>State\<close>

datatype task = BroadcastPrepare prepare_req | BackupCommitted

record pbft_engine = consensus_base +
  m_view :: VIEWTYPE
  m_toView :: VIEWTYPE
  m_leaderFailed :: bool
  m_notifyNextLeaderSeal :: bool
  m_backupDB :: "(string \<times> string) list option"
  m_broadCastCache :: broadcast_cache
  m_reqCache :: req_cache
  m_timeManager :: time_manager
  m_msgQueue :: "pbft_msg_packet list"
  m_onViewChange :: bool
  m_onNotifyNextLeaderReset :: bool
  m_onTimeout :: bool
  m_onCommitBlock :: bool
  m_fastViewChange :: bool
  maxTTL :: byte
  m_viewMap :: "(IDXTYPE \<times> VIEWTYPE) list"
  m_sealingNumber :: nat
  m_threadPool :: "task list"
  m_enableTTLOptimize :: bool
  m_consensusSet :: "h512 list"
  m_cachedForwardMsg :: "(h256 \<times> (int \<times> pbft_msg_packet)) list"

abbreviation on_cache :: "(req_cache \<Rightarrow> req_cache) \<Rightarrow> pbft_engine \<Rightarrow> pbft_engine" where
  "on_cache f e \<equiv> e\<lparr>m_reqCache := f (m_reqCache e)\<rparr>"

abbreviation on_timer :: "(time_manager \<Rightarrow> time_manager) \<Rightarrow> pbft_engine \<Rightarrow> pbft_engine" where
  "on_timer f e \<equiv> e\<lparr>m_timeManager := f (m_timeManager e)\<rparr>"

definition encoded :: "'e + bytes \<Rightarrow> bytes" where
  "encoded r = (case r of Inl _ \<Rightarrow> [] | Inr bs \<Rightarrow> bs)"

section \<open>Who is who\<close>

definition getIndexBySealer :: "h512 \<Rightarrow> 'a consensus_base_scheme \<Rightarrow> int" where
  "getIndexBySealer n e = (case find_index n (m_sealerList e) of None \<Rightarrow> -1 | Some i \<Rightarrow> int i)"

definition getNodeIDByIndex :: "IDXTYPE \<Rightarrow> 'a consensus_base_scheme \<Rightarrow> h512 option" where
  "getNodeIDByIndex i e =
     (let n = getSealerByIndex (unat i) e in if n = 0 then None else Some n)"

definition checkSign :: "crypto_api \<Rightarrow> 'a consensus_base_scheme \<Rightarrow> 'b pbft_msg_scheme \<Rightarrow> bool" where
  "checkSign cr e req =
     (case getNodeIDByIndex (idx req) e of
        None \<Rightarrow> False
      | Some n \<Rightarrow> Verify cr n (sig req) (block_hash req) \<and>
                  Verify cr n (sig2 req) (fieldsWithoutBlock cr req))"

definition checkSign_idx :: "crypto_api \<Rightarrow> 'a consensus_base_scheme \<Rightarrow> IDXTYPE \<Rightarrow> h256 \<Rightarrow> bytes \<Rightarrow> bool" where
  "checkSign_idx cr e i h s =
     (case getNodeIDByIndex i e of None \<Rightarrow> False | Some n \<Rightarrow> Verify cr n s h)"

section \<open>Packets\<close>

definition newPacket :: "engine_env \<Rightarrow> pbft_engine \<Rightarrow> pbft_msg_packet" where
  "newPacket env e =
     (if m_enableTTLOptimize e then emptyOPacket (utcTime env) else emptyPacket (utcTime env))"

definition packetBytes :: "pbft_engine \<Rightarrow> pbft_msg_packet \<Rightarrow> bytes" where
  "packetBytes e p = encoded (ebind (if m_enableTTLOptimize e then opacket_encode p else packet_encode p)
     (\<lambda>(_, bs). Inr bs))"

definition createPBFTMsgPacket :: "engine_env \<Rightarrow> pbft_engine \<Rightarrow> bytes \<Rightarrow> byte \<Rightarrow> nat \<Rightarrow> h512 list option \<Rightarrow> pbft_msg_packet" where
  "createPBFTMsgPacket env e d packetType t fwd =
     (let p = (newPacket env e)\<lparr>pkt_data := d, packet_id := packetType,
                 ttl := (if t = 0 then maxTTL e else of_nat t)\<rparr>
      in case fwd of
           Some ns \<Rightarrow> if ns \<noteq> [] then p\<lparr>forwardNodes := Some ns\<rparr> else p
         | None \<Rightarrow> p)"

definition transDataToMessage :: "engine_env \<Rightarrow> pbft_engine \<Rightarrow> bytes \<Rightarrow> byte \<Rightarrow> nat \<Rightarrow> h512 list option \<Rightarrow> bytes" where
  "transDataToMessage env e d packetType t fwd = packetBytes e (createPBFTMsgPacket env e d packetType t fwd)"

text \<open>\<^verbatim>\<open>getForwardNodes\<close>: the consensus nodes this node has no session with, in the order of the set.\<close>

definition getForwardNodes :: "engine_env \<Rightarrow> pbft_engine \<Rightarrow> h512 list option" where
  "getForwardNodes env e =
     (let ns = filter (\<lambda>n. n \<notin> set (sessions env) \<and> n \<noteq> kp_pub (m_keyPair e)) (m_consensusSet e)
      in if ns \<noteq> [] then Some ns else None)"

section \<open>Sending\<close>

definition broadcastFilter :: "h512 \<Rightarrow> byte \<Rightarrow> string \<Rightarrow> pbft_engine \<Rightarrow> bool" where
  "broadcastFilter n packetType key e = keyExists n packetType key (m_broadCastCache e)"

definition clearMask :: "pbft_engine \<Rightarrow> pbft_engine" where
  "clearMask e = e\<lparr>m_broadCastCache := broadcastCache_clearAll (m_broadCastCache e)\<rparr>"

definition sendMsg :: "engine_env \<Rightarrow> h512 \<Rightarrow> byte \<Rightarrow> string \<Rightarrow> bytes \<Rightarrow> nat \<Rightarrow> h512 list option \<Rightarrow> pbft_engine \<Rightarrow> pbft_engine \<times> bool" where
  "sendMsg env n packetType key d t fwd e =
     (if getIndexBySealer n e < 0 then (e, True)
      else if broadcastFilter n packetType key e then (e, True)
      else if n \<in> set (sessions env)
      then ((emit_effect (AsyncSend n (transDataToMessage env e d packetType t fwd)) e)
              \<lparr>m_broadCastCache := broadcastMark n packetType key (m_broadCastCache e)\<rparr>, True)
      else (e, False))"

text \<open>One peer of the loop of \<^verbatim>\<open>broadcastMsg\<close>; the accumulator holds the targets and the marks.\<close>

definition broadcast_peer :: "pbft_engine \<Rightarrow> byte \<Rightarrow> string \<Rightarrow> h512 list \<Rightarrow> h512 \<Rightarrow> h512 list \<times> broadcast_cache \<Rightarrow> h512 list \<times> broadcast_cache" where
  "broadcast_peer e packetType key filt n acc =
     (case acc of (targets, known) \<Rightarrow>
        if getIndexBySealer n e < 0 then (targets, known)
        else if n \<in> set filt then (targets, broadcastMark n packetType key known)
        else if keyExists n packetType key known then (targets, known)
        else (targets @ [n], broadcastMark n packetType key known))"

definition multicast :: "engine_env \<Rightarrow> h512 list \<Rightarrow> bytes \<Rightarrow> byte \<Rightarrow> nat \<Rightarrow> nat \<Rightarrow> bool \<Rightarrow> pbft_engine \<Rightarrow> pbft_engine" where
  "multicast env targets d packetType t p2pType emptyFlag e =
     (let fwd = (if m_enableTTLOptimize e then getForwardNodes env e else None);
          p = createPBFTMsgPacket env e d packetType t fwd;
          p' = (if emptyFlag then p\<lparr>prepareWithEmptyBlock := True\<rparr> else p)
      in emit_effect (AsyncMulticast targets (packetBytes e p') p2pType) e)"

definition broadcastMsg :: "engine_env \<Rightarrow> byte \<Rightarrow> 'm pbft_msg_scheme \<Rightarrow> bytes \<Rightarrow> h512 list \<Rightarrow> nat \<Rightarrow> pbft_engine \<Rightarrow> pbft_engine" where
  "broadcastMsg env packetType m d filt t e =
     (let (targets, known) =
            fold (broadcast_peer e packetType (uniqueKey m) filt) (sessions env) ([], m_broadCastCache e)
      in multicast env targets d packetType t 0 (isEmpty m)
           (e\<lparr>m_connectedNode := of_nat (length (sessions env)), m_broadCastCache := known\<rparr>))"

section \<open>Own messages\<close>

definition pbft_part :: "prepare_req \<Rightarrow> pbft_msg" where
  "pbft_part r = pbft_msg.truncate r"

definition sendPrepareMsgFromLeader :: "engine_env \<Rightarrow> prepare_req \<Rightarrow> bytes \<Rightarrow> pbft_engine \<Rightarrow> pbft_engine" where
  "sendPrepareMsgFromLeader env r d = broadcastMsg env (packet_code PrepareReqPacket) r d [] 0"

definition broadcastSignReq :: "engine_env \<Rightarrow> prepare_req \<Rightarrow> pbft_engine \<Rightarrow> pbft_engine" where
  "broadcastSignReq env req e =
     (let sign_req = mkSignReq (crypto env) (m_keyPair e) (utcTime env) req (m_idx e);
          e1 = emit_effect (Signs SignReqPacket sign_req) e;
          e2 = broadcastMsg env (packet_code SignReqPacket) sign_req (encoded (PBFTMsg_encode sign_req)) [] 0 e1
      in on_cache (addSignReq sign_req) e2)"

definition broadcastCommitReq :: "engine_env \<Rightarrow> prepare_req \<Rightarrow> pbft_engine \<Rightarrow> pbft_engine" where
  "broadcastCommitReq env req e =
     (let commit_req = mkCommitReq (crypto env) (m_keyPair e) (utcTime env) req (m_idx e);
          e1 = emit_effect (Signs CommitReqPacket commit_req) e;
          e2 = broadcastMsg env (packet_code CommitReqPacket) commit_req (encoded (PBFTMsg_encode commit_req)) [] 0 e1
      in on_cache (addCommitReq commit_req) e2)"

definition ownViewChangeReq :: "engine_env \<Rightarrow> pbft_engine \<Rightarrow> viewchange_req" where
  "ownViewChangeReq env e =
     mkViewChangeReq (crypto env) (m_keyPair e) (utcTime env) (m_number (m_highestBlock e)) (m_toView e)
       (m_idx e) (header_hash (crypto env) (m_highestBlock e))"

definition sendViewChangeMsg :: "engine_env \<Rightarrow> h512 \<Rightarrow> pbft_engine \<Rightarrow> pbft_engine" where
  "sendViewChangeMsg env n e =
     (let req = ownViewChangeReq env e in
      fst (sendMsg env n (packet_code ViewChangeReqPacket) (uniqueKey req) (encoded (PBFTMsg_encode req))
             1 None (emit_effect (Signs ViewChangeReqPacket req) e)))"

definition broadcastViewChangeReq :: "engine_env \<Rightarrow> pbft_engine \<Rightarrow> pbft_engine" where
  "broadcastViewChangeReq env e =
     (let req = ownViewChangeReq env e in
      broadcastMsg env (packet_code ViewChangeReqPacket) req (encoded (PBFTMsg_encode req)) [] 0
        (emit_effect (Signs ViewChangeReqPacket req) e))"

section \<open>Forwarding\<close>

definition needForwardMsg :: "bool \<Rightarrow> pbft_msg_packet \<Rightarrow> pbft_msg \<Rightarrow> pbft_engine \<Rightarrow> bool" where
  "needForwardMsg valid p m e \<longleftrightarrow>
     forwardNodes p \<noteq> Some [] \<and> valid \<and> uniqueKey m \<noteq> [] \<and>
     \<not> (\<not> m_enableTTLOptimize e \<and> ttl p = 1) \<and>
     (height m > m_number (m_highestBlock e) \<or> s64 (m_number (m_highestBlock e) - height m) < 10)"

text \<open>\<^verbatim>\<open>ttl - 1\<close> is computed at 32 bits, so a packet with \<^verbatim>\<open>ttl\<close> 0 is sent on with \<open>2 ^ 32 - 1\<close>.\<close>

definition forwardMsgByTTL :: "engine_env \<Rightarrow> pbft_msg_packet \<Rightarrow> pbft_msg \<Rightarrow> bytes \<Rightarrow> pbft_engine \<Rightarrow> pbft_engine" where
  "forwardMsgByTTL env p m d e =
     (let gen = getSealerByIndex (unat (idx m)) e;
          filt = node_id p # (if gen \<noteq> 0 then [gen] else [])
      in broadcastMsg env (packet_id p) m d filt (nat ((int (unat (ttl p)) - 1) mod 2 ^ 32)) e)"

definition forwardMsgByNodeInfo :: "engine_env \<Rightarrow> string \<Rightarrow> pbft_msg_packet \<Rightarrow> bytes \<Rightarrow> pbft_engine \<Rightarrow> pbft_engine" where
  "forwardMsgByNodeInfo env key p d e =
     (let nodes = (case forwardNodes p of None \<Rightarrow> [] | Some ns \<Rightarrow> ns);
          rest = filter (\<lambda>n. n \<notin> set (sessions env) \<and> n \<noteq> kp_pub (m_keyPair e)) (remdups (sort nodes));
          fwd = (if rest \<noteq> [] then Some rest else None)
      in fold (\<lambda>n e. fst (sendMsg env n (packet_id p) key d 1 fwd e)) nodes e)"

definition forwardMsg :: "engine_env \<Rightarrow> pbft_msg_packet \<Rightarrow> pbft_msg \<Rightarrow> pbft_engine \<Rightarrow> pbft_engine" where
  "forwardMsg env p m e =
     (if m_enableTTLOptimize e then forwardMsgByNodeInfo env (uniqueKey m) p (pkt_data p) e
      else forwardMsgByTTL env p m (pkt_data p) e)"

end
