(* ===== verification/PBFTEngine.thy ===== *)
theory PBFTEngine
  imports EngineSend
begin

text \<open>
  The handlers of \<^verbatim>\<open>PBFTEngine\<close> (src/libconsensus/pbft/PBFTEngine.cpp, .h): validation of the four
  kinds of requests, block execution, the three phases of agreement on a block, the view change,
  timeouts, garbage collection, the message loop, and start-up with the reload of the backup.

  Every handler maps the engine to the engine it leaves behind; its return value comes second.
  Exceptions that a handler catches are branches of the model, those it lets through are the left
  side of an \<open>outcome\<close>.  A proposal generated by this node and the entries made from it share one
  block object, so that execution and the signature list reach all of them (\<open>share_block\<close>).
  Heights and views are never negative where the code takes a remainder.
\<close>

definition outcome_state :: "'s outcome \<Rightarrow> 's" where
  "outcome_state r = (case r of Inl (_, s) \<Rightarrow> s | Inr s \<Rightarrow> s)"

section \<open>Leaders\<close>

datatype CheckResult = VALID | INVALID | FUTURE

definition getNextLeader :: "pbft_engine \<Rightarrow> IDXTYPE" where
  "getNextLeader e = of_int (s64 (m_number (m_highestBlock e) + 1) mod int (unat (m_nodeNum e)))"

definition getLeader :: "pbft_engine \<Rightarrow> bool \<times> IDXTYPE" where
  "getLeader e =
     (if m_cfgErr e \<or> m_leaderFailed e \<or> m_sealer (m_highestBlock e) = Invalid256 \<or> m_nodeNum e = 0
      then (False, MAXIDX)
      else (True, of_int (s64 (m_view e + m_number (m_highestBlock e)) mod int (unat (m_nodeNum e)))))"

definition canHandleBlockForNextLeader :: "pbft_engine \<Rightarrow> bool" where
  "canHandleBlockForNextLeader e =
     (if \<not> fst (getLeader e) then False
      else if snd (getLeader e) = m_idx e then True
      else \<not> (m_notifyNextLeaderSeal e \<and> getNextLeader e = m_idx e))"

definition shouldReset :: "block \<Rightarrow> pbft_engine \<Rightarrow> bool" where
  "shouldReset b e \<longleftrightarrow> getTransactionSize b = 0 \<and> m_omitEmptyBlock e"

definition locatedInChosedConsensensusNodes :: "pbft_engine \<Rightarrow> bool" where
  "locatedInChosedConsensensusNodes e \<longleftrightarrow> m_idx e \<noteq> MAXIDX"

definition updateViewMap :: "IDXTYPE \<Rightarrow> VIEWTYPE \<Rightarrow> pbft_engine \<Rightarrow> pbft_engine" where
  "updateViewMap i v e = e\<lparr>m_viewMap := AList.update i v (m_viewMap e)\<rparr>"

definition changeViewForFastViewChange :: "pbft_engine \<Rightarrow> pbft_engine" where
  "changeViewForFastViewChange e = (on_timer tm_changeView e)\<lparr>m_fastViewChange := True\<rparr>"

section \<open>Configuration\<close>

definition SYSTEM_KEY_CONSENSUS_TIMEOUT :: string where
  "SYSTEM_KEY_CONSENSUS_TIMEOUT = ''consensus_timeout''"

definition resetConsensusTimeout :: "engine_env \<Rightarrow> pbft_engine \<Rightarrow> pbft_engine outcome" where
  "resetConsensusTimeout env e =
     (if \<not> m_supportConsensusTimeAdjust e then Inr e
      else
        (let (ret, c) = getSystemConfigByKey SYSTEM_KEY_CONSENSUS_TIMEOUT (m_blockChain e);
             e1 = e\<lparr>m_blockChain := c\<rparr>
         in case lexical_cast env ret of
              None \<Rightarrow> Inl (BadLexicalCast, e1)
            | Some n \<Rightarrow>
                (let t = n * 1000 mod 2 ^ 64;
                     e2 = (if m_emptyBlockGenTime (m_timeManager e1) > t
                           then on_timer (\<lambda>tm. tm\<lparr>m_emptyBlockGenTime := t div 3 mod 2 ^ 32\<rparr>) e1 else e1)
                 in Inr (if m_viewTimeout (m_timeManager e2) \<noteq> t
                         then on_timer (tm_resetConsensusTimeout (t mod 2 ^ 32)) e2 else e2))))"

definition resetConfig :: "engine_env \<Rightarrow> pbft_engine \<Rightarrow> pbft_engine outcome" where
  "resetConfig env e =
     ebind (base_resetConfig env e) (\<lambda>e1.
     ebind (resetConsensusTimeout env e1) (\<lambda>e2.
       Inr (if \<not> m_sealerListUpdated e2 then e2
            else e2\<lparr>m_consensusSet := remdups (sort (m_sealerList e2))\<rparr>)))"

section \<open>Checks on requests\<close>

definition hasConsensused :: "'m pbft_msg_scheme \<Rightarrow> pbft_engine \<Rightarrow> bool" where
  "hasConsensused req e \<longleftrightarrow> height req < m_consensusBlockNumber e \<or>
     (height req = m_consensusBlockNumber e \<and> view req < m_view e)"

definition isSyncingHigherBlock :: "'m pbft_msg_scheme \<Rightarrow> pbft_engine \<Rightarrow> bool" where
  "isSyncingHigherBlock req e \<longleftrightarrow> sync_farBehind (m_blockSync e) \<or>
     (isSyncing (m_blockSync e) \<and> height req \<le> knownHighestNumber (m_blockSync e))"

definition isFutureBlock :: "'m pbft_msg_scheme \<Rightarrow> pbft_engine \<Rightarrow> bool" where
  "isFutureBlock req e \<longleftrightarrow> height req \<ge> m_consensusBlockNumber e \<or> view req > m_view e"

definition isFuturePrepare :: "'m pbft_msg_scheme \<Rightarrow> pbft_engine \<Rightarrow> bool" where
  "isFuturePrepare req e \<longleftrightarrow> height req > m_consensusBlockNumber e \<or>
     (height req = m_consensusBlockNumber e \<and> view req > m_view e)"

definition isHashSavedAfterCommit :: "'m pbft_msg_scheme \<Rightarrow> pbft_engine \<Rightarrow> bool" where
  "isHashSavedAfterCommit req e \<longleftrightarrow>
     \<not> (height req = height (m_committedPrepareCache (m_reqCache e)) \<and>
        block_hash req \<noteq> block_hash (m_committedPrepareCache (m_reqCache e)))"

definition isValidLeader :: "'m pbft_msg_scheme \<Rightarrow> pbft_engine \<Rightarrow> bool" where
  "isValidLeader req e \<longleftrightarrow> fst (getLeader e) \<and> idx req = snd (getLeader e)"

definition isValidPrepare :: "engine_env \<Rightarrow> prepare_req \<Rightarrow> pbft_engine \<Rightarrow> CheckResult" where
  "isValidPrepare env req e =
     (if isExistPrepare req (m_reqCache e) then INVALID
      else if isSyncingHigherBlock req e then INVALID
      else if hasConsensused req e then INVALID
      else if \<not> isEmpty req \<and> \<not> isHashSavedAfterCommit req e then INVALID
      else if isFuturePrepare req e then FUTURE
      else if \<not> isValidLeader req e then INVALID
      else if \<not> checkSign (crypto env) e req then INVALID
      else VALID)"

text \<open>\<^verbatim>\<open>checkReq\<close> marks a future request; the marked request comes second.\<close>

definition checkReq :: "engine_env \<Rightarrow> pbft_msg \<Rightarrow> pbft_engine \<Rightarrow> CheckResult \<times> pbft_msg" where
  "checkReq env req e =
     (if isSyncingHigherBlock req e then (INVALID, req)
      else if block_hash (m_prepareCache (m_reqCache e)) \<noteq> block_hash req
      then (if isFutureBlock req e then (FUTURE, req\<lparr>isFuture := True, signChecked := False\<rparr>)
            else (INVALID, req))
      else if idx req = m_idx e then (INVALID, req)
      else if view (m_prepareCache (m_reqCache e)) \<noteq> view req then (INVALID, req)
      else if \<not> checkSign (crypto env) e req then (INVALID, req)
      else (VALID, req))"

definition isValidSignReq :: "engine_env \<Rightarrow> sign_req \<Rightarrow> pbft_engine \<Rightarrow> CheckResult \<times> sign_req \<times> pbft_engine" where
  "isValidSignReq env req e =
     (if isExistSign req (m_reqCache e) then (INVALID, req, e)
      else if hasConsensused req e then (INVALID, req, e)
      else (let (r, req') = checkReq env req e
            in (r, req', if r = FUTURE then on_cache (addSignReq req') e else e)))"

definition isValidCommitReq :: "engine_env \<Rightarrow> commit_req \<Rightarrow> pbft_engine \<Rightarrow> CheckResult \<times> commit_req \<times> pbft_engine" where
  "isValidCommitReq env req e =
     (if isExistCommit req (m_reqCache e) then (INVALID, req, e)
      else if hasConsensused req e then (INVALID, req, e)
      else (let (r, req') = checkReq env req e
            in (r, req', if r = FUTURE then on_cache (addCommitReq req') e else e)))"

section \<open>Checks on blocks\<close>

definition checkSealerList :: "block \<Rightarrow> pbft_engine \<Rightarrow> bool" where
  "checkSealerList b e \<longleftrightarrow> m_sealerList e = block_header.m_sealerList (blockHeader b)"

definition checkBlockValid :: "engine_env \<Rightarrow> block \<Rightarrow> pbft_engine \<Rightarrow> pbft_engine outcome" where
  "checkBlockValid env b e =
     ebind (base_checkBlockValid env b e) (\<lambda>e1.
       if checkSealerList b e1 then Inr e1 else Inl (BlockSealerListWrong, e1))"

text \<open>
  \<^verbatim>\<open>checkBlock\<close> is the check the sync module applies to a downloaded block; \<^verbatim>\<open>convert_to\<close> to a
  narrower unsigned type keeps the low bits.
\<close>

definition checkBlock :: "engine_env \<Rightarrow> block \<Rightarrow> pbft_engine \<Rightarrow> (engine_error \<times> pbft_engine) + (bool \<times> pbft_engine)" where
  "checkBlock env b e =
     (let h = blockHeader b in
      if m_number h \<le> number (m_blockChain e) then Inr (False, e)
      else ebind (resetConfig env e) (\<lambda>e1.
        Inr (if m_number h = 0 then True
             else if m_sealerList e1 \<noteq> block_header.m_sealerList h then False
             else if getSealerByIndex (unat (m_sealer h) mod 2 ^ 64) e1 = 0 then False
             else if length (sigList b) < unat (minValidNodes e1) then False
             else if \<not> list_all (\<lambda>(i, s). checkSign_idx (crypto env) e1 (ucast i) (headerHash (crypto env) b) s) (sigList b)
             then False
             else \<not> (getTransactionSize b > m_maxBlockTransactions e1), e1)))"

section \<open>Execution\<close>

definition notifySealing :: "engine_env \<Rightarrow> block \<Rightarrow> pbft_engine \<Rightarrow> pbft_engine" where
  "notifySealing env b e =
     (if \<not> m_onNotifyNextLeaderReset e then e
      else if fst (getLeader e) \<and> snd (getLeader e) \<noteq> m_idx e \<and> m_idx e = getNextLeader e
      then emit_effect (OnNotifyNextLeaderReset (remdups (map (ce_txHash (commitEnv env)) (transactions b))))
             (e\<lparr>m_notifyNextLeaderSeal := True\<rparr>)
      else e)"

text \<open>\<^verbatim>\<open>execBlock\<close>; \<open>execChecked\<close> is its second half, from a block that has passed \<^verbatim>\<open>checkBlockValid\<close>.\<close>

definition execChecked :: "engine_env \<Rightarrow> prepare_req \<Rightarrow> block \<Rightarrow> pbft_engine \<Rightarrow>
    (engine_error \<times> pbft_engine) + ((block \<times> exec_context option) \<times> pbft_engine)" where
  "execChecked env req b e =
     (let e1 = (if idx req \<noteq> m_idx e then notifySealing env b e else e);
          e2 = on_sync (noteSealingBlockNumber (m_number (blockHeader b))) e1
      in if \<not> verifyTxs env b then Inl (InvalidTransaction, e2) else executeBlock env b e2)"

definition execBlock :: "engine_env \<Rightarrow> prepare_req \<Rightarrow> pbft_engine \<Rightarrow>
    (engine_error \<times> pbft_engine) + ((block \<times> exec_context option) \<times> pbft_engine)" where
  "execBlock env req e =
     (case (case pBlock req of Some b \<Rightarrow> Some b | None \<Rightarrow> decodeBlock env (block_data req)) of
        None \<Rightarrow> Inl (DecodeFailed, e)
      | Some b \<Rightarrow>
          (let e1 = e\<lparr>m_sealingNumber := getTransactionSize b\<rparr> in
           if getTransactionSize b = 0 \<and> m_omitEmptyBlock e1 then Inr ((b, None), e1)
           else ebind (checkBlockValid env b e1) (execChecked env req b)))"

definition needOmit :: "block \<Rightarrow> pbft_engine \<Rightarrow> bool" where
  "needOmit b e \<longleftrightarrow> getTransactionSize b = 0 \<and> m_omitEmptyBlock e"

definition share :: "h256 \<Rightarrow> block \<Rightarrow> prepare_req \<Rightarrow> prepare_req" where
  "share h b r = (if pBlock r \<noteq> None \<and> block_hash r = h then r\<lparr>pBlock := Some b\<rparr> else r)"

definition share_block :: "h256 \<Rightarrow> block \<Rightarrow> req_cache \<Rightarrow> req_cache" where
  "share_block h b c = c\<lparr>m_rawPrepareCache := share h b (m_rawPrepareCache c),
     m_committedPrepareCache := share h b (m_committedPrepareCache c)\<rparr>"

section \<open>Agreement on a block\<close>

definition commit_prepared :: "engine_env \<Rightarrow> block \<Rightarrow> pbft_engine \<Rightarrow> pbft_engine" where
  "commit_prepared env b e =
     (let p = m_prepareCache (m_reqCache e);
          b' = fst (generateAndSetSigList b (minValidNodes e) (m_reqCache e));
          e1 = on_cache (\<lambda>c. share_block (block_hash (m_rawPrepareCache c)) b' (c\<lparr>m_prepareCache := p\<lparr>pBlock := Some b'\<rparr>\<rparr>)) e;
          (ret, chain) = commitBlock (crypto env) (commitEnv env) (dbCommit env (p_execContext p)) b' (m_blockChain e1);
          e2 = e1\<lparr>m_blockChain := chain\<rparr>
      in if ret = COMMIT_OK
         then on_cache (delCache (m_number (blockHeader b')) (headerHash (crypto env) b'))
                (on_sync (noteSealingBlockNumber (height p)) (emit_effect (DropBlockTrans b') e2))
         else emit_effect (HandleBadBlock b') (on_sync (noteSealingBlockNumber (number chain)) e2))"

definition checkAndSave :: "engine_env \<Rightarrow> pbft_engine \<Rightarrow> pbft_engine" where
  "checkAndSave env e =
     (let minValidNodeSize = minValidNodes e;
          h = block_hash (m_prepareCache (m_reqCache e));
          (c1, sign_size) = getSigCacheSize (checkSign (crypto env) e) h minValidNodeSize (m_reqCache e);
          (c2, commit_size) = getCommitCacheSize (checkSign (crypto env) e) h minValidNodeSize c1;
          e1 = e\<lparr>m_reqCache := c2\<rparr>;
          p = m_prepareCache c2
      in if sign_size \<ge> unat minValidNodeSize \<and> commit_size \<ge> unat minValidNodeSize
         then (if view p \<noteq> m_view e then e1
               else if height p > m_number (m_highestBlock e)
               then (case pBlock p of None \<Rightarrow> e1 | Some b \<Rightarrow> commit_prepared env b e1)
               else e1)
         else e1)"

definition checkAndCommit :: "engine_env \<Rightarrow> pbft_engine \<Rightarrow> pbft_engine" where
  "checkAndCommit env e =
     (let minValidNodeSize = minValidNodes e;
          (c1, sign_size) = getSigCacheSize (checkSign (crypto env) e)
             (block_hash (m_prepareCache (m_reqCache e))) minValidNodeSize (m_reqCache e);
          e1 = e\<lparr>m_reqCache := c1\<rparr>
      in if sign_size = unat minValidNodeSize
         then (if view (m_prepareCache c1) \<noteq> m_view e then e1
               else
                 (let e2 = on_cache updateCommittedPrepare e1;
                      e3 = e2\<lparr>m_threadPool := m_threadPool e2 @ [BackupCommitted]\<rparr>;
                      e4 = broadcastCommitReq env (m_prepareCache (m_reqCache e3)) e3;
                      e5 = on_timer (\<lambda>tm. tm\<lparr>m_lastSignTime := utcSteadyTime env\<rparr>) e4
                  in checkAndSave env e5))
         else e1)"

definition execPrepareAndGenerateSignMsg :: "engine_env \<Rightarrow> prepare_req \<Rightarrow> pbft_engine \<Rightarrow> pbft_engine \<times> bool" where
  "execPrepareAndGenerateSignMsg env req e =
     (case execBlock env req (on_timer (\<lambda>tm. tm\<lparr>m_lastAddRawPrepareTime := utcSteadyTime env\<rparr>) e) of
        Inl (_, e1) \<Rightarrow> (e1, True)
      | Inr ((b, ctx), e1) \<Rightarrow>
          (let e2 = on_timer (\<lambda>tm. tm\<lparr>m_lastExecTime := execTime env\<rparr>) e1 in
           if ctx = None \<and> getTransactionSize b > 0 then (e2, False)
           else if needOmit b e2
           then (on_timer (\<lambda>tm. tm\<lparr>m_changeCycle := 0\<rparr>) (changeViewForFastViewChange e2), True)
           else
             (let sign_prepare = mkPrepareFromSealing (crypto env) (m_keyPair e2) (utcTime env) req b ctx;
                  e3 = on_cache (share_block (block_hash req) b) e2;
                  e4 = on_cache (addPrepareReq sign_prepare) e3
              in (checkAndCommit env (broadcastSignReq env sign_prepare e4), True))))"

definition handlePrepareMsg :: "engine_env \<Rightarrow> prepare_req \<Rightarrow> pbft_engine \<Rightarrow> pbft_engine \<times> bool" where
  "handlePrepareMsg env req e =
     (case isValidPrepare env req e of
        INVALID \<Rightarrow> (e, False)
      | FUTURE \<Rightarrow> (on_cache (addFuturePrepareCache req) (updateViewMap (idx req) (view req) e), True)
      | VALID \<Rightarrow> execPrepareAndGenerateSignMsg env req
                   (on_cache (addRawPrepare req) (updateViewMap (idx req) (view req) e)))"

definition handlePrepareMsg_packet :: "engine_env \<Rightarrow> pbft_msg_packet \<Rightarrow> pbft_engine \<Rightarrow> pbft_engine \<times> pbft_msg \<times> bool" where
  "handlePrepareMsg_packet env p e =
     (case PrepareReq_decode emptyPrepare (pkt_data p) of
        Inl _ \<Rightarrow> (e, emptyMsg, False)
      | Inr req \<Rightarrow>
          (let req' = (if prepareWithEmptyBlock p then req\<lparr>isEmpty := True\<rparr> else req);
               (e1, ok) = handlePrepareMsg env req' e
           in (e1, pbft_part req', ok)))"

definition handleSignReq :: "engine_env \<Rightarrow> sign_req \<Rightarrow> pbft_engine \<Rightarrow> pbft_engine \<times> bool" where
  "handleSignReq env req e =
     (case isValidSignReq env req e of
        (INVALID, _, e1) \<Rightarrow> (e1, False)
      | (FUTURE, req', e1) \<Rightarrow> (updateViewMap (idx req') (view req') e1, True)
      | (VALID, req', e1) \<Rightarrow>
          (checkAndCommit env (on_cache (addSignReq req') (updateViewMap (idx req') (view req') e1)), True))"

definition handleSignMsg :: "engine_env \<Rightarrow> pbft_msg_packet \<Rightarrow> pbft_engine \<Rightarrow> pbft_engine \<times> pbft_msg \<times> bool" where
  "handleSignMsg env p e =
     (case PBFTMsg_decode emptyMsg (pkt_data p) of
        Inl _ \<Rightarrow> (e, emptyMsg, False)
      | Inr req \<Rightarrow> (let (e1, ok) = handleSignReq env req e in (e1, req, ok)))"

definition handleCommitReq :: "engine_env \<Rightarrow> commit_req \<Rightarrow> pbft_engine \<Rightarrow> pbft_engine \<times> bool" where
  "handleCommitReq env req e =
     (case isValidCommitReq env req e of
        (INVALID, _, e1) \<Rightarrow> (e1, False)
      | (FUTURE, req', e1) \<Rightarrow> (updateViewMap (idx req') (view req') e1, True)
      | (VALID, req', e1) \<Rightarrow>
          (checkAndSave env (on_cache (addCommitReq req') (updateViewMap (idx req') (view req') e1)), True))"

definition handleCommitMsg :: "engine_env \<Rightarrow> pbft_msg_packet \<Rightarrow> pbft_engine \<Rightarrow> pbft_engine \<times> pbft_msg \<times> bool" where
  "handleCommitMsg env p e =
     (case PBFTMsg_decode emptyMsg (pkt_data p) of
        Inl _ \<Rightarrow> (e, emptyMsg, False)
      | Inr req \<Rightarrow> (let (e1, ok) = handleCommitReq env req e in (e1, req, ok)))"

section \<open>View change\<close>

definition catchupView :: "engine_env \<Rightarrow> viewchange_req \<Rightarrow> pbft_engine \<Rightarrow> pbft_engine" where
  "catchupView env req e =
     (if s64 (view req + 1) < m_toView e
      then (case getNodeIDByIndex (idx req) e of
              None \<Rightarrow> e
            | Some n \<Rightarrow> on_cache (eraseLatestViewChangeCacheForNodeUpdated req) (sendViewChangeMsg env n e))
      else e)"

definition isValidViewChangeReq :: "engine_env \<Rightarrow> viewchange_req \<Rightarrow> IDXTYPE \<Rightarrow> pbft_engine \<Rightarrow> bool \<times> pbft_engine" where
  "isValidViewChangeReq env req source e =
     (if isExistViewChange req (m_reqCache e) then (False, e)
      else if idx req = m_idx e then (False, e)
      else if height req < m_number (m_highestBlock e) then (False, e)
      else
        (let e1 = (if s64 (view req + 1) < m_toView e \<and> idx req = source then catchupView env req e else e) in
         if view req \<le> m_view e1 then (False, e1)
         else if height req = m_number (m_highestBlock e1) \<and>
                 block_hash req \<noteq> header_hash (crypto env) (m_highestBlock e1) then (False, e1)
         else
           (let (b, c) = getBlockByNumber (crypto env) (height req) (m_blockChain e1);
                e2 = e1\<lparr>m_blockChain := c\<rparr>
            in if b = None then (False, e2)
               else (checkSign (crypto env) e2 req, e2))))"

definition checkAndChangeView :: "engine_env \<Rightarrow> pbft_engine \<Rightarrow> pbft_engine" where
  "checkAndChangeView env e =
     (let count = of_nat (getViewChangeSize (m_toView e) (m_reqCache e)) :: IDXTYPE in
      if int (unat count) \<ge> int (unat (minValidNodes e)) - 1
      then
        (let e1 = (if m_lastSignTime (m_timeManager e) = 0 then e\<lparr>m_fastViewChange := False\<rparr> else e);
             e2 = (on_timer (\<lambda>tm. tm\<lparr>m_lastConsensusTime := utcSteadyTime env\<rparr>) e1)
                    \<lparr>m_leaderFailed := False, m_view := m_toView e1, m_notifyNextLeaderSeal := False\<rparr>;
             e3 = on_cache (triggerViewChange (m_view e2) (number (m_blockChain e2))) e2
         in on_sync (noteSealingBlockNumber (number (m_blockChain e3))) e3)
      else e)"

definition handleViewChangeReq :: "engine_env \<Rightarrow> viewchange_req \<Rightarrow> IDXTYPE \<Rightarrow> pbft_engine \<Rightarrow> pbft_engine \<times> bool" where
  "handleViewChangeReq env req source e =
     (let (valid, e1) = isValidViewChangeReq env req source e in
      if \<not> valid then (e1, False)
      else
        (let e2 = on_cache (addViewChangeReq req (number (m_blockChain e1))) e1 in
         if view req = m_toView e2 then (checkAndChangeView env e2, True)
         else
           (let (min_view, should_trigger) =
                  canTriggerViewChange (m_f e2) (m_toView e2) (m_number (m_highestBlock e2))
                    (m_consensusBlockNumber e2) (m_reqCache e2)
            in if should_trigger
               then (changeViewForFastViewChange (e2\<lparr>m_toView := s64 (min_view - 1)\<rparr>), True)
               else (e2, True))))"

definition handleViewChangeMsg :: "engine_env \<Rightarrow> pbft_msg_packet \<Rightarrow> pbft_engine \<Rightarrow> pbft_engine \<times> pbft_msg \<times> bool" where
  "handleViewChangeMsg env p e =
     (case PBFTMsg_decode emptyMsg (pkt_data p) of
        Inl _ \<Rightarrow> (e, emptyMsg, False)
      | Inr req \<Rightarrow> (let (e1, ok) = handleViewChangeReq env req (node_idx p) e in (e1, req, ok)))"

definition checkTimeout :: "engine_env \<Rightarrow> pbft_engine \<Rightarrow> pbft_engine" where
  "checkTimeout env e =
     (if isTimeout (utcSteadyTime env) (m_timeManager e)
      then
        (let e1 = (if m_lastConsensusTime (m_timeManager e) \<noteq> 0
                   then (let e' = e\<lparr>m_fastViewChange := False\<rparr> in
                         if m_onTimeout e' \<and> height (m_prepareCache (m_reqCache e')) > m_number (m_highestBlock e')
                         then emit_effect (OnTimeout (m_sealingNumber e')) e' else e')
                   else e);
             e2 = (on_timer updateChangeCycle e1)\<lparr>m_toView := s64 (m_toView e1 + 1), m_leaderFailed := True\<rparr>;
             e3 = on_sync (noteSealingBlockNumber (number (m_blockChain e2))) e2;
             e4 = on_timer (\<lambda>tm. tm\<lparr>m_lastConsensusTime := utcSteadyTime env\<rparr>) e3;
             e5 = on_cache (removeInvalidViewChange (m_toView e4) (m_number (m_highestBlock e4))
                     (header_hash (crypto env) (m_highestBlock e4))) e4;
             e6 = checkAndChangeView env (broadcastViewChangeReq env e5)
         in if m_onViewChange e6 then emit_effect OnViewChange e6 else e6)
      else e)"

section \<open>The message loop\<close>

definition handleMsg :: "engine_env \<Rightarrow> pbft_msg_packet \<Rightarrow> pbft_engine \<Rightarrow> pbft_engine" where
  "handleMsg env p e =
     (let done = (\<lambda>(e1, m, succ). if needForwardMsg succ p m e1 then forwardMsg env p m e1 else e1) in
      if packet_id p = packet_code PrepareReqPacket then done (handlePrepareMsg_packet env p e)
      else if packet_id p = packet_code SignReqPacket then done (handleSignMsg env p e)
      else if packet_id p = packet_code CommitReqPacket then done (handleCommitMsg env p e)
      else if packet_id p = packet_code ViewChangeReqPacket then done (handleViewChangeMsg env p e)
      else e)"

definition handleFutureBlock :: "engine_env \<Rightarrow> pbft_engine \<Rightarrow> pbft_engine" where
  "handleFutureBlock env e =
     (case futurePrepareCache (to_uint64 (m_consensusBlockNumber e)) (m_reqCache e) of
        None \<Rightarrow> e
      | Some p \<Rightarrow>
          if view p = m_view e
          then on_cache (eraseHandledFutureReq (to_uint64 (height p))) (fst (handlePrepareMsg env p e))
          else e)"

definition engine_collectGarbage :: "engine_env \<Rightarrow> pbft_engine \<Rightarrow> pbft_engine" where
  "engine_collectGarbage env e =
     (if \<not> header_bool (m_highestBlock e) then e
      else if int (utcSteadyTime env) - int (m_lastGarbageCollection (m_timeManager e)) > 1000 * int CollectInterval
      then (on_timer (\<lambda>tm. tm\<lparr>m_lastGarbageCollection := utcSteadyTime env\<rparr>)
             (on_cache (collectGarbage (m_number (m_highestBlock e)) (header_hash (crypto env) (m_highestBlock e))) e))
               \<lparr>m_cachedForwardMsg := []\<rparr>
      else e)"

text \<open>One round of \<^verbatim>\<open>workLoop\<close>.\<close>

definition workLoop :: "engine_env \<Rightarrow> pbft_engine \<Rightarrow> pbft_engine" where
  "workLoop env e =
     (if \<not> locatedInChosedConsensensusNodes e then e
      else
        (let e1 = (case m_msgQueue e of [] \<Rightarrow> e | p # q \<Rightarrow> handleMsg env p (e\<lparr>m_msgQueue := q\<rparr>))
         in engine_collectGarbage env (handleFutureBlock env (checkTimeout env e1))))"

text \<open>
  \<^verbatim>\<open>isValidReq\<close> and \<^verbatim>\<open>decodePBFTMsgPacket\<close> on a buffer received in a session with node \<open>n\<close> at
  address \<open>ep\<close>.
\<close>

definition isValidReq :: "bytes \<Rightarrow> h512 \<Rightarrow> pbft_engine \<Rightarrow> int option" where
  "isValidReq buffer n e =
     (if length buffer = 0 then None
      else if getIndexBySealer n e < 0 then None
      else case getNodeIDByIndex (m_idx e) e of
          None \<Rightarrow> None
        | Some own \<Rightarrow> if n = own then None else Some (getIndexBySealer n e))"

definition decodePBFTMsgPacket :: "engine_env \<Rightarrow> bytes \<Rightarrow> h512 \<Rightarrow> string \<Rightarrow> pbft_engine \<Rightarrow> pbft_msg_packet option" where
  "decodePBFTMsgPacket env buffer n ep e =
     (case isValidReq buffer n e of
        None \<Rightarrow> None
      | Some peerIndex \<Rightarrow>
          (case (if m_enableTTLOptimize e then opacket_decode else packet_decode) (newPacket env e) buffer of
             Inl _ \<Rightarrow> None
           | Inr p \<Rightarrow> Some (setOtherField (utcTime env) (of_int peerIndex) n ep p)))"

definition pushValidPBFTMsgIntoQueue :: "engine_env \<Rightarrow> bytes \<Rightarrow> h512 \<Rightarrow> string \<Rightarrow> pbft_engine \<Rightarrow> pbft_engine" where
  "pushValidPBFTMsgIntoQueue env buffer n ep e =
     (if m_idx e = MAXIDX then e
      else case decodePBFTMsgPacket env buffer n ep e of
          None \<Rightarrow> e
        | Some p \<Rightarrow> if packet_id p \<le> packet_code ViewChangeReqPacket
                    then e\<lparr>m_msgQueue := m_msgQueue e @ [p]\<rparr> else e)"

definition onRecvPBFTMessage :: "engine_env \<Rightarrow> bytes \<Rightarrow> h512 \<Rightarrow> string \<Rightarrow> pbft_engine \<Rightarrow> pbft_engine" where
  "onRecvPBFTMessage env buffer n ep e = pushValidPBFTMsgIntoQueue env buffer n ep e"

section \<open>Proposing\<close>

definition rehandleCommitedPrepareCache :: "engine_env \<Rightarrow> prepare_req \<Rightarrow> pbft_engine \<Rightarrow> pbft_engine" where
  "rehandleCommitedPrepareCache env req e =
     (let e1 = clearMask e;
          prepareReq = mkPrepareFromReq (crypto env) (m_keyPair e1) (utcTime env) req (m_view e1) (m_idx e1);
          e2 = emit_effect (Signs PrepareReqPacket (pbft_part prepareReq)) e1;
          e3 = e2\<lparr>m_threadPool := m_threadPool e2 @ [BroadcastPrepare prepareReq]\<rparr>;
          e4 = fst (handlePrepareMsg env prepareReq e3)
      in on_sync (noteSealingBlockNumber (number (m_blockChain e4))) e4)"

definition shouldSeal :: "engine_env \<Rightarrow> pbft_engine \<Rightarrow> pbft_engine \<times> bool" where
  "shouldSeal env e =
     (if m_cfgErr e \<or> m_accountType e \<noteq> SealerAccount then (e, False)
      else if \<not> fst (getLeader e) then (e, False)
      else if snd (getLeader e) \<noteq> m_idx e
      then (e, m_notifyNextLeaderSeal e \<and> getNextLeader e = m_idx e)
      else if height (m_committedPrepareCache (m_reqCache e)) = m_consensusBlockNumber e
      then (if rawPrepareCacheHeight (m_reqCache e) \<noteq> m_consensusBlockNumber e
            then rehandleCommitedPrepareCache env (m_committedPrepareCache (m_reqCache e)) e else e, False)
      else (e, True))"

definition constructPrepareReq :: "engine_env \<Rightarrow> block \<Rightarrow> pbft_engine \<Rightarrow> prepare_req \<times> pbft_engine" where
  "constructPrepareReq env b e =
     (let r = mkPrepareFromBlock (crypto env) (m_keyPair e) (utcTime env) (encodeBlock env) b (m_view e) (m_idx e) False;
          prepareReq = (if getTransactionSize b = 0 then r\<lparr>isEmpty := True\<rparr> else r);
          e1 = emit_effect (Signs PrepareReqPacket (pbft_part prepareReq)) e
      in (prepareReq, e1\<lparr>m_threadPool := m_threadPool e1 @ [BroadcastPrepare prepareReq]\<rparr>))"

definition generatePrepare :: "engine_env \<Rightarrow> block \<Rightarrow> pbft_engine \<Rightarrow> pbft_engine" where
  "generatePrepare env b e =
     (let (prepareReq, e1) = constructPrepareReq env b (e\<lparr>m_notifyNextLeaderSeal := False\<rparr>) in
      if getTransactionSize b = 0 \<and> m_omitEmptyBlock e1
      then on_timer (\<lambda>tm. tm\<lparr>m_changeCycle := 0\<rparr>)
             (changeViewForFastViewChange (e1\<lparr>m_leaderFailed := True\<rparr>))
      else fst (handlePrepareMsg env prepareReq e1))"

section \<open>New blocks, backup and start\<close>

definition reportBlockWithoutLock :: "engine_env \<Rightarrow> block \<Rightarrow> pbft_engine \<Rightarrow> pbft_engine outcome" where
  "reportBlockWithoutLock env b e =
     (let n = m_number (blockHeader b); h = headerHash (crypto env) b in
      if number (m_blockChain e) = 0 \<or> m_number (m_highestBlock e) < n
      then
        (let e1 = e\<lparr>m_highestBlock := blockHeader b\<rparr>;
             e2 = (if n \<ge> m_consensusBlockNumber e1
                   then on_cache (delInvalidViewChange n h)
                     ((on_timer (\<lambda>tm. tm\<lparr>m_lastConsensusTime := utcSteadyTime env, m_changeCycle := 0\<rparr>) e1)
                       \<lparr>m_view := 0, m_toView := 0, m_leaderFailed := False, m_consensusBlockNumber := s64 (n + 1)\<rparr>)
                   else e1)
         in ebind (resetConfig env e2) (\<lambda>e3.
              let e4 = (if m_onCommitBlock e3
                        then emit_effect (OnCommitBlock n (getTransactionSize b) (m_changeCycle (m_timeManager e3))) e3
                        else e3)
              in Inr (on_cache (delCache n h) e4)))
      else Inr e)"

definition c_backupKeyCommitted :: string where
  "c_backupKeyCommitted = ''committed''"

definition backupMsg :: "string \<Rightarrow> bytes \<Rightarrow> pbft_engine \<Rightarrow> pbft_engine" where
  "backupMsg key m e =
     (case m_backupDB e of
        None \<Rightarrow> e
      | Some db \<Rightarrow> e\<lparr>m_backupDB := Some (AList.update key (toHex m) db)\<rparr>)"

text \<open>\<^verbatim>\<open>reloadMsg\<close> into the committed proposal; a value that does not decode leaves it as it is.\<close>

definition reloadMsg :: "string \<Rightarrow> pbft_engine \<Rightarrow> pbft_engine" where
  "reloadMsg key e =
     (case m_backupDB e of
        None \<Rightarrow> e
      | Some db \<Rightarrow>
          (let d = hex_bytes (case map_of db key of None \<Rightarrow> [] | Some v \<Rightarrow> v) in
           if d = [] then e
           else (case PrepareReq_decode (m_committedPrepareCache (m_reqCache e)) d of
                   Inl _ \<Rightarrow> e
                 | Inr r \<Rightarrow> on_cache (\<lambda>c. c\<lparr>m_committedPrepareCache := r\<rparr>) e)))"

definition initBackupDB :: "(string \<times> string) list \<Rightarrow> pbft_engine \<Rightarrow> pbft_engine" where
  "initBackupDB stored e = reloadMsg c_backupKeyCommitted (e\<lparr>m_backupDB := Some stored\<rparr>)"

definition initPBFTEnv :: "engine_env \<Rightarrow> (string \<times> string) list \<Rightarrow> nat \<Rightarrow> pbft_engine \<Rightarrow> pbft_engine outcome" where
  "initPBFTEnv env stored view_timeout e =
     (let e1 = e\<lparr>m_consensusBlockNumber := 0, m_view := 0, m_toView := 0, m_leaderFailed := False\<rparr>;
          (b, c) = getBlockByNumber (crypto env) (number (m_blockChain e1)) (m_blockChain e1);
          e2 = on_timer (initTimerManager (utcSteadyTime env) view_timeout) (e1\<lparr>m_blockChain := c\<rparr>)
      in case b of
           None \<Rightarrow> Inl (NullBlock, e2)
         | Some b \<Rightarrow> ebind (reportBlockWithoutLock env b e2) (\<lambda>e3. Inr (initBackupDB stored e3)))"

definition start :: "engine_env \<Rightarrow> (string \<times> string) list \<Rightarrow> pbft_engine \<Rightarrow> pbft_engine outcome" where
  "start env stored e =
     (let e1 = base_start (e\<lparr>m_reqCache := emptyReqCache\<rparr>)
      in initPBFTEnv env stored (3 * m_emptyBlockGenTime (m_timeManager e1)) e1)"

text \<open>The background thread runs the first task of its queue.\<close>

definition run_task :: "engine_env \<Rightarrow> pbft_engine \<Rightarrow> pbft_engine" where
  "run_task env e =
     (case m_threadPool e of
        [] \<Rightarrow> e
      | t # ts \<Rightarrow>
          (let e1 = e\<lparr>m_threadPool := ts\<rparr> in
           case t of
             BroadcastPrepare r \<Rightarrow> sendPrepareMsgFromLeader env r (encoded (PrepareReq_encode r)) e1
           | BackupCommitted \<Rightarrow>
               backupMsg c_backupKeyCommitted
                 (encoded (PrepareReq_encode (m_committedPrepareCache (m_reqCache e1)))) e1))"

end
