(* ===== verification/Lock.thy ===== *)
theory Lock
  imports PBFTEngine
begin

text \<open>
  What a node never does: sign commit requests for two different blocks of the same height.

  The engine remembers the last proposal it has signed a commit request for
  (\<^verbatim>\<open>m_committedPrepareCache\<close>) and, until the height moves on, accepts no other proposal
  (\<^verbatim>\<open>isHashSavedAfterCommit\<close>).  \<open>node_inv\<close> states how the cached proposal, the executed proposal and
  the committed proposal hang together and what that says of the commit requests signed so far;
  every operation of the engine keeps it.

  The hypotheses are collected in \<open>world\<close>: the signature scheme and the block decoder, the headers
  that occur (\<open>w_good\<close>), and the hash a block has after execution as a function of the hash it is
  proposed with (\<open>w_exec\<close>).  \<open>world_ok\<close> says that hashes determine heights, \<open>env_ok\<close> that execution is
  deterministic, and \<open>req_ok\<close> that a proposal is labelled with the hash and the number of the block it
  carries, which the engine does not check.
\<close>

section \<open>What of an engine matters here\<close>

definition votes :: "'a consensus_base_scheme \<Rightarrow> pbft_msg set" where
  "votes e = {m. Signs CommitReqPacket m \<in> set (effects e)}"

definition drops :: "'a consensus_base_scheme \<Rightarrow> block set" where
  "drops e = {b. DropBlockTrans b \<in> set (effects e)}"

definition core :: "pbft_engine \<Rightarrow> req_cache \<times> int \<times> VIEWTYPE \<times> bool \<times> key_pair \<times> pbft_msg set \<times> block set" where
  "core e = (m_reqCache e, m_consensusBlockNumber e, m_view e, m_omitEmptyBlock e, m_keyPair e, votes e, drops e)"

definition cfg :: "pbft_engine \<Rightarrow> h512 list \<times> IDXTYPE \<times> IDXTYPE \<times> IDXTYPE" where
  "cfg e = (m_sealerList e, m_nodeNum e, m_f e, m_idx e)"

section \<open>Hypotheses\<close>

record world =
  w_crypto :: crypto_api
  w_decode :: "bytes \<Rightarrow> block option"
  w_exec :: "h256 \<Rightarrow> h256"
  w_good :: "block_header \<Rightarrow> bool"

definition world_ok :: "world \<Rightarrow> bool" where
  "world_ok w \<longleftrightarrow> (\<forall>a. w_exec w (w_exec w a) = w_exec w a) \<and>
     (\<forall>h h'. w_good w h \<longrightarrow> w_good w h' \<longrightarrow>
        w_exec w (header_hash (w_crypto w) h) = w_exec w (header_hash (w_crypto w) h') \<longrightarrow>
        m_number h = m_number h')"

definition env_ok :: "world \<Rightarrow> engine_env \<Rightarrow> bool" where
  "env_ok w env \<longleftrightarrow> crypto env = w_crypto w \<and> decodeBlock env = w_decode w \<and>
     (\<forall>b par b' ctx. w_good w (blockHeader b) \<longrightarrow> execute env b par = Some (b', ctx) \<longrightarrow>
        w_good w (blockHeader b') \<and> m_number (blockHeader b') = m_number (blockHeader b) \<and>
        headerHash (w_crypto w) b' = w_exec w (headerHash (w_crypto w) b))"

definition block_of :: "world \<Rightarrow> prepare_req \<Rightarrow> block option" where
  "block_of w r = (case pBlock r of Some b \<Rightarrow> Some b | None \<Rightarrow> w_decode w (block_data r))"

definition names_block :: "world \<Rightarrow> h256 \<Rightarrow> int \<Rightarrow> block \<Rightarrow> bool" where
  "names_block w h n b \<longleftrightarrow> w_good w (blockHeader b) \<and> m_number (blockHeader b) = n \<and>
     (headerHash (w_crypto w) b = h \<or> headerHash (w_crypto w) b = w_exec w h)"

definition req_ok :: "world \<Rightarrow> prepare_req \<Rightarrow> bool" where
  "req_ok w r \<longleftrightarrow> (\<forall>b. block_of w r = Some b \<longrightarrow> names_block w (block_hash r) (height r) b)"

definition empty_ok :: "world \<Rightarrow> prepare_req \<Rightarrow> bool" where
  "empty_ok w r \<longleftrightarrow> (isEmpty r \<longrightarrow> (\<forall>b. block_of w r = Some b \<longrightarrow> transactions b = []))"

section \<open>The lock\<close>

definition vote_ok :: "world \<Rightarrow> h256 \<Rightarrow> int \<Rightarrow> bool" where
  "vote_ok w h n \<longleftrightarrow> (\<exists>hd. w_good w hd \<and> header_hash (w_crypto w) hd = h \<and> m_number hd = n \<and> w_exec w h = h)"

definition prep_inv :: "world \<Rightarrow> prepare_req \<Rightarrow> prepare_req \<Rightarrow> int \<Rightarrow> bool" where
  "prep_inv w prep raw k \<longleftrightarrow>
     req_ok w raw \<and> height prep = height raw \<and> block_hash prep = w_exec w (block_hash raw) \<and>
     vote_ok w (w_exec w (block_hash raw)) (height raw) \<and> height raw \<le> k \<and>
     (\<forall>b. pBlock prep = Some b \<longrightarrow>
        headerHash (w_crypto w) b = block_hash prep \<and> names_block w (block_hash raw) (height raw) b)"

definition below :: "prepare_req \<Rightarrow> prepare_req \<Rightarrow> bool" where
  "below cmt raw \<longleftrightarrow> height cmt \<le> height raw \<and> (height cmt = height raw \<longrightarrow> block_hash cmt = block_hash raw)"

definition agree :: "pbft_msg set \<Rightarrow> bool" where
  "agree V \<longleftrightarrow> (\<forall>m\<in>V. \<forall>m'\<in>V. height m = height m' \<longrightarrow> block_hash m = block_hash m')"

definition locked :: "world \<Rightarrow> prepare_req \<Rightarrow> pbft_msg \<Rightarrow> bool" where
  "locked w cmt m \<longleftrightarrow> vote_ok w (block_hash m) (height m) \<and> height m \<le> height cmt \<and>
     (height m = height cmt \<longrightarrow> block_hash m = w_exec w (block_hash cmt))"

definition lock_inv :: "world \<Rightarrow> prepare_req \<Rightarrow> prepare_req \<Rightarrow> prepare_req \<Rightarrow> int \<Rightarrow> pbft_msg set \<Rightarrow> bool" where
  "lock_inv w prep raw cmt k V \<longleftrightarrow>
     (view prep \<noteq> MAXVIEW \<longrightarrow> prep_inv w prep raw k \<and> (V \<noteq> {} \<longrightarrow> below cmt raw)) \<and>
     (0 \<le> height cmt \<longrightarrow> req_ok w cmt) \<and> (V \<noteq> {} \<longrightarrow> height cmt \<le> k) \<and>
     (\<forall>m\<in>V. locked w cmt m) \<and> agree V"

definition future_inv :: "world \<Rightarrow> (nat \<times> prepare_req) list \<Rightarrow> bool" where
  "future_inv w fs \<longleftrightarrow> (\<forall>(k, r)\<in>set fs. req_ok w r \<and> empty_ok w r)"

definition node_inv :: "world \<Rightarrow> pbft_engine \<Rightarrow> bool" where
  "node_inv w e \<longleftrightarrow> m_omitEmptyBlock e \<and> 0 \<le> m_consensusBlockNumber e \<and>
     future_inv w (m_futurePrepareCache (m_reqCache e)) \<and>
     lock_inv w (m_prepareCache (m_reqCache e)) (m_rawPrepareCache (m_reqCache e))
       (m_committedPrepareCache (m_reqCache e)) (m_consensusBlockNumber e) (votes e)"

section \<open>Facts on the lock\<close>

lemma lock_dead: "lock_inv w prep raw cmt k V \<Longrightarrow> view prep' = MAXVIEW \<Longrightarrow> lock_inv w prep' raw' cmt k V"
  by (simp add: lock_inv_def)

lemma lock_mono: "lock_inv w prep raw cmt k V \<Longrightarrow> k \<le> k' \<Longrightarrow> lock_inv w prep raw cmt k' V"
  by (auto simp: lock_inv_def prep_inv_def)

lemma locked_below:
  assumes "locked w cmt m" "below cmt raw"
  shows "locked w raw m"
  using assms by (auto simp: locked_def below_def)

lemma lock_commit:
  assumes "lock_inv w prep raw cmt k V" "view prep \<noteq> MAXVIEW"
    and "height m = height prep" "block_hash m = block_hash prep"
  shows "lock_inv w prep raw raw k (insert m V)"
proof -
  have prep: "prep_inv w prep raw k" and bl: "V \<noteq> {} \<Longrightarrow> below cmt raw"
    and V: "\<And>v. v \<in> V \<Longrightarrow> locked w cmt v" and ag: "agree V"
    using assms(1,2) by (simp_all add: lock_inv_def)
  have old: "locked w raw v" if "v \<in> V" for v using locked_below [OF V [OF that]] bl that by blast
  have m: "height m = height raw" "block_hash m = w_exec w (block_hash raw)"
    using prep assms(3,4) by (simp_all add: prep_inv_def)
  have "vote_ok w (block_hash m) (height m)" using prep m by (simp add: prep_inv_def)
  then have new: "locked w raw m" unfolding locked_def by (simp add: m)
  have "block_hash v = block_hash m" if "v \<in> V" "height v = height m" for v
    using old [OF that(1)] that(2) m by (simp add: locked_def)
  with ag have "agree (insert m V)" unfolding agree_def by (metis insertE)
  then show ?thesis using prep old new by (auto simp: lock_inv_def below_def prep_inv_def)
qed

lemma lock_prepare:
  assumes "lock_inv w prep0 raw0 cmt k V" "req_ok w req"
    and "height p = height req" "block_hash p = w_exec w (block_hash req)"
    and "vote_ok w (w_exec w (block_hash req)) (height req)" "height req = k"
    and "pBlock p = Some b" "headerHash (w_crypto w) b = block_hash p"
    and "names_block w (block_hash req) (height req) b"
    and "height cmt = k \<longrightarrow> block_hash cmt = block_hash req"
  shows "lock_inv w p req cmt k V"
  using assms by (simp add: lock_inv_def prep_inv_def below_def)

lemma world_idem: "world_ok w \<Longrightarrow> w_exec w (w_exec w a) = w_exec w a"
  unfolding world_ok_def by blast

lemma names_block_exec_hash:
  assumes "world_ok w" "names_block w h n b"
  shows "w_exec w (headerHash (w_crypto w) b) = w_exec w h"
  using assms(2) world_idem [OF assms(1)] by (auto simp: names_block_def)

lemma world_number:
  assumes "world_ok w" "names_block w h n b" "names_block w h n' b'"
  shows "n = n'"
proof -
  have "w_good w (blockHeader b)" "w_good w (blockHeader b')"
    "n = m_number (blockHeader b)" "n' = m_number (blockHeader b')"
    using assms(2,3) by (simp_all add: names_block_def)
  moreover have "w_exec w (header_hash (w_crypto w) (blockHeader b)) = w_exec w (header_hash (w_crypto w) (blockHeader b'))"
    using names_block_exec_hash [OF assms(1,2)] names_block_exec_hash [OF assms(1,3)]
    by (simp add: headerHash_def)
  ultimately show ?thesis using assms(1) unfolding world_ok_def by blast
qed

lemma names_block_exec:
  assumes "world_ok w" "env_ok w env" "names_block w h n b" "execute env b par = Some (b', ctx)"
  shows "names_block w h n b'" "headerHash (w_crypto w) b' = w_exec w h" "vote_ok w (w_exec w h) n"
proof -
  have g: "w_good w (blockHeader b)" and n: "m_number (blockHeader b) = n"
    using assms(3) by (simp_all add: names_block_def)
  have r: "w_good w (blockHeader b')" "m_number (blockHeader b') = m_number (blockHeader b)"
    "headerHash (w_crypto w) b' = w_exec w (headerHash (w_crypto w) b)"
    using assms(2,4) g unfolding env_ok_def by blast+
  show h: "headerHash (w_crypto w) b' = w_exec w h"
    using r(3) names_block_exec_hash [OF assms(1,3)] by simp
  show "names_block w h n b'" using r n h by (simp add: names_block_def)
  show "vote_ok w (w_exec w h) n" unfolding vote_ok_def using r n h world_idem [OF assms(1), of h]
    by (intro exI [of _ "blockHeader b'"]) (simp add: headerHash_def)
qed

lemma share_sel [simp]:
  "height (share h b r) = height r" "block_hash (share h b r) = block_hash r" "view (share h b r) = view r"
  by (simp_all add: share_def)

lemma req_ok_share:
  assumes "world_ok w" "names_block w h n b" "req_ok w r"
  shows "req_ok w (share h b r)"
proof (cases "pBlock r \<noteq> None \<and> block_hash r = h")
  case True
  then obtain b0 where "block_of w r = Some b0" by (auto simp: block_of_def)
  then have "names_block w h (height r) b0" using assms(3) True by (auto simp: req_ok_def)
  then have "height r = n" using world_number [OF assms(1,2)] by blast
  then show ?thesis using True assms(2) by (simp add: share_def req_ok_def block_of_def)
next
  case False
  then have "share h b r = r" by (simp only: share_def if_False)
  then show ?thesis using assms(3) by simp
qed

lemma lock_share:
  assumes "world_ok w" "lock_inv w prep raw cmt k V" "names_block w h n b"
  shows "lock_inv w prep (share h b raw) (share h b cmt) k V"
  using assms(2) req_ok_share [OF assms(1,3)]
  by (simp add: lock_inv_def prep_inv_def below_def locked_def)

lemma lock_prep_block:
  assumes "lock_inv w prep raw cmt k V" "pBlock prep = Some b" "blockHeader b' = blockHeader b"
  shows "lock_inv w (prep\<lparr>pBlock := Some b'\<rparr>) raw cmt k V"
  using assms by (simp add: lock_inv_def prep_inv_def names_block_def headerHash_def)

section \<open>What operations leave alone\<close>

lemma core_emit [simp]:
  assumes "\<forall>m. x \<noteq> Signs CommitReqPacket m" "\<forall>b. x \<noteq> DropBlockTrans b"
  shows "core (emit_effect x e) = core e"
  using assms by (auto simp: core_def emit_effect_def votes_def drops_def)

lemma core_update [simp]:
  "core (e\<lparr>m_blockChain := c\<rparr>) = core e" "core (e\<lparr>m_blockSync := s\<rparr>) = core e"
  "core (e\<lparr>m_highestBlock := hb\<rparr>) = core e" "core (e\<lparr>m_timeManager := tm\<rparr>) = core e"
  "core (e\<lparr>m_broadCastCache := bc\<rparr>) = core e" "core (e\<lparr>m_connectedNode := cn\<rparr>) = core e"
  "core (e\<lparr>m_viewMap := vm\<rparr>) = core e" "core (e\<lparr>m_threadPool := tp\<rparr>) = core e"
  "core (e\<lparr>m_fastViewChange := fv\<rparr>) = core e" "core (e\<lparr>m_toView := tv\<rparr>) = core e"
  "core (e\<lparr>m_leaderFailed := lf\<rparr>) = core e" "core (e\<lparr>m_notifyNextLeaderSeal := nl\<rparr>) = core e"
  "core (e\<lparr>m_sealingNumber := sn\<rparr>) = core e" "core (e\<lparr>m_msgQueue := mq\<rparr>) = core e"
  "core (e\<lparr>m_cachedForwardMsg := cf\<rparr>) = core e" "core (e\<lparr>m_backupDB := db\<rparr>) = core e"
  "core (e\<lparr>m_maxBlockTransactions := mt\<rparr>) = core e" "core (e\<lparr>m_accountType := ac\<rparr>) = core e"
  "core (e\<lparr>m_sealerListUpdated := su\<rparr>) = core e" "core (e\<lparr>m_lastSealerListUpdateNumber := ln\<rparr>) = core e"
  "core (e\<lparr>m_sealerList := sl\<rparr>) = core e" "core (e\<lparr>m_lastNodeList := nl'\<rparr>) = core e"
  "core (e\<lparr>m_nodeNum := nn\<rparr>) = core e" "core (e\<lparr>m_f := ff\<rparr>) = core e"
  "core (e\<lparr>m_cfgErr := ce\<rparr>) = core e" "core (e\<lparr>m_idx := ix\<rparr>) = core e"
  "core (e\<lparr>m_consensusSet := cs\<rparr>) = core e"
  by (simp_all add: core_def votes_def drops_def)

lemma votes_update [simp]:
  "votes (e\<lparr>m_reqCache := c\<rparr>) = votes e" "votes (e\<lparr>m_timeManager := tm\<rparr>) = votes e"
  "votes (e\<lparr>m_threadPool := tp\<rparr>) = votes e" "votes (e\<lparr>m_view := v\<rparr>) = votes e"
  "votes (e\<lparr>m_toView := v\<rparr>) = votes e" "votes (e\<lparr>m_leaderFailed := b\<rparr>) = votes e"
  "votes (e\<lparr>m_consensusBlockNumber := k\<rparr>) = votes e" "votes (e\<lparr>m_highestBlock := h\<rparr>) = votes e"
  "votes (e\<lparr>m_notifyNextLeaderSeal := b\<rparr>) = votes e" "votes (e\<lparr>m_fastViewChange := b\<rparr>) = votes e"
  "votes (e\<lparr>m_blockSync := s\<rparr>) = votes e" "votes (e\<lparr>m_blockChain := ch\<rparr>) = votes e"
  by (simp_all add: votes_def)

lemma drops_update [simp]:
  "drops (e\<lparr>m_reqCache := c\<rparr>) = drops e" "drops (e\<lparr>m_timeManager := tm\<rparr>) = drops e"
  "drops (e\<lparr>m_threadPool := tp\<rparr>) = drops e" "drops (e\<lparr>m_view := v\<rparr>) = drops e"
  "drops (e\<lparr>m_toView := v\<rparr>) = drops e" "drops (e\<lparr>m_leaderFailed := b\<rparr>) = drops e"
  "drops (e\<lparr>m_consensusBlockNumber := k\<rparr>) = drops e" "drops (e\<lparr>m_highestBlock := h\<rparr>) = drops e"
  "drops (e\<lparr>m_notifyNextLeaderSeal := b\<rparr>) = drops e" "drops (e\<lparr>m_fastViewChange := b\<rparr>) = drops e"
  "drops (e\<lparr>m_blockSync := s\<rparr>) = drops e" "drops (e\<lparr>m_blockChain := ch\<rparr>) = drops e"
  by (simp_all add: drops_def)

lemma cfg_emit [simp]: "cfg (emit_effect x e) = cfg e"
  by (simp add: cfg_def emit_effect_def)

lemma cfg_update [simp]:
  "cfg (e\<lparr>m_blockChain := c\<rparr>) = cfg e" "cfg (e\<lparr>m_blockSync := s\<rparr>) = cfg e"
  "cfg (e\<lparr>m_highestBlock := hb\<rparr>) = cfg e" "cfg (e\<lparr>m_timeManager := tm\<rparr>) = cfg e"
  "cfg (e\<lparr>m_broadCastCache := bc\<rparr>) = cfg e" "cfg (e\<lparr>m_connectedNode := cn\<rparr>) = cfg e"
  "cfg (e\<lparr>m_viewMap := vm\<rparr>) = cfg e" "cfg (e\<lparr>m_threadPool := tp\<rparr>) = cfg e"
  "cfg (e\<lparr>m_fastViewChange := fv\<rparr>) = cfg e" "cfg (e\<lparr>m_toView := tv\<rparr>) = cfg e"
  "cfg (e\<lparr>m_leaderFailed := lf\<rparr>) = cfg e" "cfg (e\<lparr>m_notifyNextLeaderSeal := nl\<rparr>) = cfg e"
  "cfg (e\<lparr>m_sealingNumber := sn\<rparr>) = cfg e" "cfg (e\<lparr>m_msgQueue := mq\<rparr>) = cfg e"
  "cfg (e\<lparr>m_cachedForwardMsg := cf\<rparr>) = cfg e" "cfg (e\<lparr>m_backupDB := db\<rparr>) = cfg e"
  "cfg (e\<lparr>m_reqCache := rc\<rparr>) = cfg e" "cfg (e\<lparr>m_view := v\<rparr>) = cfg e"
  "cfg (e\<lparr>m_consensusBlockNumber := k\<rparr>) = cfg e" "cfg (e\<lparr>m_maxBlockTransactions := mt\<rparr>) = cfg e"
  "cfg (e\<lparr>m_accountType := ac\<rparr>) = cfg e"
  by (simp_all add: cfg_def)

lemma multicast_frame [simp]:
  "core (multicast env ts d t n p fl e) = core e" "cfg (multicast env ts d t n p fl e) = cfg e"
  by (simp_all add: multicast_def Let_def)

lemma broadcastMsg_frame [simp]:
  "core (broadcastMsg env t m d fl n e) = core e" "cfg (broadcastMsg env t m d fl n e) = cfg e"
  by (simp_all add: broadcastMsg_def case_prod_beta)

lemma sendMsg_frame [simp]:
  "core (fst (sendMsg env n t key d l fwd e)) = core e" "cfg (fst (sendMsg env n t key d l fwd e)) = cfg e"
  by (simp_all add: sendMsg_def)

lemma sendViewChangeMsg_frame [simp]:
  "core (sendViewChangeMsg env n e) = core e" "cfg (sendViewChangeMsg env n e) = cfg e"
  by (simp_all add: sendViewChangeMsg_def Let_def)

lemma broadcastViewChangeReq_frame [simp]:
  "core (broadcastViewChangeReq env e) = core e" "cfg (broadcastViewChangeReq env e) = cfg e"
  by (simp_all add: broadcastViewChangeReq_def Let_def)

lemma forwardMsg_frame [simp]: "core (forwardMsg env p m e) = core e" "cfg (forwardMsg env p m e) = cfg e"
proof -
  have "core (fold (\<lambda>n e. fst (sendMsg env n t key d l fwd e)) ns e) = core e \<and>
      cfg (fold (\<lambda>n e. fst (sendMsg env n t key d l fwd e)) ns e) = cfg e" for t key d l fwd ns e
    by (induction ns arbitrary: e) simp_all
  then show "core (forwardMsg env p m e) = core e" "cfg (forwardMsg env p m e) = cfg e"
    by (simp_all add: forwardMsg_def forwardMsgByNodeInfo_def forwardMsgByTTL_def Let_def)
qed

lemma small_frame [simp]:
  "core (updateViewMap i v e) = core e" "cfg (updateViewMap i v e) = cfg e"
  "core (clearMask e) = core e" "cfg (clearMask e) = cfg e"
  "core (changeViewForFastViewChange e) = core e" "cfg (changeViewForFastViewChange e) = cfg e"
  "core (notifySealing env b e) = core e" "cfg (notifySealing env b e) = cfg e"
  by (simp_all add: updateViewMap_def clearMask_def changeViewForFastViewChange_def notifySealing_def)

section \<open>Cache operations\<close>

lemma addSignReq_fields [simp]:
  "m_prepareCache (addSignReq r c) = m_prepareCache c" "m_rawPrepareCache (addSignReq r c) = m_rawPrepareCache c"
  "m_committedPrepareCache (addSignReq r c) = m_committedPrepareCache c"
  "m_futurePrepareCache (addSignReq r c) = m_futurePrepareCache c" "m_commitCache (addSignReq r c) = m_commitCache c"
  by (simp_all add: addSignReq_def)

lemma addCommitReq_fields [simp]:
  "m_prepareCache (addCommitReq r c) = m_prepareCache c" "m_rawPrepareCache (addCommitReq r c) = m_rawPrepareCache c"
  "m_committedPrepareCache (addCommitReq r c) = m_committedPrepareCache c"
  "m_futurePrepareCache (addCommitReq r c) = m_futurePrepareCache c"
  by (simp_all add: addCommitReq_def)

lemma getSigCacheSize_fields [simp]:
  "m_prepareCache (fst (getSigCacheSize ch h n c)) = m_prepareCache c"
  "m_rawPrepareCache (fst (getSigCacheSize ch h n c)) = m_rawPrepareCache c"
  "m_committedPrepareCache (fst (getSigCacheSize ch h n c)) = m_committedPrepareCache c"
  "m_futurePrepareCache (fst (getSigCacheSize ch h n c)) = m_futurePrepareCache c"
  "m_commitCache (fst (getSigCacheSize ch h n c)) = m_commitCache c"
  by (simp_all add: getSigCacheSize_def Let_def case_prod_beta)

lemma getCommitCacheSize_fields [simp]:
  "m_prepareCache (fst (getCommitCacheSize ch h n c)) = m_prepareCache c"
  "m_rawPrepareCache (fst (getCommitCacheSize ch h n c)) = m_rawPrepareCache c"
  "m_committedPrepareCache (fst (getCommitCacheSize ch h n c)) = m_committedPrepareCache c"
  "m_futurePrepareCache (fst (getCommitCacheSize ch h n c)) = m_futurePrepareCache c"
  by (simp_all add: getCommitCacheSize_def Let_def case_prod_beta)

text \<open>The fields the lock depends on, and the commit cache, as one value.\<close>

definition cfields :: "req_cache \<Rightarrow> prepare_req \<times> prepare_req \<times> prepare_req \<times> (nat \<times> prepare_req) list \<times> sig_cache" where
  "cfields c = (m_prepareCache c, m_rawPrepareCache c, m_committedPrepareCache c, m_futurePrepareCache c, m_commitCache c)"

lemma eraseExpiredViewChange_fields [simp]: "cfields (eraseExpiredViewChange i c) = cfields c"
  by (simp add: eraseExpiredViewChange_def Let_def cfields_def split: option.split)

lemma view_change_fields [simp]:
  "cfields (addViewChangeReq r n c) = cfields c"
  "cfields (removeInvalidViewChange v n h c) = cfields c"
  "cfields (removeInvalidLatestViewChangeReq n h c) = cfields c"
  "cfields (delInvalidViewChange n h c) = cfields c"
  "cfields (eraseLatestViewChangeCacheForNodeUpdated r c) = cfields c"
proof -
  show l: "cfields (removeInvalidLatestViewChangeReq n h c) = cfields c" for n h c
    by (simp add: removeInvalidLatestViewChangeReq_def cfields_def)
  show "cfields (delInvalidViewChange n h c) = cfields c" by (simp add: delInvalidViewChange_def cfields_def)
  show "cfields (eraseLatestViewChangeCacheForNodeUpdated r c) = cfields c"
    by (simp add: eraseLatestViewChangeCacheForNodeUpdated_def cfields_def)
  have recv: "cfields (c\<lparr>m_recvViewChangeReq := x\<rparr>) = cfields c" for x c by (simp add: cfields_def)
  have recv2: "cfields (c\<lparr>m_recvViewChangeReq := x, m_latestViewChangeReqCache := y\<rparr>) = cfields c" for x y c
    by (simp add: cfields_def)
  show "cfields (removeInvalidViewChange v n h c) = cfields c"
    by (simp add: removeInvalidViewChange_def l recv split: option.split)
  have "cfields (fst (checkViewChangeReq r n c)) = cfields c"
    by (simp add: checkViewChangeReq_def split: option.split)
  then show "cfields (addViewChangeReq r n c) = cfields c"
    by (simp add: addViewChangeReq_def case_prod_beta Let_def recv2)
qed

lemma collectGarbage_fields:
  "m_prepareCache (collectGarbage n h c) = m_prepareCache c"
  "m_rawPrepareCache (collectGarbage n h c) = m_rawPrepareCache c"
  "m_committedPrepareCache (collectGarbage n h c) = m_committedPrepareCache c"
  "set (m_futurePrepareCache (collectGarbage n h c)) \<subseteq> set (m_futurePrepareCache c)"
  "m_commitCache (collectGarbage n h c) = removeInvalidEntryFromCache n h (m_commitCache c)"
  by (auto simp: collectGarbage_def Let_def removeInvalidLatestViewChangeReq_def delInvalidViewChange_def
      removeInvalidFutureCache_def)

lemma addPrepareReq_fields [simp]:
  "m_prepareCache (addPrepareReq r c) = r" "m_rawPrepareCache (addPrepareReq r c) = m_rawPrepareCache c"
  "m_committedPrepareCache (addPrepareReq r c) = m_committedPrepareCache c"
  "m_futurePrepareCache (addPrepareReq r c) = m_futurePrepareCache c"
  "m_commitCache (addPrepareReq r c) = removeInvalidViewOf (block_hash r) (view r) (m_commitCache c)"
  by (simp_all add: addPrepareReq_def removeInvalidCommitCache_def removeInvalidSignCache_def)

lemma delCache_fields:
  "m_prepareCache (delCache n h c) =
     (if h = block_hash (m_prepareCache c) then clear_msg (m_prepareCache c) else m_prepareCache c)"
  "m_rawPrepareCache (delCache n h c) = m_rawPrepareCache c"
  "m_committedPrepareCache (delCache n h c) = m_committedPrepareCache c"
  "set (m_futurePrepareCache (delCache n h c)) \<subseteq> set (m_futurePrepareCache c)"
  "m_commitCache (delCache n h c) = AList.delete h (m_commitCache c)"
  by (auto simp: delCache_def Let_def removeInvalidFutureCache_def)

lemma clear_msg_view [simp]: "view (clear_msg m) = MAXVIEW" "block_hash (clear_msg m) = 0"
  by (simp_all add: clear_msg_def)

lemma future_inv_subset: "future_inv w fs \<Longrightarrow> set fs' \<subseteq> set fs \<Longrightarrow> future_inv w fs'"
  by (auto simp: future_inv_def)

text \<open>Operations that keep the lock, as a rule on the cache alone.\<close>

definition cache_lock :: "world \<Rightarrow> int \<Rightarrow> pbft_msg set \<Rightarrow> req_cache \<Rightarrow> bool" where
  "cache_lock w k V c \<longleftrightarrow> future_inv w (m_futurePrepareCache c) \<and>
     lock_inv w (m_prepareCache c) (m_rawPrepareCache c) (m_committedPrepareCache c) k V"

lemma node_inv_cache: "node_inv w e \<longleftrightarrow> m_omitEmptyBlock e \<and> 0 \<le> m_consensusBlockNumber e \<and>
    cache_lock w (m_consensusBlockNumber e) (votes e) (m_reqCache e)"
  by (auto simp: node_inv_def cache_lock_def)

lemma node_inv_core: "core e' = core e \<Longrightarrow> node_inv w e' = node_inv w e"
  by (simp add: core_def node_inv_def)

lemma cache_lock_cfields: "cfields c' = cfields c \<Longrightarrow> cache_lock w k V c' = cache_lock w k V c"
  by (simp add: cfields_def cache_lock_def)

lemma cache_lock_delCache: "cache_lock w k V c \<Longrightarrow> cache_lock w k V (delCache n h c)"
  by (auto simp: cache_lock_def delCache_fields(1-3) intro: lock_dead future_inv_subset [OF _ delCache_fields(4)])

lemma cache_lock_collectGarbage: "cache_lock w k V c \<Longrightarrow> cache_lock w k V (collectGarbage n h c)"
  by (auto simp: cache_lock_def collectGarbage_fields(1-3) intro: future_inv_subset [OF _ collectGarbage_fields(4)])

lemma cache_lock_triggerViewChange: "cache_lock w k V c \<Longrightarrow> cache_lock w k V (triggerViewChange v n c)"
  by (auto simp: cache_lock_def triggerViewChange_fields intro: lock_dead future_inv_subset)

lemma cache_lock_addRawPrepare: "cache_lock w k V c \<Longrightarrow> cache_lock w k V (addRawPrepare r c)"
  by (auto simp: cache_lock_def addRawPrepare_def intro: lock_dead)

lemma cache_lock_addFuture:
  "cache_lock w k V c \<Longrightarrow> req_ok w r \<Longrightarrow> empty_ok w r \<Longrightarrow> cache_lock w k V (addFuturePrepareCache r c)"
  using set_AList_update [of "to_uint64 (height r)" r "m_futurePrepareCache c"]
  by (auto simp: cache_lock_def addFuturePrepareCache_def future_inv_def split: option.split)

lemma cache_lock_eraseFuture: "cache_lock w k V c \<Longrightarrow> cache_lock w k V (eraseHandledFutureReq n c)"
  using set_AList_delete [of n "m_futurePrepareCache c"]
  by (auto simp: cache_lock_def eraseHandledFutureReq_def intro: future_inv_subset)

lemma cache_lock_share:
  "world_ok w \<Longrightarrow> names_block w h n b \<Longrightarrow> cache_lock w k V c \<Longrightarrow> cache_lock w k V (share_block h b c)"
  by (simp add: cache_lock_def share_block_def lock_share)

lemma node_inv_on_cache:
  assumes "node_inv w e" "\<And>k V. cache_lock w k V (m_reqCache e) \<Longrightarrow> cache_lock w k V (f (m_reqCache e))"
  shows "node_inv w (on_cache f e)"
  using assms by (simp add: node_inv_cache votes_def)

lemma node_inv_drop [simp]: "node_inv w (emit_effect (DropBlockTrans b) e) = node_inv w e"
  by (simp add: node_inv_def emit_effect_def votes_def)

section \<open>Committing a block\<close>

lemma generateAndSetSigList_header [simp]: "blockHeader (fst (generateAndSetSigList b n c)) = blockHeader b"
  by (simp add: generateAndSetSigList_def Let_def setSigList_def split: option.split)

definition signed_cache :: "block \<Rightarrow> req_cache \<Rightarrow> req_cache" where
  "signed_cache b c = share_block (block_hash (m_rawPrepareCache c)) b
     (c\<lparr>m_prepareCache := (m_prepareCache c)\<lparr>pBlock := Some b\<rparr>\<rparr>)"

lemma commit_prepared_fields:
  defines "b' \<equiv> \<lambda>b e. fst (generateAndSetSigList b (minValidNodes e) (m_reqCache e))"
  defines "ok \<equiv> \<lambda>env b e. fst (commitBlock (crypto env) (commitEnv env)
      (dbCommit env (p_execContext (m_prepareCache (m_reqCache e)))) (b' b e) (m_blockChain e)) = COMMIT_OK"
  shows "m_reqCache (commit_prepared env b e) =
      (if ok env b e then delCache (m_number (blockHeader b)) (headerHash (crypto env) b) else id) (signed_cache (b' b e) (m_reqCache e))"
    and "drops (commit_prepared env b e) = (if ok env b e then insert (b' b e) (drops e) else drops e)"
    and "votes (commit_prepared env b e) = votes e" "cfg (commit_prepared env b e) = cfg e"
    and "m_consensusBlockNumber (commit_prepared env b e) = m_consensusBlockNumber e"
    and "m_omitEmptyBlock (commit_prepared env b e) = m_omitEmptyBlock e"
    and "m_view (commit_prepared env b e) = m_view e" "m_keyPair (commit_prepared env b e) = m_keyPair e"
  by (auto simp: commit_prepared_def Let_def case_prod_beta votes_def drops_def cfg_def emit_effect_def
      signed_cache_def b'_def ok_def headerHash_def)

lemma node_inv_commit_prepared:
  assumes "world_ok w" "node_inv w e" "pBlock (m_prepareCache (m_reqCache e)) = Some b"
    and "view (m_prepareCache (m_reqCache e)) \<noteq> MAXVIEW"
  shows "node_inv w (commit_prepared env b e)"
proof -
  let ?c = "m_reqCache e" and ?b = "fst (generateAndSetSigList b (minValidNodes e) (m_reqCache e))"
  let ?raw = "m_rawPrepareCache (m_reqCache e)"
  have "prep_inv w (m_prepareCache ?c) ?raw (m_consensusBlockNumber e)"
    using assms(2,4) by (simp add: node_inv_def lock_inv_def)
  then have "names_block w (block_hash ?raw) (height ?raw) b" by (simp add: prep_inv_def assms(3))
  then have nb: "names_block w (block_hash ?raw) (height ?raw) ?b" by (simp add: names_block_def headerHash_def)
  have "cache_lock w k V (?c\<lparr>m_prepareCache := (m_prepareCache ?c)\<lparr>pBlock := Some ?b\<rparr>\<rparr>)"
    if "cache_lock w k V ?c" for k V
    using that lock_prep_block [OF _ assms(3) generateAndSetSigList_header] by (simp add: cache_lock_def)
  then have "cache_lock w k V (signed_cache ?b ?c)" if "cache_lock w k V ?c" for k V
    unfolding signed_cache_def using that by (intro cache_lock_share [OF assms(1) nb])
  then show ?thesis using assms(2)
    by (simp add: node_inv_cache commit_prepared_fields cache_lock_delCache)
qed


lemma core_reqCache: "core (e\<lparr>m_reqCache := c\<rparr>) = (c, snd (core e))" "m_reqCache e = fst (core e)"
  by (simp_all add: core_def votes_def drops_def)

definition counted :: "engine_env \<Rightarrow> pbft_engine \<Rightarrow> req_cache \<times> nat" where
  "counted env e = getCommitCacheSize (checkSign (crypto env) e) (block_hash (m_prepareCache (m_reqCache e)))
     (minValidNodes e) (fst (getSigCacheSize (checkSign (crypto env) e)
       (block_hash (m_prepareCache (m_reqCache e))) (minValidNodes e) (m_reqCache e)))"

lemma checkAndSave_cases:
  obtains (keep) "checkAndSave env e = e\<lparr>m_reqCache := fst (counted env e)\<rparr>"
  | (commit) b where "checkAndSave env e = commit_prepared env b (e\<lparr>m_reqCache := fst (counted env e)\<rparr>)"
      "pBlock (m_prepareCache (m_reqCache e)) = Some b" "view (m_prepareCache (m_reqCache e)) = m_view e"
      "unat (minValidNodes e) \<le> snd (counted env e)"
proof -
  let ?n = "unat (minValidNodes e)" and ?p = "m_prepareCache (m_reqCache e)"
  let ?s = "getSigCacheSize (checkSign (crypto env) e) (block_hash ?p) (minValidNodes e) (m_reqCache e)"
  let ?go = "?n \<le> snd ?s \<and> ?n \<le> snd (counted env e) \<and> view ?p = m_view e \<and>
    m_number (m_highestBlock e) < height ?p"
  have eq: "checkAndSave env e =
      (if ?go then case pBlock ?p of None \<Rightarrow> e\<lparr>m_reqCache := fst (counted env e)\<rparr>
         | Some b \<Rightarrow> commit_prepared env b (e\<lparr>m_reqCache := fst (counted env e)\<rparr>)
       else e\<lparr>m_reqCache := fst (counted env e)\<rparr>)"
    unfolding checkAndSave_def counted_def Let_def case_prod_beta by simp
  show thesis
  proof (cases "?go \<and> pBlock ?p \<noteq> None")
    case True
    then obtain b where "pBlock ?p = Some b" by blast
    with True show thesis by (intro commit [of b]) (simp_all add: eq)
  next
    case False
    then show thesis by (intro keep) (auto simp: eq split: option.split)
  qed
qed

lemma counted_fields [simp]:
  "m_prepareCache (fst (counted env e)) = m_prepareCache (m_reqCache e)"
  "m_rawPrepareCache (fst (counted env e)) = m_rawPrepareCache (m_reqCache e)"
  "m_committedPrepareCache (fst (counted env e)) = m_committedPrepareCache (m_reqCache e)"
  "m_futurePrepareCache (fst (counted env e)) = m_futurePrepareCache (m_reqCache e)"
  by (simp_all add: counted_def)

lemma node_inv_counted: "node_inv w (e\<lparr>m_reqCache := fst (counted env e)\<rparr>) = node_inv w e"
  by (simp add: node_inv_def votes_def)

lemma node_inv_checkAndSave:
  assumes "world_ok w" "node_inv w e" "m_view e \<noteq> MAXVIEW"
  shows "node_inv w (checkAndSave env e)"
proof (cases rule: checkAndSave_cases [of env e])
  case keep
  then show ?thesis using assms(2) by (simp add: node_inv_counted)
next
  case (commit b)
  then show ?thesis using assms
    by (simp add: node_inv_commit_prepared [OF assms(1)] node_inv_counted)
qed

section \<open>Signing a commit request\<close>

lemma mkCommitReq_sel [simp]:
  "height (mkCommitReq cr kp now r i) = height r" "view (mkCommitReq cr kp now r i) = view r"
  "idx (mkCommitReq cr kp now r i) = i" "block_hash (mkCommitReq cr kp now r i) = block_hash r"
  "isFuture (mkCommitReq cr kp now r i) = False"
  by (simp_all add: mkCommitReq_def mkPBFTMsg_def signMsg_def Let_def emptyMsg_def)

lemma mkPrepareFromSealing_sel [simp]:
  "height (mkPrepareFromSealing cr kp now r b ctx) = height r" "view (mkPrepareFromSealing cr kp now r b ctx) = view r"
  "block_hash (mkPrepareFromSealing cr kp now r b ctx) = headerHash cr b"
  "pBlock (mkPrepareFromSealing cr kp now r b ctx) = Some b"
  by (simp_all add: mkPrepareFromSealing_def signMsg_def Let_def)

abbreviation own_commit :: "engine_env \<Rightarrow> pbft_engine \<Rightarrow> prepare_req \<Rightarrow> commit_req" where
  "own_commit env e r \<equiv> mkCommitReq (crypto env) (m_keyPair e) (utcTime env) r (m_idx e)"

lemma broadcastCommitReq_frame:
  "m_reqCache (broadcastCommitReq env r e) = addCommitReq (own_commit env e r) (m_reqCache e)"
  "votes (broadcastCommitReq env r e) = insert (own_commit env e r) (votes e)"
  "drops (broadcastCommitReq env r e) = drops e" "cfg (broadcastCommitReq env r e) = cfg e"
  "m_consensusBlockNumber (broadcastCommitReq env r e) = m_consensusBlockNumber e"
  "m_view (broadcastCommitReq env r e) = m_view e" "m_keyPair (broadcastCommitReq env r e) = m_keyPair e"
  "m_omitEmptyBlock (broadcastCommitReq env r e) = m_omitEmptyBlock e"
  by (auto simp: broadcastCommitReq_def broadcastMsg_def multicast_def Let_def case_prod_beta
      emit_effect_def votes_def drops_def cfg_def)

lemma broadcastSignReq_frame:
  "m_reqCache (broadcastSignReq env r e) =
     addSignReq (mkSignReq (crypto env) (m_keyPair e) (utcTime env) r (m_idx e)) (m_reqCache e)"
  "votes (broadcastSignReq env r e) = votes e"
  "drops (broadcastSignReq env r e) = drops e" "cfg (broadcastSignReq env r e) = cfg e"
  "m_consensusBlockNumber (broadcastSignReq env r e) = m_consensusBlockNumber e"
  "m_view (broadcastSignReq env r e) = m_view e" "m_keyPair (broadcastSignReq env r e) = m_keyPair e"
  "m_omitEmptyBlock (broadcastSignReq env r e) = m_omitEmptyBlock e"
  by (auto simp: broadcastSignReq_def broadcastMsg_def multicast_def Let_def case_prod_beta
      emit_effect_def votes_def drops_def cfg_def)

text \<open>The state after a node has signed a commit request, before it counts those of the others.\<close>

definition after_sign :: "engine_env \<Rightarrow> pbft_engine \<Rightarrow> pbft_engine" where
  "after_sign env e =
     (let e2 = on_cache updateCommittedPrepare
            (e\<lparr>m_reqCache := fst (getSigCacheSize (checkSign (crypto env) e)
               (block_hash (m_prepareCache (m_reqCache e))) (minValidNodes e) (m_reqCache e))\<rparr>);
          e3 = e2\<lparr>m_threadPool := m_threadPool e2 @ [BackupCommitted]\<rparr>;
          e4 = broadcastCommitReq env (m_prepareCache (m_reqCache e3)) e3
      in on_timer (\<lambda>tm. tm\<lparr>m_lastSignTime := utcSteadyTime env\<rparr>) e4)"

lemma checkAndCommit_cases:
  obtains (keep) c where "checkAndCommit env e = e\<lparr>m_reqCache := c\<rparr>" "cfields c = cfields (m_reqCache e)"
  | (sign) "checkAndCommit env e = checkAndSave env (after_sign env e)"
      "view (m_prepareCache (m_reqCache e)) = m_view e"
      "unat (minValidNodes e) = snd (getSigCacheSize (checkSign (crypto env) e)
         (block_hash (m_prepareCache (m_reqCache e))) (minValidNodes e) (m_reqCache e))"
proof -
  let ?s = "getSigCacheSize (checkSign (crypto env) e) (block_hash (m_prepareCache (m_reqCache e)))
    (minValidNodes e) (m_reqCache e)"
  have k: "cfields (fst ?s) = cfields (m_reqCache e)" by (simp add: cfields_def)
  show thesis
  proof (cases "snd ?s = unat (minValidNodes e) \<and> view (m_prepareCache (m_reqCache e)) = m_view e")
    case True
    then have "checkAndCommit env e = checkAndSave env (after_sign env e)"
      unfolding checkAndCommit_def after_sign_def Let_def case_prod_beta by simp
    then show thesis using True sign by simp
  next
    case False
    then have "checkAndCommit env e = e\<lparr>m_reqCache := fst ?s\<rparr>"
      unfolding checkAndCommit_def Let_def case_prod_beta by auto
    then show thesis using k keep by blast
  qed
qed

lemma after_sign_fields:
  "m_prepareCache (m_reqCache (after_sign env e)) = m_prepareCache (m_reqCache e)"
  "m_rawPrepareCache (m_reqCache (after_sign env e)) = m_rawPrepareCache (m_reqCache e)"
  "m_committedPrepareCache (m_reqCache (after_sign env e)) = m_rawPrepareCache (m_reqCache e)"
  "m_futurePrepareCache (m_reqCache (after_sign env e)) = m_futurePrepareCache (m_reqCache e)"
  "m_commitCache (m_reqCache (after_sign env e)) =
     m_commitCache (addCommitReq (own_commit env e (m_prepareCache (m_reqCache e))) (m_reqCache e))"
  "votes (after_sign env e) = insert (own_commit env e (m_prepareCache (m_reqCache e))) (votes e)"
  "drops (after_sign env e) = drops e" "cfg (after_sign env e) = cfg e"
  "m_consensusBlockNumber (after_sign env e) = m_consensusBlockNumber e"
  "m_view (after_sign env e) = m_view e" "m_keyPair (after_sign env e) = m_keyPair e"
  "m_omitEmptyBlock (after_sign env e) = m_omitEmptyBlock e"
  by (simp_all add: after_sign_def Let_def broadcastCommitReq_frame updateCommittedPrepare_def addCommitReq_def)

lemma node_inv_after_sign:
  assumes "node_inv w e" "view (m_prepareCache (m_reqCache e)) \<noteq> MAXVIEW"
  shows "node_inv w (after_sign env e)"
proof -
  let ?c = "m_reqCache e"
  have "lock_inv w (m_prepareCache ?c) (m_rawPrepareCache ?c) (m_committedPrepareCache ?c)
      (m_consensusBlockNumber e) (votes e)" using assms(1) by (simp add: node_inv_def)
  from lock_commit [OF this assms(2), of "own_commit env e (m_prepareCache ?c)"]
  show ?thesis using assms(1) by (simp add: node_inv_def after_sign_fields)
qed

lemma node_inv_cfields:
  assumes "cfields c = cfields (m_reqCache e)"
  shows "node_inv w (e\<lparr>m_reqCache := c\<rparr>) = node_inv w e"
  using assms by (simp add: node_inv_def votes_def cfields_def)

lemma node_inv_checkAndCommit:
  assumes "world_ok w" "node_inv w e" "m_view e \<noteq> MAXVIEW"
  shows "node_inv w (checkAndCommit env e)"
proof (cases rule: checkAndCommit_cases [of env e])
  case (keep c)
  then show ?thesis using assms(2) node_inv_cfields by simp
next
  case sign
  then show ?thesis using assms
    by (simp add: node_inv_checkAndSave node_inv_after_sign after_sign_fields)
qed

section \<open>Execution and proposals\<close>

definition frame :: "pbft_engine \<Rightarrow> pbft_engine \<Rightarrow> bool" where
  "frame e e' \<longleftrightarrow> core e' = core e \<and> cfg e' = cfg e"

lemma frame_trans [trans]: "frame e e' \<Longrightarrow> frame e' e'' \<Longrightarrow> frame e e''"
  by (simp add: frame_def)

lemma checkBlockValid_frame:
  "checkBlockValid env b e = Inl (err, e') \<Longrightarrow> frame e e'" "checkBlockValid env b e = Inr e' \<Longrightarrow> frame e e'"
  by (auto simp: checkBlockValid_def base_checkBlockValid_def Let_def case_prod_beta frame_def split: if_splits)

lemma executeBlock_frame:
  "executeBlock env b e = Inl (err, e') \<Longrightarrow> frame e e'"
  "executeBlock env b e = Inr (r, e') \<Longrightarrow> frame e e' \<and> (\<exists>par. execute env b par = Some r)"
  by (auto simp: executeBlock_def Let_def case_prod_beta frame_def split: option.splits)

lemma execChecked_cases:
  obtains (throw) err e' where "execChecked env req b e = Inl (err, e')" "frame e e'"
  | (run) par b' ctx e' where "execChecked env req b e = Inr ((b', ctx), e')" "frame e e'"
      "execute env b par = Some (b', ctx)"
proof -
  let ?e = "on_sync (noteSealingBlockNumber (m_number (blockHeader b)))
    (if idx req \<noteq> m_idx e then notifySealing env b e else e)"
  have f: "frame e ?e" by (simp add: frame_def)
  have eq: "execChecked env req b e = (if \<not> verifyTxs env b then Inl (InvalidTransaction, ?e) else executeBlock env b ?e)"
    by (simp add: execChecked_def Let_def)
  show thesis
  proof (cases "executeBlock env b ?e")
    case (Inl x)
    then obtain err e' where x: "executeBlock env b ?e = Inl (err, e')" by (cases x) auto
    have "frame e e'" using f executeBlock_frame(1) [OF x] frame_trans by blast
    then show thesis using throw f eq x by (cases "verifyTxs env b") auto
  next
    case (Inr x)
    then obtain b' ctx e' where x: "executeBlock env b ?e = Inr ((b', ctx), e')" by (cases x) auto
    have "frame e e'" using f executeBlock_frame(2) [OF x] frame_trans by blast
    moreover obtain par where "execute env b par = Some (b', ctx)" using executeBlock_frame(2) [OF x] by blast
    ultimately show thesis using throw [of _ ?e] f eq x run [of b' ctx e' par]
      by (cases "verifyTxs env b") auto
  qed
qed

text \<open>\<open>block_in\<close> is the block \<^verbatim>\<open>execBlock\<close> works on.\<close>

definition block_in :: "engine_env \<Rightarrow> prepare_req \<Rightarrow> block option" where
  "block_in env req = (case pBlock req of Some b \<Rightarrow> Some b | None \<Rightarrow> decodeBlock env (block_data req))"

lemma execBlock_eq:
  assumes "block_in env req = Some b"
  shows "execBlock env req e = (if transactions b = [] \<and> m_omitEmptyBlock e
      then Inr ((b, None), e\<lparr>m_sealingNumber := getTransactionSize b\<rparr>)
      else ebind (checkBlockValid env b (e\<lparr>m_sealingNumber := getTransactionSize b\<rparr>)) (execChecked env req b))"
  using assms by (simp add: execBlock_def block_in_def getTransactionSize_def Let_def)

lemma execBlock_cases:
  obtains (omit) b e' where "execBlock env req e = Inr ((b, None), e')" "frame e e'" "block_in env req = Some b"
      "transactions b = []" "m_omitEmptyBlock e"
  | (throw) err e' where "execBlock env req e = Inl (err, e')" "frame e e'"
  | (run) b par b' ctx e' where "execBlock env req e = Inr ((b', ctx), e')" "frame e e'" "block_in env req = Some b"
      "execute env b par = Some (b', ctx)" "transactions b \<noteq> [] \<or> \<not> m_omitEmptyBlock e"
proof (cases "block_in env req")
  case None
  then have "execBlock env req e = Inl (DecodeFailed, e)" by (simp add: execBlock_def block_in_def)
  then show thesis by (rule throw) (simp add: frame_def)
next
  case (Some b)
  let ?e1 = "e\<lparr>m_sealingNumber := getTransactionSize b\<rparr>"
  have f1: "frame e ?e1" by (simp add: frame_def)
  show thesis
  proof (cases "transactions b = [] \<and> m_omitEmptyBlock e")
    case True
    then have "execBlock env req e = Inr ((b, None), ?e1)" by (simp add: execBlock_eq [OF Some])
    then show thesis by (rule omit [OF _ f1 Some]) (use True in simp_all)
  next
    case False
    then have eq: "execBlock env req e = ebind (checkBlockValid env b ?e1) (execChecked env req b)"
      unfolding execBlock_eq [OF Some] by (rule if_not_P)
    show thesis
    proof (cases "checkBlockValid env b ?e1")
      case (Inl x)
      then obtain err e' where x: "checkBlockValid env b ?e1 = Inl (err, e')" by (cases x) auto
      show thesis by (rule throw [of err e']) (simp_all add: eq x frame_trans [OF f1 checkBlockValid_frame(1) [OF x]])
    next
      case (Inr e2)
      note f2 = frame_trans [OF f1 checkBlockValid_frame(2) [OF Inr]]
      show thesis
      proof (cases rule: execChecked_cases [of env req b e2])
        case (throw err e')
        then show thesis by (intro that(2) [of err e']) (simp_all add: eq Inr frame_trans [OF f2])
      next
        case (run par b' ctx e')
        show thesis by (rule that(3) [OF _ _ Some run(3)]) (use run False in \<open>auto simp: eq Inr frame_trans [OF f2]\<close>)
      qed
    qed
  qed
qed

lemma block_in_world: "env_ok w env \<Longrightarrow> block_in env req = block_of w req"
  by (simp add: block_in_def block_of_def env_ok_def split: option.split)

lemma valid_prepare:
  assumes "isValidPrepare env req e = VALID"
  shows "height req = m_consensusBlockNumber e" "view req = m_view e"
    "isEmpty req \<or> isHashSavedAfterCommit req e" "checkSign (crypto env) e req" "isValidLeader req e"
    "block_hash req \<noteq> block_hash (m_rawPrepareCache (m_reqCache e))"
  using assms
  by (auto simp: isValidPrepare_def hasConsensused_def isFuturePrepare_def isExistPrepare_def split: if_splits)

lemma addPrepareReq_lock:
  assumes "world_ok w" "env_ok w env" "cache_lock w k V c" "req_ok w req" "m_rawPrepareCache c = req"
    and "height req = k" "height (m_committedPrepareCache c) = k \<longrightarrow> block_hash (m_committedPrepareCache c) = block_hash req"
    and "block_of w req = Some b" "execute env b par = Some (b', ctx)"
  shows "cache_lock w k V (addPrepareReq (mkPrepareFromSealing (crypto env) kp now req b' ctx) (share_block (block_hash req) b' c))"
proof -
  have nb: "names_block w (block_hash req) (height req) b" using assms(4,8) by (simp add: req_ok_def)
  note ex = names_block_exec [OF assms(1,2) nb assms(9)]
  have cr: "crypto env = w_crypto w" using assms(2) by (simp add: env_ok_def)
  let ?cmt = "m_committedPrepareCache c" and ?r = "share (block_hash req) b' req"
  let ?p = "mkPrepareFromSealing (crypto env) kp now req b' ctx"
  have "cache_lock w k V (share_block (block_hash req) b' c)"
    by (rule cache_lock_share [OF assms(1) ex(1) assms(3)])
  then have fut: "future_inv w (m_futurePrepareCache c)"
    and lk: "lock_inv w (m_prepareCache c) ?r (share (block_hash req) b' ?cmt) k V"
    by (simp_all add: cache_lock_def share_block_def assms(5))
  have "lock_inv w ?p ?r (share (block_hash req) b' ?cmt) k V"
    by (rule lock_prepare [OF lk req_ok_share [OF assms(1) ex(1) assms(4)], where b = b'])
      (use ex assms(6,7) cr in simp_all)
  then show ?thesis using fut by (simp add: cache_lock_def share_block_def assms(5))
qed

lemma node_inv_frame: "frame e e' \<Longrightarrow> node_inv w e' = node_inv w e"
  unfolding frame_def by (rule node_inv_core) (rule conjunct1)

lemma frame_fields:
  assumes "frame e e'"
  shows "m_reqCache e' = m_reqCache e" "m_consensusBlockNumber e' = m_consensusBlockNumber e"
    "m_view e' = m_view e" "m_omitEmptyBlock e' = m_omitEmptyBlock e" "votes e' = votes e" "drops e' = drops e"
    "m_keyPair e' = m_keyPair e" "m_sealerList e' = m_sealerList e" "m_nodeNum e' = m_nodeNum e" "m_f e' = m_f e"
    "m_idx e' = m_idx e"
  using assms by (simp_all add: frame_def core_def cfg_def)

text \<open>
  What is left of \<^verbatim>\<open>execPrepareAndGenerateSignMsg\<close>: nothing that matters changes, or the executed
  proposal enters the cache and the node signs it.
\<close>

definition prepared :: "engine_env \<Rightarrow> prepare_req \<Rightarrow> block \<Rightarrow> exec_context option \<Rightarrow> pbft_engine \<Rightarrow> pbft_engine" where
  "prepared env req b ctx e =
     (let p = mkPrepareFromSealing (crypto env) (m_keyPair e) (utcTime env) req b ctx
      in broadcastSignReq env p (on_cache (addPrepareReq p) (on_cache (share_block (block_hash req) b) e)))"

lemma execPrepare_cases:
  obtains (keep) "frame e (fst (execPrepareAndGenerateSignMsg env req e))"
  | (prepare) b par b' ctx e' where
      "fst (execPrepareAndGenerateSignMsg env req e) = checkAndCommit env (prepared env req b' ctx e')"
      "frame e e'" "block_in env req = Some b" "execute env b par = Some (b', ctx)"
      "transactions b \<noteq> [] \<or> \<not> m_omitEmptyBlock e"
proof -
  let ?t = "on_timer (\<lambda>tm. tm\<lparr>m_lastAddRawPrepareTime := utcSteadyTime env\<rparr>) e"
  have f: "frame e ?t" by (simp add: frame_def)
  have g: "frame e1 (on_timer h e1)" "frame e1 (on_timer h' (changeViewForFastViewChange (on_timer h e1)))" for e1 h h'
    by (simp_all add: frame_def)
  show thesis
  proof (cases rule: execBlock_cases [of env req ?t])
    case (omit b e')
    then have "fst (execPrepareAndGenerateSignMsg env req e) =
        on_timer (\<lambda>tm. tm\<lparr>m_changeCycle := 0\<rparr>) (changeViewForFastViewChange (on_timer (\<lambda>tm. tm\<lparr>m_lastExecTime := execTime env\<rparr>) e'))"
      using frame_fields(4) [OF omit(2)]
      by (simp add: execPrepareAndGenerateSignMsg_def needOmit_def getTransactionSize_def Let_def)
    then show thesis using keep frame_trans [OF f frame_trans [OF omit(2) g(2)]] by simp
  next
    case (throw err e')
    then have "fst (execPrepareAndGenerateSignMsg env req e) = e'"
      by (simp add: execPrepareAndGenerateSignMsg_def)
    then show thesis using keep frame_trans [OF f throw(2)] by simp
  next
    case (run b par b' ctx e')
    let ?e2 = "on_timer (\<lambda>tm. tm\<lparr>m_lastExecTime := execTime env\<rparr>) e'"
    note f2 = frame_trans [OF f frame_trans [OF run(2) g(1)]]
    consider "ctx = None \<and> getTransactionSize b' > 0" | "\<not> (ctx = None \<and> getTransactionSize b' > 0)" "needOmit b' ?e2"
      | "\<not> (ctx = None \<and> getTransactionSize b' > 0)" "\<not> needOmit b' ?e2" by blast
    then show thesis
    proof cases
      case 1
      then have "fst (execPrepareAndGenerateSignMsg env req e) = ?e2"
        by (simp add: execPrepareAndGenerateSignMsg_def run(1) Let_def)
      then show thesis using keep f2 by simp
    next
      case 2
      then have "fst (execPrepareAndGenerateSignMsg env req e) =
          on_timer (\<lambda>tm. tm\<lparr>m_changeCycle := 0\<rparr>) (changeViewForFastViewChange ?e2)"
        by (auto simp: execPrepareAndGenerateSignMsg_def run(1) Let_def)
      then show thesis using keep frame_trans [OF f frame_trans [OF run(2) g(2)]] by simp
    next
      case 3
      then have "fst (execPrepareAndGenerateSignMsg env req e) = checkAndCommit env (prepared env req b' ctx ?e2)"
        by (auto simp: execPrepareAndGenerateSignMsg_def run(1) Let_def prepared_def)
      then show thesis by (rule prepare) (use run f2 in simp_all)
    qed
  qed
qed

lemma prepared_fields:
  "m_reqCache (prepared env req b ctx e) =
     addSignReq (mkSignReq (crypto env) (m_keyPair e) (utcTime env)
       (mkPrepareFromSealing (crypto env) (m_keyPair e) (utcTime env) req b ctx) (m_idx e))
       (addPrepareReq (mkPrepareFromSealing (crypto env) (m_keyPair e) (utcTime env) req b ctx)
         (share_block (block_hash req) b (m_reqCache e)))"
  "votes (prepared env req b ctx e) = votes e" "drops (prepared env req b ctx e) = drops e"
  "cfg (prepared env req b ctx e) = cfg e" "m_view (prepared env req b ctx e) = m_view e"
  "m_consensusBlockNumber (prepared env req b ctx e) = m_consensusBlockNumber e"
  "m_omitEmptyBlock (prepared env req b ctx e) = m_omitEmptyBlock e" "m_keyPair (prepared env req b ctx e) = m_keyPair e"
  by (simp_all add: prepared_def Let_def broadcastSignReq_frame)

lemma updateViewMap_sel [simp]:
  "m_reqCache (updateViewMap i v e) = m_reqCache e" "votes (updateViewMap i v e) = votes e"
  "m_consensusBlockNumber (updateViewMap i v e) = m_consensusBlockNumber e" "m_view (updateViewMap i v e) = m_view e"
  "m_omitEmptyBlock (updateViewMap i v e) = m_omitEmptyBlock e"
  by (simp_all add: updateViewMap_def votes_def)

lemma handlePrepareMsg_cases [consumes 5, case_names keep prepare]:
  assumes "world_ok w" "env_ok w env" "node_inv w e" "req_ok w req" "empty_ok w req"
  obtains c where "frame (e\<lparr>m_reqCache := c\<rparr>) (fst (handlePrepareMsg env req e))"
      "m_commitCache c = m_commitCache (m_reqCache e)" "node_inv w (e\<lparr>m_reqCache := c\<rparr>)"
  | b ctx e' where "fst (handlePrepareMsg env req e) = checkAndCommit env (prepared env req b ctx e')"
      "frame (on_cache (addRawPrepare req) e) e'" "node_inv w (prepared env req b ctx e')"
proof -
  let ?u = "updateViewMap (idx req) (view req) e"
  have u: "frame (on_cache f e) (on_cache f ?u)" for f
    by (simp add: updateViewMap_def frame_def core_def cfg_def votes_def drops_def)
  consider "isValidPrepare env req e = INVALID" | "isValidPrepare env req e = FUTURE" | "isValidPrepare env req e = VALID"
    by (cases "isValidPrepare env req e")
  then show thesis
  proof cases
    case 1
    then show thesis using assms(3) by (intro that(1) [of "m_reqCache e"]) (simp_all add: handlePrepareMsg_def frame_def)
  next
    case 2
    have "node_inv w (on_cache (addFuturePrepareCache req) e)"
      using assms(3) by (rule node_inv_on_cache) (rule cache_lock_addFuture [OF _ assms(4,5)])
    then show thesis using 2 u [of "addFuturePrepareCache req"]
      by (intro that(1) [of "addFuturePrepareCache req (m_reqCache e)"])
        (simp_all add: handlePrepareMsg_def addFuturePrepareCache_def split: option.split)
  next
    case VALID: 3
    let ?e = "on_cache (addRawPrepare req) e"
    have inv: "node_inv w ?e" using assms(3) by (rule node_inv_on_cache) (rule cache_lock_addRawPrepare)
    have eq: "fst (handlePrepareMsg env req e) = fst (execPrepareAndGenerateSignMsg env req (on_cache (addRawPrepare req) ?u))"
      by (simp add: handlePrepareMsg_def VALID)
    show thesis
    proof (cases rule: execPrepare_cases [of "on_cache (addRawPrepare req) ?u" env req])
      case keep
      then have "frame ?e (fst (handlePrepareMsg env req e))" unfolding eq by (rule frame_trans [OF u])
      then show thesis using inv by (intro that(1)) (simp_all add: addRawPrepare_def)
    next
      case (prepare b par b' ctx e')
      have f: "frame ?e e'" by (rule frame_trans [OF u [of "addRawPrepare req"] prepare(2)])
      note ff = frame_fields [OF f]
      have b: "block_of w req = Some b" using prepare(3) block_in_world [OF assms(2)] by simp
      have omit: "m_omitEmptyBlock e" using assms(3) by (simp add: node_inv_def)
      then have "\<not> isEmpty req" using prepare(5) assms(5) b by (auto simp: empty_ok_def)
      then have saved: "isHashSavedAfterCommit req e" using valid_prepare(3) [OF VALID] by blast
      have k: "height req = m_consensusBlockNumber e" by (rule valid_prepare(1) [OF VALID])
      have c: "cache_lock w (height req) (votes e) (addRawPrepare req (m_reqCache e))"
        using inv k by (simp add: node_inv_cache)
      have "cache_lock w (height req) (votes e) (addPrepareReq (mkPrepareFromSealing (crypto env) (m_keyPair e') (utcTime env) req b' ctx)
          (share_block (block_hash req) b' (addRawPrepare req (m_reqCache e))))"
        by (rule addPrepareReq_lock [OF assms(1,2) c assms(4) _ refl _ b prepare(4)])
          (use saved in \<open>auto simp: addRawPrepare_def isHashSavedAfterCommit_def\<close>)
      then have "node_inv w (prepared env req b' ctx e')"
        using assms(3) k by (simp add: node_inv_cache prepared_fields ff cache_lock_def)
      then show thesis using f prepare(1) by (intro that(2) [of b' ctx e']) (simp_all add: eq)
    qed
  qed
qed

lemma node_inv_handlePrepareMsg:
  assumes "world_ok w" "env_ok w env" "node_inv w e" "m_view e \<noteq> MAXVIEW" "req_ok w req" "empty_ok w req"
  shows "node_inv w (fst (handlePrepareMsg env req e))"
  using assms(1-3,5,6)
proof (cases rule: handlePrepareMsg_cases)
  case (keep c)
  then show ?thesis using node_inv_frame by blast
next
  case (prepare b ctx e')
  have "m_view (prepared env req b ctx e') = m_view e" using frame_fields(3) [OF prepare(2)] by (simp add: prepared_fields)
  then show ?thesis unfolding prepare(1) using assms(4) prepare(3)
    by (intro node_inv_checkAndCommit [OF assms(1)]) simp_all
qed

end
