(* ===== verification/LockSteps.thy ===== *)
theory LockSteps
  imports Lock
begin

text \<open>
  The steps of an engine, one for each critical section of its mutex, and the proof that every step
  keeps the lock of \<open>Lock\<close>.  \<open>engine_step\<close> gives the effect of an event: a buffer arrives, the
  worker thread takes the next packet, looks at the clock, at the future proposals or collects
  garbage, the background thread runs a task, the sealer asks or hands over a block, a committed
  block is reported, a downloaded block is checked, and other modules move the chain and the sync
  status (\<open>Elsewhere\<close>).  \<open>workLoop_steps\<close> composes the round of the worker thread from them.

  \<open>step_ok\<close> collects what the lock relies on and the engine does not check: the proposal in a handled
  packet names the block it carries and its empty flag is true (\<open>packet_ok\<close>), the sealer hands over
  blocks with known headers, and views and block numbers stay below the largest 64-bit integer.
\<close>

section \<open>Steps\<close>

datatype engine_event =
    Receive bytes h512 string
  | Handle
  | CheckTimeout
  | HandleFuture
  | CollectGarbage
  | RunTask
  | Propose block
  | ShouldSeal
  | Report block
  | CheckDownloaded block
  | Elsewhere blockchain sync_master

fun engine_step :: "engine_env \<Rightarrow> engine_event \<Rightarrow> pbft_engine \<Rightarrow> pbft_engine" where
  "engine_step env (Receive buffer n ep) e = onRecvPBFTMessage env buffer n ep e"
| "engine_step env Handle e =
     (case m_msgQueue e of [] \<Rightarrow> e | p # q \<Rightarrow> handleMsg env p (e\<lparr>m_msgQueue := q\<rparr>))"
| "engine_step env CheckTimeout e = checkTimeout env e"
| "engine_step env HandleFuture e = handleFutureBlock env e"
| "engine_step env CollectGarbage e = engine_collectGarbage env e"
| "engine_step env RunTask e = run_task env e"
| "engine_step env (Propose b) e = generatePrepare env b e"
| "engine_step env ShouldSeal e = fst (shouldSeal env e)"
| "engine_step env (Report b) e = outcome_state (reportBlockWithoutLock env b e)"
| "engine_step env (CheckDownloaded b) e = (case checkBlock env b e of Inl (_, e') \<Rightarrow> e' | Inr (_, e') \<Rightarrow> e')"
| "engine_step env (Elsewhere c s) e = e\<lparr>m_blockChain := c, m_blockSync := s\<rparr>"

lemma workLoop_steps:
  "workLoop env e = (if locatedInChosedConsensensusNodes e
     then fold (engine_step env) [Handle, CheckTimeout, HandleFuture, CollectGarbage] e else e)"
  by (simp add: workLoop_def Let_def)

section \<open>Requests\<close>

lemma addSignReq_cfields [simp]: "cfields (addSignReq r c) = cfields c"
  by (simp add: cfields_def)

lemma cache_lock_addCommitReq [simp]: "cache_lock w k V (addCommitReq r c) = cache_lock w k V c"
  by (simp add: cache_lock_def)

lemma node_inv_updateViewMap [simp]: "node_inv w (updateViewMap i v e) = node_inv w e"
  by (rule node_inv_core) (rule small_frame)

lemma node_inv_addSignReq [simp]: "node_inv w (on_cache (addSignReq r) e) = node_inv w e"
  by (rule node_inv_cfields) (rule addSignReq_cfields)

lemma node_inv_addCommitReq [simp]: "node_inv w (on_cache (addCommitReq r) e) = node_inv w e"
  by (simp add: node_inv_cache)

lemma isValidSignReq_cases:
  obtains r where "isValidSignReq env req e = (r, req, e)" "r \<noteq> FUTURE" "r = VALID \<Longrightarrow> checkReq env req e = (VALID, req)"
  | req' where "isValidSignReq env req e = (FUTURE, req', on_cache (addSignReq req') e)"
proof (cases "isExistSign req (m_reqCache e) \<or> hasConsensused req e")
  case True
  then have "isValidSignReq env req e = (INVALID, req, e)" by (auto simp: isValidSignReq_def)
  then show thesis by (rule that(1)) simp_all
next
  case False
  then have eq: "isValidSignReq env req e = (let (r, req') = checkReq env req e
      in (r, req', if r = FUTURE then on_cache (addSignReq req') e else e))"
    by (auto simp: isValidSignReq_def)
  obtain r req' where cr: "checkReq env req e = (r, req')" by fastforce
  show thesis
  proof (cases "r = FUTURE")
    case True
    then show thesis by (intro that(2) [of req']) (simp add: eq cr)
  next
    case False
    then have "req' = req" using cr by (auto simp: checkReq_def split: if_splits)
    then show thesis using False by (intro that(1) [of r]) (simp_all add: eq cr)
  qed
qed

lemma isValidCommitReq_cases:
  obtains r where "isValidCommitReq env req e = (r, req, e)" "r \<noteq> FUTURE" "r = VALID \<Longrightarrow> checkReq env req e = (VALID, req)"
  | "isValidCommitReq env req e = (FUTURE, req\<lparr>isFuture := True, signChecked := False\<rparr>,
       on_cache (addCommitReq (req\<lparr>isFuture := True, signChecked := False\<rparr>)) e)"
proof (cases "isExistCommit req (m_reqCache e) \<or> hasConsensused req e")
  case True
  then have "isValidCommitReq env req e = (INVALID, req, e)" by (auto simp: isValidCommitReq_def)
  then show thesis by (rule that(1)) simp_all
next
  case False
  then have eq: "isValidCommitReq env req e = (let (r, req') = checkReq env req e
      in (r, req', if r = FUTURE then on_cache (addCommitReq req') e else e))"
    by (auto simp: isValidCommitReq_def)
  obtain r req' where cr: "checkReq env req e = (r, req')" by fastforce
  show thesis
  proof (cases "r = FUTURE")
    case True
    then have "req' = req\<lparr>isFuture := True, signChecked := False\<rparr>"
      using cr by (auto simp: checkReq_def split: if_splits)
    then show thesis using True by (intro that(2)) (simp add: eq cr)
  next
    case False
    then have "req' = req" using cr by (auto simp: checkReq_def split: if_splits)
    then show thesis using False by (intro that(1) [of r]) (simp_all add: eq cr)
  qed
qed

lemma handleSignReq_cases:
  obtains (keep) e' where "fst (handleSignReq env req e) = e'" "frame e e'"
  | (add) req' e' where "fst (handleSignReq env req e) = on_cache (addSignReq req') e'" "frame e e'"
  | (valid) "fst (handleSignReq env req e) =
      checkAndCommit env (on_cache (addSignReq req) (updateViewMap (idx req) (view req) e))"
proof (cases rule: isValidSignReq_cases [of env req e])
  case (1 r)
  show thesis
  proof (cases r)
    case VALID
    then show thesis using 1 valid by (simp add: handleSignReq_def)
  next
    case INVALID
    then have "fst (handleSignReq env req e) = e" using 1 by (simp add: handleSignReq_def)
    then show thesis by (rule keep) (simp add: frame_def)
  qed (use 1 in simp)
next
  case (2 req')
  then have "fst (handleSignReq env req e) = on_cache (addSignReq req') (updateViewMap (idx req') (view req') e)"
    by (simp add: handleSignReq_def updateViewMap_def)
  then show thesis by (rule add) (simp add: frame_def)
qed

lemma handleCommitReq_cases:
  obtains (keep) e' where "fst (handleCommitReq env req e) = e'" "frame e e'"
  | (add) e' where "fst (handleCommitReq env req e) =
      on_cache (addCommitReq (req\<lparr>isFuture := True, signChecked := False\<rparr>)) e'" "frame e e'"
  | (valid) "fst (handleCommitReq env req e) =
      checkAndSave env (on_cache (addCommitReq req) (updateViewMap (idx req) (view req) e))"
      "checkReq env req e = (VALID, req)"
proof (cases rule: isValidCommitReq_cases [of env req e])
  case (1 r)
  show thesis
  proof (cases r)
    case VALID
    then show thesis using 1 valid by (simp add: handleCommitReq_def)
  next
    case INVALID
    then have "fst (handleCommitReq env req e) = e" using 1 by (simp add: handleCommitReq_def)
    then show thesis by (rule keep) (simp add: frame_def)
  qed (use 1 in simp)
next
  case 2
  then have "fst (handleCommitReq env req e) = on_cache (addCommitReq (req\<lparr>isFuture := True, signChecked := False\<rparr>))
      (updateViewMap (idx req) (view req) e)"
    by (simp add: handleCommitReq_def updateViewMap_def)
  then show thesis by (rule add) (simp add: frame_def)
qed

lemma node_inv_handleSignReq:
  assumes "world_ok w" "node_inv w e" "m_view e \<noteq> MAXVIEW"
  shows "node_inv w (fst (handleSignReq env req e))"
proof (cases rule: handleSignReq_cases [of env req e])
  case (keep e')
  then show ?thesis using assms(2) node_inv_frame by blast
next
  case (add req' e')
  then show ?thesis using assms(2) node_inv_frame by simp
next
  case valid
  have "node_inv w (on_cache (addSignReq req) (updateViewMap (idx req) (view req) e))"
    unfolding node_inv_addSignReq using assms(2) by simp
  then show ?thesis unfolding valid using assms(3) by (intro node_inv_checkAndCommit [OF assms(1)]) simp_all
qed

lemma node_inv_handleCommitReq:
  assumes "world_ok w" "node_inv w e" "m_view e \<noteq> MAXVIEW"
  shows "node_inv w (fst (handleCommitReq env req e))"
proof (cases rule: handleCommitReq_cases [of env req e])
  case (keep e')
  then show ?thesis using assms(2) node_inv_frame by blast
next
  case (add e')
  then show ?thesis using assms(2) node_inv_frame by simp
next
  case valid
  have "node_inv w (on_cache (addCommitReq req) (updateViewMap (idx req) (view req) e))"
    unfolding node_inv_addCommitReq using assms(2) by simp
  then show ?thesis unfolding valid using assms(3) by (intro node_inv_checkAndSave [OF assms(1)]) simp_all
qed

section \<open>View changes\<close>

lemma checkAndChangeView_cases:
  obtains (keep) "checkAndChangeView env e = e"
  | (change) n e' where "checkAndChangeView env e = on_cache (triggerViewChange (m_toView e) n) e'"
      "frame (e\<lparr>m_view := m_toView e\<rparr>) e'"
proof (cases "int (unat (of_nat (getViewChangeSize (m_toView e) (m_reqCache e)) :: IDXTYPE)) \<ge> int (unat (minValidNodes e)) - 1")
  case True
  let ?e1 = "if m_lastSignTime (m_timeManager e) = 0 then e\<lparr>m_fastViewChange := False\<rparr> else e"
  let ?e2 = "(on_timer (\<lambda>tm. tm\<lparr>m_lastConsensusTime := utcSteadyTime env\<rparr>) ?e1)
                    \<lparr>m_leaderFailed := False, m_view := m_toView ?e1, m_notifyNextLeaderSeal := False\<rparr>"
  let ?e' = "on_sync (noteSealingBlockNumber (number (m_blockChain e))) ?e2"
  have "checkAndChangeView env e = on_cache (triggerViewChange (m_toView e) (number (m_blockChain e))) ?e'"
    using True by (simp add: checkAndChangeView_def Let_def)
  then show thesis by (rule change) (simp add: frame_def core_def cfg_def votes_def drops_def)
next
  case False
  then show thesis by (intro keep) (simp add: checkAndChangeView_def Let_def)
qed

lemma node_inv_view [simp]: "node_inv w (e\<lparr>m_view := v\<rparr>) = node_inv w e"
  by (simp add: node_inv_def)

lemma node_inv_checkAndChangeView:
  assumes "node_inv w e"
  shows "node_inv w (checkAndChangeView env e)"
proof (cases rule: checkAndChangeView_cases [of env e])
  case keep
  then show ?thesis using assms by simp
next
  case (change n e')
  have "node_inv w e'" using assms node_inv_frame [OF change(2), of w] by simp
  then show ?thesis unfolding change(1) by (rule node_inv_on_cache) (rule cache_lock_triggerViewChange)
qed

lemma catchupView_cases:
  obtains (keep) "frame e (catchupView env req e)"
  | (erase) e' where "catchupView env req e = on_cache (eraseLatestViewChangeCacheForNodeUpdated req) e'" "frame e e'"
proof (cases "s64 (view req + 1) < m_toView e \<and> getNodeIDByIndex (idx req) e \<noteq> None")
  case True
  then obtain n where "getNodeIDByIndex (idx req) e = Some n" by auto
  with True show thesis by (intro erase [of "sendViewChangeMsg env n e"]) (simp_all add: catchupView_def frame_def)
next
  case False
  then have "catchupView env req e = e" by (auto simp: catchupView_def split: option.split)
  then show thesis by (intro keep) (simp add: frame_def)
qed

text \<open>An engine that differs in its view change requests only, besides what no vote depends on.\<close>

definition vframe :: "pbft_engine \<Rightarrow> pbft_engine \<Rightarrow> bool" where
  "vframe e e' \<longleftrightarrow> cfields (m_reqCache e') = cfields (m_reqCache e) \<and> frame (e\<lparr>m_reqCache := m_reqCache e'\<rparr>) e'"

lemma vframeI: "frame e e' \<Longrightarrow> cfields (f (m_reqCache e')) = cfields (m_reqCache e) \<Longrightarrow> vframe e (on_cache f e')"
  by (simp add: vframe_def frame_def core_def cfg_def)

lemma frame_vframe: "frame e e' \<Longrightarrow> vframe e e'"
  by (simp add: vframe_def frame_def core_def cfg_def)

lemma vframe_trans [trans]: "vframe e e' \<Longrightarrow> vframe e' e'' \<Longrightarrow> vframe e e''"
  by (simp add: vframe_def frame_def core_def cfg_def)

lemma node_inv_vframe: "vframe e e' \<Longrightarrow> node_inv w e' = node_inv w e"
  by (simp add: vframe_def frame_def core_def cfg_def node_inv_def cfields_def)

lemma catchupView_vframe: "vframe e (catchupView env req e)"
proof (cases rule: catchupView_cases [of e env req])
  case keep
  then show ?thesis by (rule frame_vframe)
next
  case (erase e')
  show ?thesis unfolding erase(1) using erase(2) by (rule vframeI) (simp add: frame_fields [OF erase(2)])
qed

lemma isValidViewChangeReq_vframe: "vframe e (snd (isValidViewChangeReq env req source e))"
proof -
  define e1 where "e1 = (if s64 (view req + 1) < m_toView e \<and> idx req = source then catchupView env req e else e)"
  have e: "vframe e e" by (rule frame_vframe) (simp add: frame_def)
  then have v1: "vframe e e1" using catchupView_vframe by (simp add: e1_def)
  then have "vframe e (e1\<lparr>m_blockChain := c\<rparr>)" for c
    by (rule vframe_trans) (rule frame_vframe, simp add: frame_def)
  with e v1 show ?thesis
    unfolding isValidViewChangeReq_def e1_def [symmetric] Let_def case_prod_beta by simp
qed

lemma handleViewChangeReq_cases:
  obtains (keep) e' where "fst (handleViewChangeReq env req source e) = e'" "vframe e e'"
  | (change) e' where "fst (handleViewChangeReq env req source e) = checkAndChangeView env e'" "vframe e e'"
proof -
  define e1 where "e1 = snd (isValidViewChangeReq env req source e)"
  have v1: "vframe e e1" unfolding e1_def by (rule isValidViewChangeReq_vframe)
  define e2 where "e2 = on_cache (addViewChangeReq req (number (m_blockChain e1))) e1"
  have "vframe e1 e2" unfolding e2_def by (rule vframeI) (simp_all add: frame_def)
  with v1 have v2: "vframe e e2" by (rule vframe_trans)
  have v3: "vframe e (changeViewForFastViewChange (e2\<lparr>m_toView := t\<rparr>))" for t
    using v2 by (rule vframe_trans) (rule frame_vframe, simp add: frame_def)
  consider "\<not> fst (isValidViewChangeReq env req source e)"
    | "fst (isValidViewChangeReq env req source e)" "view req = m_toView e2"
    | "fst (isValidViewChangeReq env req source e)" "view req \<noteq> m_toView e2" by blast
  then show thesis
  proof cases
    case 1
    then have "fst (handleViewChangeReq env req source e) = e1"
      by (simp add: handleViewChangeReq_def case_prod_beta e1_def)
    then show thesis using v1 by (rule keep)
  next
    case 2
    then have "fst (handleViewChangeReq env req source e) = checkAndChangeView env e2"
      by (simp add: handleViewChangeReq_def case_prod_beta Let_def e1_def e2_def)
    then show thesis using v2 by (rule change)
  next
    case 3
    then have "fst (handleViewChangeReq env req source e) =
        (if snd (canTriggerViewChange (m_f e2) (m_toView e2) (m_number (m_highestBlock e2))
              (m_consensusBlockNumber e2) (m_reqCache e2))
         then changeViewForFastViewChange (e2\<lparr>m_toView := s64 (fst (canTriggerViewChange (m_f e2) (m_toView e2)
              (m_number (m_highestBlock e2)) (m_consensusBlockNumber e2) (m_reqCache e2)) - 1)\<rparr>) else e2)"
      by (simp add: handleViewChangeReq_def case_prod_beta Let_def e1_def e2_def)
    then show thesis by (rule keep) (simp add: v2 v3)
  qed
qed

lemma node_inv_handleViewChangeReq:
  assumes "node_inv w e"
  shows "node_inv w (fst (handleViewChangeReq env req source e))"
proof (cases rule: handleViewChangeReq_cases [of env req source e])
  case (keep e')
  then show ?thesis using assms node_inv_vframe by simp
next
  case (change e')
  then show ?thesis using assms node_inv_vframe node_inv_checkAndChangeView by simp
qed

lemma checkTimeout_cases:
  obtains (keep) "checkTimeout env e = e"
  | (change) e1 where "frame (checkAndChangeView env e1) (checkTimeout env e)" "vframe e e1"
proof (cases "isTimeout (utcSteadyTime env) (m_timeManager e)")
  case True
  define e1 where "e1 = (if m_lastConsensusTime (m_timeManager e) \<noteq> 0
                   then (let e' = e\<lparr>m_fastViewChange := False\<rparr> in
                         if m_onTimeout e' \<and> height (m_prepareCache (m_reqCache e')) > m_number (m_highestBlock e')
                         then emit_effect (OnTimeout (m_sealingNumber e')) e' else e')
                   else e)"
  have f1: "frame e e1" by (simp add: e1_def frame_def Let_def)
  define e2 where "e2 = (on_timer updateChangeCycle e1)\<lparr>m_toView := s64 (m_toView e1 + 1), m_leaderFailed := True\<rparr>"
  define e4 where "e4 = on_timer (\<lambda>tm. tm\<lparr>m_lastConsensusTime := utcSteadyTime env\<rparr>)
      (on_sync (noteSealingBlockNumber (number (m_blockChain e2))) e2)"
  have f4: "frame e e4" using f1 by (rule frame_trans) (simp add: e4_def e2_def frame_def)
  define e5 where "e5 = on_cache (removeInvalidViewChange (m_toView e4) (m_number (m_highestBlock e4))
                     (header_hash (crypto env) (m_highestBlock e4))) e4"
  have v5: "vframe e e5" unfolding e5_def using f4 by (rule vframeI) (simp add: frame_fields [OF f4])
  have "vframe e (broadcastViewChangeReq env e5)" using v5
    by (rule vframe_trans) (rule frame_vframe, simp add: frame_def)
  moreover have "checkTimeout env e = (let e6 = checkAndChangeView env (broadcastViewChangeReq env e5)
      in if m_onViewChange e6 then emit_effect OnViewChange e6 else e6)"
    unfolding checkTimeout_def if_P [OF True] e5_def e4_def e2_def e1_def Let_def by (rule refl)
  then have "frame (checkAndChangeView env (broadcastViewChangeReq env e5)) (checkTimeout env e)"
    by (simp add: Let_def frame_def)
  ultimately show thesis by (intro change)
next
  case False
  then show thesis by (intro keep) (simp add: checkTimeout_def)
qed

lemma node_inv_checkTimeout:
  assumes "node_inv w e"
  shows "node_inv w (checkTimeout env e)"
proof (cases rule: checkTimeout_cases [of env e])
  case keep
  then show ?thesis using assms by simp
next
  case (change e1)
  have "node_inv w (checkAndChangeView env e1)"
    using assms node_inv_vframe [OF change(2)] node_inv_checkAndChangeView by blast
  then show ?thesis using node_inv_frame [OF change(1)] by blast
qed

section \<open>Configuration and new blocks\<close>

lemma updateConsensusNodeList_core [simp]: "core (updateConsensusNodeList e) = core e"
  by (simp add: updateConsensusNodeList_def Let_def case_prod_beta)

lemma resetConfig_core: "core (outcome_state (resetConfig env e)) = core e"
proof -
  have m: "core (outcome_state (updateMaxBlockTransactions env e)) = core e" for e
    by (simp add: updateMaxBlockTransactions_def outcome_state_def Let_def case_prod_beta split: option.split)
  have b: "core (outcome_state (base_resetConfig env e)) = core e" for e
    using m [of e] by (cases "updateMaxBlockTransactions env e")
      (auto simp: base_resetConfig_def outcome_state_def Let_def split: option.split)
  have t: "core (outcome_state (resetConsensusTimeout env e)) = core e" for e
    by (simp add: resetConsensusTimeout_def outcome_state_def Let_def case_prod_beta split: option.split)
  show ?thesis
  proof (cases "base_resetConfig env e")
    case (Inl x)
    then show ?thesis using b [of e] by (simp add: resetConfig_def)
  next
    case (Inr e1)
    then have c1: "core e1 = core e" using b [of e] by (simp add: outcome_state_def)
    show ?thesis
    proof (cases "resetConsensusTimeout env e1")
      case (Inl x)
      then show ?thesis using Inr c1 t [of e1] by (simp add: resetConfig_def)
    next
      case (Inr e2)
      then show ?thesis using \<open>base_resetConfig env e = Inr e1\<close> c1 t [of e1]
        by (simp add: resetConfig_def outcome_state_def)
    qed
  qed
qed

lemma reportBlock_cases [consumes 2, case_names keep throw new]:
  assumes "m_number (blockHeader b) < 2 ^ 63 - 1" "0 \<le> m_consensusBlockNumber e"
  obtains (keep) "outcome_state (reportBlockWithoutLock env b e) = e"
  | (throw) c k v where "core (outcome_state (reportBlockWithoutLock env b e)) =
        core (e\<lparr>m_reqCache := c, m_consensusBlockNumber := k, m_view := v\<rparr>)"
      "cfields c = cfields (m_reqCache e)" "m_consensusBlockNumber e \<le> k"
  | (new) n h c k v where "core (outcome_state (reportBlockWithoutLock env b e)) =
        core (e\<lparr>m_reqCache := delCache n h c, m_consensusBlockNumber := k, m_view := v\<rparr>)"
      "cfields c = cfields (m_reqCache e)" "m_consensusBlockNumber e \<le> k"
proof (cases "number (m_blockChain e) = 0 \<or> m_number (m_highestBlock e) < m_number (blockHeader b)")
  case False
  then show thesis by (intro keep) (simp add: reportBlockWithoutLock_def outcome_state_def Let_def)
next
  case True
  let ?n = "m_number (blockHeader b)" and ?h = "headerHash (crypto env) b"
  define e1 where "e1 = e\<lparr>m_highestBlock := blockHeader b\<rparr>"
  define e2 where "e2 = (if ?n \<ge> m_consensusBlockNumber e1
                   then on_cache (delInvalidViewChange ?n ?h)
                     ((on_timer (\<lambda>tm. tm\<lparr>m_lastConsensusTime := utcSteadyTime env, m_changeCycle := 0\<rparr>) e1)
                       \<lparr>m_view := 0, m_toView := 0, m_leaderFailed := False, m_consensusBlockNumber := s64 (?n + 1)\<rparr>)
                   else e1)"
  define rest where "rest = (\<lambda>e3. let e4 = (if m_onCommitBlock e3
                        then emit_effect (OnCommitBlock ?n (getTransactionSize b) (m_changeCycle (m_timeManager e3))) e3
                        else e3) in on_cache (delCache ?n ?h) e4)"
  have eq: "reportBlockWithoutLock env b e = ebind (resetConfig env e2) (\<lambda>e3. Inr (rest e3))"
    unfolding reportBlockWithoutLock_def Let_def if_P [OF True] e2_def e1_def rest_def by (rule refl)
  obtain c k v where e2: "core e2 = core (e\<lparr>m_reqCache := c, m_consensusBlockNumber := k, m_view := v\<rparr>)"
    and c: "cfields c = cfields (m_reqCache e)" and k: "m_consensusBlockNumber e \<le> k"
  proof (cases "?n \<ge> m_consensusBlockNumber e1")
    case True
    then have "s64 (?n + 1) = ?n + 1" using assms by (simp add: e1_def s64_def)
    then show thesis using True
      by (intro that [where c = "delInvalidViewChange ?n ?h (m_reqCache e)" and k = "?n + 1" and v = 0])
        (simp_all add: e2_def e1_def core_def votes_def drops_def)
  next
    case False
    then show thesis by (intro that [where c = "m_reqCache e" and k = "m_consensusBlockNumber e" and v = "m_view e"])
      (simp_all add: e2_def e1_def)
  qed
  have rc: "core (outcome_state (resetConfig env e2)) = core e2" by (rule resetConfig_core)
  show thesis
  proof (cases "resetConfig env e2")
    case (Inl x)
    then have "core (outcome_state (reportBlockWithoutLock env b e)) = core e2"
      using rc by (simp add: eq)
    then show thesis unfolding e2 using c k by (rule throw)
  next
    case (Inr e3)
    then have c3: "core e3 = core e2" using rc by (simp add: outcome_state_def)
    have "core (rest e3) = (delCache ?n ?h (fst (core e3)), snd (core e3))"
      by (simp add: rest_def Let_def core_reqCache)
    also have "\<dots> = core (e\<lparr>m_reqCache := delCache ?n ?h c, m_consensusBlockNumber := k, m_view := v\<rparr>)"
      unfolding c3 e2 by (simp add: core_def votes_def drops_def)
    finally have "core (outcome_state (reportBlockWithoutLock env b e)) =
        core (e\<lparr>m_reqCache := delCache ?n ?h c, m_consensusBlockNumber := k, m_view := v\<rparr>)"
      by (simp add: eq Inr outcome_state_def)
    then show thesis using c k by (rule new)
  qed
qed

lemma cache_lock_mono: "cache_lock w k V c \<Longrightarrow> k \<le> k' \<Longrightarrow> cache_lock w k' V c"
  by (auto simp: cache_lock_def intro: lock_mono)

lemma node_inv_report:
  assumes "node_inv w e" "m_number (blockHeader b) < 2 ^ 63 - 1"
  shows "node_inv w (outcome_state (reportBlockWithoutLock env b e))"
proof -
  have omit: "m_omitEmptyBlock e" and k0: "0 \<le> m_consensusBlockNumber e"
    and cl: "cache_lock w (m_consensusBlockNumber e) (votes e) (m_reqCache e)"
    using assms(1) by (simp_all add: node_inv_cache)
  from assms(2) k0 show ?thesis
  proof (cases rule: reportBlock_cases [of b e env])
    case keep
    then show ?thesis using assms(1) by simp
  next
    case (throw c k v)
    have "cache_lock w k (votes e) c"
      using cache_lock_mono [OF cl throw(3)] cache_lock_cfields [OF throw(2)] by simp
    then show ?thesis unfolding node_inv_core [OF throw(1)]
      using omit k0 throw(3) by (simp add: node_inv_cache)
  next
    case (new n h c k v)
    have "cache_lock w k (votes e) c"
      using cache_lock_mono [OF cl new(3)] cache_lock_cfields [OF new(2)] by simp
    then have "cache_lock w k (votes e) (delCache n h c)" by (rule cache_lock_delCache)
    then show ?thesis unfolding node_inv_core [OF new(1)]
      using omit k0 new(3) by (simp add: node_inv_cache)
  qed
qed

lemma checkBlock_core: "core (engine_step env (CheckDownloaded b) e) = core e"
proof (cases "m_number (blockHeader b) \<le> number (m_blockChain e)")
  case True
  then show ?thesis by (simp add: checkBlock_def Let_def)
next
  case False
  then show ?thesis using resetConfig_core [of env e]
    by (cases "resetConfig env e") (auto simp: checkBlock_def Let_def outcome_state_def split: sum.split prod.split)
qed

section \<open>Proposing\<close>

lemma mkPrepareFromReq_sel [simp]:
  "height (mkPrepareFromReq cr kp now r v i) = height r" "block_hash (mkPrepareFromReq cr kp now r v i) = block_hash r"
  "isEmpty (mkPrepareFromReq cr kp now r v i) = False" "pBlock (mkPrepareFromReq cr kp now r v i) = pBlock r"
  "block_data (mkPrepareFromReq cr kp now r v i) = block_data r" "idx (mkPrepareFromReq cr kp now r v i) = i"
  by (simp_all add: mkPrepareFromReq_def signMsg_def Let_def emptyPrepare_def)

lemma mkPrepareFromBlock_sel [simp]:
  "height (mkPrepareFromBlock cr kp now f b v i x) = m_number (blockHeader b)"
  "block_hash (mkPrepareFromBlock cr kp now f b v i x) = headerHash cr b"
  "isEmpty (mkPrepareFromBlock cr kp now f b v i x) = False" "pBlock (mkPrepareFromBlock cr kp now f b v i x) = Some b"
  by (simp_all add: mkPrepareFromBlock_def signMsg_def Let_def emptyPrepare_def)

lemma rehandle_cases:
  assumes "req_ok w req"
  obtains r e1 where "frame e e1" "req_ok w r" "empty_ok w r"
    "frame (fst (handlePrepareMsg env r e1)) (rehandleCommitedPrepareCache env req e)"
proof -
  let ?p = "mkPrepareFromReq (crypto env) (m_keyPair (clearMask e)) (utcTime env) req (m_view (clearMask e)) (m_idx (clearMask e))"
  define e3 where "e3 = (emit_effect (Signs PrepareReqPacket (pbft_part ?p)) (clearMask e))
    \<lparr>m_threadPool := m_threadPool (emit_effect (Signs PrepareReqPacket (pbft_part ?p)) (clearMask e)) @ [BroadcastPrepare ?p]\<rparr>"
  have f: "frame e e3" by (simp add: e3_def frame_def)
  have "block_of w ?p = block_of w req" by (simp add: block_of_def split: option.split)
  then have "req_ok w ?p" "empty_ok w ?p" using assms by (simp_all add: req_ok_def empty_ok_def)
  moreover have "frame (fst (handlePrepareMsg env ?p e3)) (rehandleCommitedPrepareCache env req e)"
    unfolding rehandleCommitedPrepareCache_def Let_def e3_def by (simp add: frame_def)
  ultimately show thesis using f by (intro that)
qed

lemma shouldSeal_cases:
  assumes "node_inv w e"
  obtains (keep) "fst (shouldSeal env e) = e"
  | (handle) r e1 where "frame e e1" "req_ok w r" "empty_ok w r"
      "frame (fst (handlePrepareMsg env r e1)) (fst (shouldSeal env e))"
proof (cases "fst (shouldSeal env e) = e")
  case True
  then show thesis by (rule keep)
next
  case False
  let ?cmt = "m_committedPrepareCache (m_reqCache e)"
  have eq: "fst (shouldSeal env e) = rehandleCommitedPrepareCache env ?cmt e" "height ?cmt = m_consensusBlockNumber e"
    using False by (auto simp: shouldSeal_def split: if_splits)
  have "req_ok w ?cmt" using assms eq(2) by (auto simp: node_inv_def lock_inv_def)
  then show thesis by (rule rehandle_cases [of w _ e env]) (rule handle, simp_all add: eq(1))
qed

lemma generatePrepare_cases:
  assumes "env_ok w env" "w_good w (blockHeader b)"
  obtains (keep) "frame e (generatePrepare env b e)"
  | (handle) r e1 where "frame e e1" "req_ok w r" "empty_ok w r"
      "generatePrepare env b e = fst (handlePrepareMsg env r e1)"
proof -
  define r where "r = fst (constructPrepareReq env b (e\<lparr>m_notifyNextLeaderSeal := False\<rparr>))"
  define e1 where "e1 = snd (constructPrepareReq env b (e\<lparr>m_notifyNextLeaderSeal := False\<rparr>))"
  have f: "frame e e1" by (simp add: e1_def constructPrepareReq_def Let_def frame_def)
  have "block_of w r = Some b" "height r = m_number (blockHeader b)" "block_hash r = headerHash (crypto env) b"
    "isEmpty r = (getTransactionSize b = 0)"
    by (simp_all add: r_def constructPrepareReq_def Let_def block_of_def)
  moreover have "crypto env = w_crypto w" using assms(1) by (simp add: env_ok_def)
  ultimately have r: "req_ok w r" "empty_ok w r"
    using assms(2) by (simp_all add: req_ok_def empty_ok_def names_block_def getTransactionSize_def)
  have eq: "generatePrepare env b e = (if getTransactionSize b = 0 \<and> m_omitEmptyBlock e1
      then on_timer (\<lambda>tm. tm\<lparr>m_changeCycle := 0\<rparr>) (changeViewForFastViewChange (e1\<lparr>m_leaderFailed := True\<rparr>))
      else fst (handlePrepareMsg env r e1))"
    unfolding generatePrepare_def case_prod_beta Let_def r_def e1_def by (rule refl)
  show thesis
  proof (cases "getTransactionSize b = 0 \<and> m_omitEmptyBlock e1")
    case True
    have "frame e1 (on_timer (\<lambda>tm. tm\<lparr>m_changeCycle := 0\<rparr>)
        (changeViewForFastViewChange (e1\<lparr>m_leaderFailed := True\<rparr>)))" by (simp add: frame_def)
    from frame_trans [OF f this] show thesis by (intro keep) (simp add: eq True)
  next
    case False
    show thesis by (rule handle [OF f r]) (simp only: eq if_not_P [OF False])
  qed
qed

lemma node_inv_shouldSeal:
  assumes "world_ok w" "env_ok w env" "node_inv w e" "m_view e \<noteq> MAXVIEW"
  shows "node_inv w (fst (shouldSeal env e))"
  using assms(3)
proof (rule shouldSeal_cases [of w e env])
  fix r e1 assume f: "frame e e1" and r: "req_ok w r" "empty_ok w r"
    and eq: "frame (fst (handlePrepareMsg env r e1)) (fst (shouldSeal env e))"
  have "node_inv w e1" "m_view e1 \<noteq> MAXVIEW"
    using assms(3,4) node_inv_frame [OF f] frame_fields(3) [OF f] by simp_all
  then have "node_inv w (fst (handlePrepareMsg env r e1))" by (rule node_inv_handlePrepareMsg [OF assms(1,2) _ _ r])
  then show ?thesis using node_inv_frame [OF eq] by blast
qed (use assms(3) in simp)

lemma node_inv_generatePrepare:
  assumes "world_ok w" "env_ok w env" "node_inv w e" "m_view e \<noteq> MAXVIEW" "w_good w (blockHeader b)"
  shows "node_inv w (generatePrepare env b e)"
  using assms(2,5)
proof (rule generatePrepare_cases [of w env b e])
  assume "frame e (generatePrepare env b e)"
  then show ?thesis using assms(3) node_inv_frame by blast
next
  fix r e1 assume f: "frame e e1" and r: "req_ok w r" "empty_ok w r"
    and eq: "generatePrepare env b e = fst (handlePrepareMsg env r e1)"
  have "node_inv w e1" "m_view e1 \<noteq> MAXVIEW"
    using assms(3,4) node_inv_frame [OF f] frame_fields(3) [OF f] by simp_all
  then show ?thesis unfolding eq by (rule node_inv_handlePrepareMsg [OF assms(1,2) _ _ r])
qed

section \<open>Every step keeps the lock\<close>

text \<open>The proposal in a packet, as the handler reads it.\<close>

definition packet_prepare :: "pbft_msg_packet \<Rightarrow> prepare_req option" where
  "packet_prepare p =
     (case PrepareReq_decode emptyPrepare (pkt_data p) of
        Inl _ \<Rightarrow> None
      | Inr r \<Rightarrow> Some (if prepareWithEmptyBlock p then r\<lparr>isEmpty := True\<rparr> else r))"

definition packet_ok :: "world \<Rightarrow> pbft_msg_packet \<Rightarrow> bool" where
  "packet_ok w p \<longleftrightarrow> (packet_id p = packet_code PrepareReqPacket \<longrightarrow>
     (case packet_prepare p of None \<Rightarrow> True | Some r \<Rightarrow> req_ok w r \<and> empty_ok w r))"

fun event_ok :: "world \<Rightarrow> engine_event \<Rightarrow> pbft_engine \<Rightarrow> bool" where
  "event_ok w Handle e = (case m_msgQueue e of [] \<Rightarrow> True | p # _ \<Rightarrow> packet_ok w p)"
| "event_ok w (Propose b) e = w_good w (blockHeader b)"
| "event_ok w (Report b) e = (m_number (blockHeader b) < 2 ^ 63 - 1)"
| "event_ok w _ e = True"

definition step_ok :: "world \<Rightarrow> engine_env \<Rightarrow> engine_event \<Rightarrow> pbft_engine \<Rightarrow> bool" where
  "step_ok w env ev e \<longleftrightarrow> env_ok w env \<and> m_view e \<noteq> MAXVIEW \<and> event_ok w ev e"

lemma handlePrepareMsg_packet_fst:
  "fst (handlePrepareMsg_packet env p e) =
     (case packet_prepare p of None \<Rightarrow> e | Some r \<Rightarrow> fst (handlePrepareMsg env r e))"
  by (simp add: handlePrepareMsg_packet_def packet_prepare_def case_prod_beta Let_def split: sum.split)

definition handled :: "engine_env \<Rightarrow> pbft_msg_packet \<Rightarrow> pbft_engine \<Rightarrow> pbft_engine" where
  "handled env p e =
     (if packet_id p = packet_code PrepareReqPacket then fst (handlePrepareMsg_packet env p e)
      else if packet_id p = packet_code SignReqPacket then fst (handleSignMsg env p e)
      else if packet_id p = packet_code CommitReqPacket then fst (handleCommitMsg env p e)
      else if packet_id p = packet_code ViewChangeReqPacket then fst (handleViewChangeMsg env p e)
      else e)"

lemma handleMsg_frame: "frame (handled env p e) (handleMsg env p e)"
proof -
  have "frame (fst r) (case r of (e1, m, succ) \<Rightarrow> if needForwardMsg succ p m e1 then forwardMsg env p m e1 else e1)" for r
    by (cases r) (simp add: frame_def)
  moreover have "frame e e" by (simp add: frame_def)
  ultimately show ?thesis unfolding handleMsg_def handled_def Let_def by simp
qed

lemma handleSignMsg_cases:
  obtains "fst (handleSignMsg env p e) = e" | req where "fst (handleSignMsg env p e) = fst (handleSignReq env req e)"
  by (cases "PBFTMsg_decode emptyMsg (pkt_data p)") (auto simp: handleSignMsg_def case_prod_beta)

lemma handleCommitMsg_cases:
  obtains "fst (handleCommitMsg env p e) = e"
  | req where "fst (handleCommitMsg env p e) = fst (handleCommitReq env req e)"
      "PBFTMsg_decode emptyMsg (pkt_data p) = Inr req"
  by (cases "PBFTMsg_decode emptyMsg (pkt_data p)") (auto simp: handleCommitMsg_def case_prod_beta)

lemma handleViewChangeMsg_cases:
  obtains "fst (handleViewChangeMsg env p e) = e"
  | req where "fst (handleViewChangeMsg env p e) = fst (handleViewChangeReq env req (node_idx p) e)"
  by (cases "PBFTMsg_decode emptyMsg (pkt_data p)") (auto simp: handleViewChangeMsg_def case_prod_beta)

lemma node_inv_handleMsg:
  assumes "world_ok w" "env_ok w env" "node_inv w e" "m_view e \<noteq> MAXVIEW" "packet_ok w p"
  shows "node_inv w (handleMsg env p e)"
proof -
  have "node_inv w (fst (handlePrepareMsg_packet env p e))" if "packet_id p = packet_code PrepareReqPacket"
    using assms that node_inv_handlePrepareMsg [OF assms(1-4)]
    by (auto simp: handlePrepareMsg_packet_fst packet_ok_def split: option.splits)
  moreover have "node_inv w (fst (handleSignMsg env p e))"
    using assms(3) node_inv_handleSignReq [OF assms(1,3,4)] by (metis handleSignMsg_cases)
  moreover have "node_inv w (fst (handleCommitMsg env p e))"
    using assms(3) node_inv_handleCommitReq [OF assms(1,3,4)] by (metis handleCommitMsg_cases)
  moreover have "node_inv w (fst (handleViewChangeMsg env p e))"
    using assms(3) node_inv_handleViewChangeReq [OF assms(3)] by (metis handleViewChangeMsg_cases)
  ultimately have "node_inv w (handled env p e)" using assms(3) by (simp add: handled_def)
  then show ?thesis using node_inv_frame [OF handleMsg_frame] by blast
qed

lemma node_inv_handleFuture:
  assumes "world_ok w" "env_ok w env" "node_inv w e" "m_view e \<noteq> MAXVIEW"
  shows "node_inv w (handleFutureBlock env e)"
proof (cases "futurePrepareCache (to_uint64 (m_consensusBlockNumber e)) (m_reqCache e)")
  case None
  then show ?thesis using assms(3) by (simp add: handleFutureBlock_def)
next
  case (Some p)
  then have "(to_uint64 (m_consensusBlockNumber e), p) \<in> set (m_futurePrepareCache (m_reqCache e))"
    by (simp add: futurePrepareCache_def map_of_SomeD)
  then have "req_ok w p" "empty_ok w p" using assms(3) by (auto simp: node_inv_def future_inv_def)
  then have "node_inv w (fst (handlePrepareMsg env p e))" by (rule node_inv_handlePrepareMsg [OF assms])
  then have "node_inv w (on_cache (eraseHandledFutureReq (to_uint64 (height p))) (fst (handlePrepareMsg env p e)))"
    by (rule node_inv_on_cache) (rule cache_lock_eraseFuture)
  then show ?thesis using assms(3) by (simp add: handleFutureBlock_def Some)
qed

lemma node_inv_collectGarbage: "node_inv w e \<Longrightarrow> node_inv w (engine_collectGarbage env e)"
  by (auto simp: engine_collectGarbage_def node_inv_cache votes_def intro: cache_lock_collectGarbage)

lemma backupMsg_frame: "frame e (backupMsg key m e)"
  by (simp add: backupMsg_def frame_def split: option.split)

lemma run_task_frame: "frame e (run_task env e)"
proof -
  have "frame (e\<lparr>m_threadPool := ts\<rparr>) (backupMsg key m (e\<lparr>m_threadPool := ts\<rparr>))" for ts key m by (rule backupMsg_frame)
  then show ?thesis
    by (simp add: run_task_def frame_def sendPrepareMsgFromLeader_def Let_def split: list.split task.split)
qed

lemma receive_frame: "frame e (onRecvPBFTMessage env buffer n ep e)"
  by (simp add: onRecvPBFTMessage_def pushValidPBFTMsgIntoQueue_def frame_def split: option.split)

lemma node_inv_step:
  assumes "world_ok w" "node_inv w e" "step_ok w env ev e"
  shows "node_inv w (engine_step env ev e)"
proof -
  have env: "env_ok w env" and v: "m_view e \<noteq> MAXVIEW" and ev: "event_ok w ev e"
    using assms(3) by (simp_all add: step_ok_def)
  show ?thesis
  proof (cases ev)
    case (Receive buffer n ep)
    then show ?thesis using assms(2) node_inv_frame [OF receive_frame] by simp
  next
    case Handle
    have "node_inv w (e\<lparr>m_msgQueue := q\<rparr>)" for q using assms(2) node_inv_core [of "e\<lparr>m_msgQueue := q\<rparr>" e w] by simp
    then show ?thesis using ev v Handle assms(2) node_inv_handleMsg [OF assms(1) env]
      by (auto split: list.splits)
  next
    case RunTask
    then show ?thesis using assms(2) node_inv_frame [OF run_task_frame] by simp
  next
    case (CheckDownloaded b)
    then show ?thesis using assms(2) node_inv_core [OF checkBlock_core] by simp
  next
    case (Elsewhere c s)
    then show ?thesis using assms(2) node_inv_core [of "engine_step env ev e" e w] by simp
  qed (use assms(2) ev v in \<open>simp_all add: node_inv_checkTimeout node_inv_handleFuture [OF assms(1) env]
      node_inv_collectGarbage node_inv_generatePrepare [OF assms(1) env] node_inv_shouldSeal [OF assms(1) env]
      node_inv_report\<close>)
qed

inductive engine_reach :: "world \<Rightarrow> pbft_engine \<Rightarrow> pbft_engine \<Rightarrow> bool" for w e0 where
  initial: "engine_reach w e0 e0"
| event: "engine_reach w e0 e \<Longrightarrow> step_ok w env ev e \<Longrightarrow> engine_reach w e0 (engine_step env ev e)"

lemma node_inv_reach: "engine_reach w e0 e \<Longrightarrow> world_ok w \<Longrightarrow> node_inv w e0 \<Longrightarrow> node_inv w e"
  by (induction rule: engine_reach.induct) (auto intro: node_inv_step)

section \<open>Start\<close>

definition stored_ok :: "world \<Rightarrow> (string \<times> string) list \<Rightarrow> bool" where
  "stored_ok w stored \<longleftrightarrow>
     (case map_of stored c_backupKeyCommitted of
        None \<Rightarrow> True
      | Some v \<Rightarrow> (case PrepareReq_decode emptyPrepare (hex_bytes v) of Inl _ \<Rightarrow> True | Inr r \<Rightarrow> req_ok w r))"

definition tip :: "engine_env \<Rightarrow> pbft_engine \<Rightarrow> block option" where
  "tip env e = fst (getBlockByNumber (crypto env) (number (m_blockChain e)) (m_blockChain e))"

definition start_ok :: "world \<Rightarrow> engine_env \<Rightarrow> (string \<times> string) list \<Rightarrow> pbft_engine \<Rightarrow> bool" where
  "start_ok w env stored e \<longleftrightarrow> env_ok w env \<and> m_omitEmptyBlock e \<and> votes e = {} \<and> stored_ok w stored \<and>
     (case tip env e of None \<Rightarrow> True | Some b \<Rightarrow> m_number (blockHeader b) < 2 ^ 63 - 1)"

lemma base_start_frame: "core (base_start e) = core e" "m_blockChain (base_start e) = m_blockChain e"
  by (simp_all add: base_start_def core_def votes_def drops_def)

definition restarted :: "engine_env \<Rightarrow> pbft_engine \<Rightarrow> pbft_engine" where
  "restarted env e =
     (let e0 = base_start (e\<lparr>m_reqCache := emptyReqCache\<rparr>);
          e1 = e0\<lparr>m_consensusBlockNumber := 0, m_view := 0, m_toView := 0, m_leaderFailed := False\<rparr>
      in on_timer (initTimerManager (utcSteadyTime env) (3 * m_emptyBlockGenTime (m_timeManager e0)))
           (e1\<lparr>m_blockChain := snd (getBlockByNumber (crypto env) (number (m_blockChain e1)) (m_blockChain e1))\<rparr>))"

lemma start_eq:
  "start env stored e =
     (case tip env e of
        None \<Rightarrow> Inl (NullBlock, restarted env e)
      | Some b \<Rightarrow> ebind (reportBlockWithoutLock env b (restarted env e)) (\<lambda>e3. Inr (initBackupDB stored e3)))"
  by (simp add: start_def initPBFTEnv_def restarted_def tip_def Let_def case_prod_beta base_start_frame(2) split: option.split)

lemma restarted_fields:
  "m_reqCache (restarted env e) = emptyReqCache" "m_consensusBlockNumber (restarted env e) = 0"
  "votes (restarted env e) = votes e" "m_omitEmptyBlock (restarted env e) = m_omitEmptyBlock e" "drops (restarted env e) = drops e"
  by (simp_all add: restarted_def Let_def base_start_def votes_def drops_def)

lemma emptyReqCache_lock: "cache_lock w k {} emptyReqCache"
  by (simp add: cache_lock_def emptyReqCache_def future_inv_def lock_inv_def emptyPrepare_def agree_def)

lemma votes_core: "core e = core e' \<Longrightarrow> votes e = votes e'" "core e = core e' \<Longrightarrow> m_reqCache e = m_reqCache e'"
  by (simp_all add: core_def)

lemma report_votes:
  assumes "m_number (blockHeader b) < 2 ^ 63 - 1" "0 \<le> m_consensusBlockNumber e"
  shows "votes (outcome_state (reportBlockWithoutLock env b e)) = votes e"
    "m_committedPrepareCache (m_reqCache (outcome_state (reportBlockWithoutLock env b e))) =
     m_committedPrepareCache (m_reqCache e)"
proof -
  from assms have "votes (outcome_state (reportBlockWithoutLock env b e)) = votes e \<and>
    m_committedPrepareCache (m_reqCache (outcome_state (reportBlockWithoutLock env b e))) =
     m_committedPrepareCache (m_reqCache e)"
  proof (cases rule: reportBlock_cases [of b e env])
    case (throw c k v)
    then show ?thesis using votes_core [OF throw(1)] by (simp add: cfields_def)
  next
    case (new n h c k v)
    then show ?thesis using votes_core [OF new(1)] by (simp add: cfields_def delCache_fields)
  qed simp
  then show "votes (outcome_state (reportBlockWithoutLock env b e)) = votes e"
    "m_committedPrepareCache (m_reqCache (outcome_state (reportBlockWithoutLock env b e))) =
     m_committedPrepareCache (m_reqCache e)" by blast+
qed

lemma initBackupDB_cases:
  assumes "m_committedPrepareCache (m_reqCache e) = emptyPrepare" "stored_ok w stored"
  obtains (keep) "frame e (initBackupDB stored e)"
  | (load) r e' where "initBackupDB stored e = on_cache (\<lambda>c. c\<lparr>m_committedPrepareCache := r\<rparr>) e'" "frame e e'" "req_ok w r"
proof (cases "map_of stored c_backupKeyCommitted")
  case None
  then have "initBackupDB stored e = e\<lparr>m_backupDB := Some stored\<rparr>"
    by (simp add: initBackupDB_def reloadMsg_def hex_bytes_def fromHex_def Let_def)
  then show thesis by (intro keep) (simp add: frame_def)
next
  case (Some v)
  then show thesis
  proof (cases "hex_bytes v = [] \<or> (\<exists>x. PrepareReq_decode emptyPrepare (hex_bytes v) = Inl x)")
    case True
    then have "initBackupDB stored e = e\<lparr>m_backupDB := Some stored\<rparr>"
      by (auto simp: initBackupDB_def reloadMsg_def Let_def Some assms(1))
    then show thesis by (intro keep) (simp add: frame_def)
  next
    case False
    then obtain r where r: "PrepareReq_decode emptyPrepare (hex_bytes v) = Inr r"
      by (cases "PrepareReq_decode emptyPrepare (hex_bytes v)") auto
    then have "initBackupDB stored e = on_cache (\<lambda>c. c\<lparr>m_committedPrepareCache := r\<rparr>) (e\<lparr>m_backupDB := Some stored\<rparr>)"
      using False by (simp add: initBackupDB_def reloadMsg_def Let_def Some assms(1))
    moreover have "req_ok w r" using assms(2) r by (simp add: stored_ok_def Some)
    ultimately show thesis by (intro load [of r "e\<lparr>m_backupDB := Some stored\<rparr>"]) (simp_all add: frame_def)
  qed
qed

lemma node_inv_start:
  assumes "world_ok w" "start_ok w env stored e" "start env stored e = Inr e'"
  shows "node_inv w e'"
proof -
  obtain b where b: "tip env e = Some b" using assms(3) by (cases "tip env e") (simp_all add: start_eq)
  then obtain e3 where e3: "reportBlockWithoutLock env b (restarted env e) = Inr e3" "e' = initBackupDB stored e3"
    using assms(3) by (cases "reportBlockWithoutLock env b (restarted env e)") (auto simp: start_eq)
  have so: "votes e = {}" "stored_ok w stored" "m_omitEmptyBlock e" and n: "m_number (blockHeader b) < 2 ^ 63 - 1"
    using assms(2) b by (simp_all add: start_ok_def)
  have "node_inv w (restarted env e)" by (simp add: node_inv_cache restarted_fields so emptyReqCache_lock)
  from node_inv_report [OF this n, of env] have inv: "node_inv w e3" by (simp add: e3 outcome_state_def)
  have "votes e3 = {}" "m_committedPrepareCache (m_reqCache e3) = emptyPrepare"
    using report_votes [OF n, of "restarted env e" env]
    by (simp_all add: e3 outcome_state_def restarted_fields so emptyReqCache_def)
  note v = this(1) and c = this(2)
  show ?thesis unfolding e3(2)
  proof (cases rule: initBackupDB_cases [OF c so(2)])
    case 1
    then show "node_inv w (initBackupDB stored e3)" using inv node_inv_frame by blast
  next
    case (2 r e4)
    have "node_inv w e4" using inv node_inv_frame [OF 2(2)] by blast
    then show "node_inv w (initBackupDB stored e3)" unfolding 2(1) using 2(3) v frame_fields [OF 2(2)]
      by (simp add: node_inv_def lock_inv_def)
  qed
qed

end
