(* ===== verification/Agreement.thy ===== *)
theory Agreement
  imports LockSteps
begin

text \<open>
  Agreement of a network of PBFT nodes on the committed blocks.

  \<open>net_reach\<close> runs any number of honest engines, each started from its own chain and moved by the steps
  of \<open>LockSteps\<close> in any order; the other members of the committee are faulty and appear only through
  the packets that honest nodes handle.  A block counts as committed when the engine hands its
  transactions back to the pool (\<open>DropBlockTrans\<close>), which it does exactly when the chain has accepted it.

  Besides what the lock relies on, agreement relies on three facts that the engine does not establish
  itself.  They are hypotheses of \<open>net_reach\<close>.

  \<^item> A handled commit request that carries a valid signature of an honest node was sent by that node as
    a commit request (\<open>event_auth\<close>).  The signatures of a sign request and of a commit request are over
    the same fields, so the code cannot tell a relabelled sign request from a commit request.
  \<^item> A node has one signature per hash (\<open>unique_signatures\<close>).  The caches count signatures, not signers.
  \<^item> The committee does not change during the run (\<open>seated\<close>).
\<close>

section \<open>Signers\<close>

text \<open>\<^verbatim>\<open>checkSign\<close> as a function of the sealer list.\<close>

definition signed_by :: "crypto_api \<Rightarrow> h512 list \<Rightarrow> pbft_msg \<Rightarrow> bool" where
  "signed_by cr L r \<longleftrightarrow> unat (idx r) < length L \<and> L ! unat (idx r) \<noteq> 0 \<and>
     Verify cr (L ! unat (idx r)) (sig r) (block_hash r) \<and>
     Verify cr (L ! unat (idx r)) (sig2 r) (fieldsWithoutBlock cr r)"

lemma checkSign_signed_by: "checkSign cr e = signed_by cr (m_sealerList e)"
  by (rule ext) (auto simp: checkSign_def getNodeIDByIndex_def getSealerByIndex_def signed_by_def Let_def)

lemma fieldsWithoutBlock_marks [simp]:
  "fieldsWithoutBlock cr (r\<lparr>signChecked := b\<rparr>) = fieldsWithoutBlock cr r"
  "fieldsWithoutBlock cr (r\<lparr>isFuture := b\<rparr>) = fieldsWithoutBlock cr r"
  by (simp_all add: fieldsWithoutBlock_def)

lemma signed_by_marks [simp]:
  "signed_by cr L (r\<lparr>signChecked := b\<rparr>) = signed_by cr L r" "signed_by cr L (r\<lparr>isFuture := b\<rparr>) = signed_by cr L r"
  by (simp_all add: signed_by_def)

definition unique_signatures :: "crypto_api \<Rightarrow> bool" where
  "unique_signatures cr \<longleftrightarrow> (\<forall>pub h s s'. Verify cr pub s h \<longrightarrow> Verify cr pub s' h \<longrightarrow> s = s')"

lemma signed_by_unique:
  assumes "unique_signatures cr" "signed_by cr L r" "signed_by cr L r'" "idx r = idx r'" "block_hash r = block_hash r'"
  shows "sig r = sig r'"
  using assms unfolding signed_by_def unique_signatures_def by metis

section \<open>The commit cache\<close>

text \<open>
  \<open>authentic chk A c\<close>: a request in the cache that counts is signed (\<open>chk\<close>), and a signed request is
  one its signer stands for (\<open>A\<close>).
\<close>

definition authentic :: "(pbft_msg \<Rightarrow> bool) \<Rightarrow> (IDXTYPE \<Rightarrow> h256 \<Rightarrow> bool) \<Rightarrow> sig_cache \<Rightarrow> bool" where
  "authentic chk A c \<longleftrightarrow> sig_wf c \<and>
     (\<forall>h k r. lookup2 c h k = Some r \<longrightarrow>
        (\<not> isFuture r \<or> signChecked r \<longrightarrow> chk r) \<and> (chk r \<longrightarrow> A (idx r) (block_hash r)))"

lemma authentic_sub:
  assumes "authentic chk A c" "sig_wf c'" "\<And>h k r. lookup2 c' h k = Some r \<Longrightarrow> lookup2 c h k = Some r"
  shows "authentic chk A c'"
  using assms unfolding authentic_def by blast

lemma authentic_mono: "authentic chk A c \<Longrightarrow> (\<And>j h. A j h \<Longrightarrow> B j h) \<Longrightarrow> authentic chk B c"
  unfolding authentic_def by blast

lemma authentic_wf: "authentic chk A c \<Longrightarrow> sig_wf c" "authentic chk A c \<Longrightarrow> wf2 c"
  by (auto simp: authentic_def)

lemma authentic_delete:
  assumes "authentic chk A c"
  shows "authentic chk A (AList.delete h c)"
  using assms by (rule authentic_sub)
    (auto simp: lookup2_delete intro!: sig_wf_delete authentic_wf(1) [OF assms] split: if_splits)

lemma authentic_removeInvalidViewOf:
  assumes "authentic chk A c"
  shows "authentic chk A (removeInvalidViewOf h v c)"
  using assms by (rule authentic_sub)
    (auto simp: lookup2_removeInvalidViewOf [OF authentic_wf(2) [OF assms]]
      intro!: sig_wf_removeInvalidViewOf authentic_wf(1) [OF assms] split: if_splits)

lemma authentic_removeInvalidEntry:
  assumes "authentic chk A c"
  shows "authentic chk A (removeInvalidEntryFromCache n h c)"
  using assms by (rule authentic_sub)
    (auto simp: lookup2_removeInvalidEntry [OF authentic_wf(2) [OF assms]]
      intro!: sig_wf_removeInvalidEntry authentic_wf(1) [OF assms])

lemma authentic_triggerViewChange:
  assumes "authentic chk A (m_commitCache c)"
  shows "authentic chk A (m_commitCache (triggerViewChange v n c))"
  unfolding triggerViewChange_fields(4)
  using assms by (rule authentic_sub)
    (auto simp: lookup2_fold_all [OF authentic_wf(2) [OF assms]] intro: sig_wf_fold_removeInvalidViewOf authentic_wf(1) [OF assms])

lemma authentic_addCommitReq:
  assumes "authentic chk A (m_commitCache c)" "\<not> isFuture r \<or> signChecked r \<longrightarrow> chk r"
    "chk r \<longrightarrow> A (idx r) (block_hash r)"
  shows "authentic chk A (m_commitCache (addCommitReq r c))"
  using assms sig_wf_addReq [of "m_commitCache c" r]
  by (auto simp: addCommitReq_def authentic_def cache_simps)

lemma authentic_getCommitCacheSize:
  assumes "authentic chk A (m_commitCache c)" "\<And>r. chk (r\<lparr>signChecked := True\<rparr>) = chk r"
  shows "authentic chk A (m_commitCache (fst (getCommitCacheSize chk h n c)))"
proof (cases "getSizeFromCache h (m_commitCache c) \<ge> unat n")
  case True
  obtain cc k where cr: "checkAndRemoveInvalidFutureReq chk h False (n - 1) (m_commitCache c) = (cc, k)" by fastforce
  have "sig_wf cc" by (rule sig_wf_checkAndRemove [OF authentic_wf(1) [OF assms(1)] cr])
  moreover have "(\<not> isFuture r \<or> signChecked r \<longrightarrow> chk r) \<and> (chk r \<longrightarrow> A (idx r) (block_hash r))"
    if l: "lookup2 cc a b = Some r" for a b r
  proof -
    obtain r0 where r0: "lookup2 (m_commitCache c) a b = Some r0" "r = r0 \<or> chk r0 \<and> r = r0\<lparr>signChecked := True\<rparr>"
      using checkAndRemove_lookup2(2) [OF authentic_wf(2) [OF assms(1)] cr l] by blast
    have "(\<not> isFuture r0 \<or> signChecked r0 \<longrightarrow> chk r0) \<and> (chk r0 \<longrightarrow> A (idx r0) (block_hash r0))"
      using assms(1) r0(1) unfolding authentic_def by blast
    then show ?thesis using r0(2) assms(2) [of r0] by auto
  qed
  ultimately show ?thesis using True cr by (simp add: authentic_def getCommitCacheSize_def Let_def)
qed (use assms in \<open>simp add: getCommitCacheSize_def\<close>)

section \<open>Certificates\<close>

definition certified :: "nat \<Rightarrow> (IDXTYPE \<Rightarrow> h256 \<Rightarrow> bool) \<Rightarrow> nat \<Rightarrow> h256 \<Rightarrow> bool" where
  "certified q A N h \<longleftrightarrow> (\<exists>Q. q \<le> card Q \<and> (\<forall>j\<in>Q. unat j < N \<and> A j h))"

lemma certified_mono: "certified q A N h \<Longrightarrow> (\<And>j h. A j h \<Longrightarrow> B j h) \<Longrightarrow> certified q B N h"
  unfolding certified_def by blast

lemma certified_count:
  assumes auth: "authentic (signed_by cr L) A (m_commitCache c)" and uniq: "unique_signatures cr"
    and cnt: "unat n \<le> snd (getCommitCacheSize (signed_by cr L) h n c)" and pos: "0 < unat n"
  shows "certified (unat n) A (length L) h"
proof -
  let ?chk = "signed_by cr L"
  have big: "unat n \<le> getSizeFromCache h (m_commitCache c)"
    using cnt by (auto simp: getCommitCacheSize_def Let_def split: if_splits)
  then obtain m where m: "map_of (m_commitCache c) h = Some m"
    using pos by (cases "map_of (m_commitCache c) h") (auto simp: getSizeFromCache_def)
  define copy where "copy = filter (\<lambda>(_, r). \<not> isFuture r \<or> signChecked r \<or> ?chk r) m"
  have "snd (getCommitCacheSize ?chk h n c) = length (fst (checkFuture_loop ?chk False (unat (n - 1)) 0 m))"
    using big by (simp add: getCommitCacheSize_def checkAndRemoveInvalidFutureReq_def m case_prod_beta Let_def)
  then have len: "unat n \<le> length copy" using cnt by (simp add: checkFuture_copy_unlimited copy_def)
  have d: "distinct (map fst m)" by (rule wf2_inner [OF authentic_wf(2) [OF auth] m])
  have entry: "block_hash r = h \<and> toHex (sig r) = k \<and> ?chk r \<and> A (idx r) h" if "(k, r) \<in> set copy" for k r
  proof -
    have "lookup2 (m_commitCache c) h k = Some r" using that d by (simp add: lookup2_def m copy_def)
    then show ?thesis using auth that unfolding authentic_def sig_wf_def copy_def by auto
  qed
  have dc: "distinct (map fst copy)" unfolding copy_def by (rule distinct_filter_fst [OF d])
  have inj: "inj_on (idx \<circ> snd) (set copy)"
  proof (rule inj_onI)
    fix x y assume x: "x \<in> set copy" and y: "y \<in> set copy" and eq: "(idx \<circ> snd) x = (idx \<circ> snd) y"
    obtain k r k' r' where xy: "x = (k, r)" "y = (k', r')" by (cases x, cases y) blast
    have "sig r = sig r'"
      using entry [of k r] entry [of k' r'] x y xy eq by (intro signed_by_unique [OF uniq, of L]) simp_all
    then have "k = k'" using entry [of k r] entry [of k' r'] x y xy by metis
    then show "x = y" using x y xy dc eq_key_imp_eq_value by fastforce
  qed
  have "card ((idx \<circ> snd) ` set copy) = card (set copy)" using inj by (rule card_image)
  also have "\<dots> = length copy" using dc distinct_card distinct_map by blast
  finally have "unat n \<le> card ((idx \<circ> snd) ` set copy)" using len by simp
  moreover have "unat j < length L \<and> A j h" if j: "j \<in> (idx \<circ> snd) ` set copy" for j
  proof -
    obtain k r where "(k, r) \<in> set copy" "j = idx r" using j by auto
    then show ?thesis using entry [of k r] by (simp add: signed_by_def)
  qed
  ultimately show ?thesis unfolding certified_def by blast
qed

section \<open>What one node knows\<close>

text \<open>
  \<open>A j h\<close> stands for "node \<open>j\<close> is faulty or has signed a commit request for \<open>h\<close>", as far as the other
  nodes are concerned; the node's own votes, under its index \<open>i\<close>, are added.  \<open>U\<close> are votes and
  committed blocks of the node from before: neither is ever taken back.
\<close>

definition knows :: "(IDXTYPE \<Rightarrow> h256 \<Rightarrow> bool) \<Rightarrow> IDXTYPE \<Rightarrow> pbft_msg set \<Rightarrow> IDXTYPE \<Rightarrow> h256 \<Rightarrow> bool" where
  "knows A i V j h \<longleftrightarrow> A j h \<or> (j = i \<and> h \<in> block_hash ` V)"

definition cert_inv :: "world \<Rightarrow> h512 list \<Rightarrow> (IDXTYPE \<Rightarrow> h256 \<Rightarrow> bool) \<Rightarrow> IDXTYPE \<Rightarrow> nat \<Rightarrow> pbft_msg set \<times> block set \<Rightarrow> sig_cache \<Rightarrow> pbft_msg set \<Rightarrow> block set \<Rightarrow> bool" where
  "cert_inv w L A i q U c V D \<longleftrightarrow> fst U \<subseteq> V \<and> snd U \<subseteq> D \<and> authentic (signed_by (w_crypto w) L) (knows A i V) c \<and>
     (\<forall>b\<in>D. vote_ok w (headerHash (w_crypto w) b) (m_number (blockHeader b)) \<and>
        certified q (knows A i V) (length L) (headerHash (w_crypto w) b))"

definition vote_inv :: "world \<Rightarrow> h512 list \<Rightarrow> (IDXTYPE \<Rightarrow> h256 \<Rightarrow> bool) \<Rightarrow> IDXTYPE \<Rightarrow> nat \<Rightarrow> pbft_msg set \<times> block set \<Rightarrow> pbft_engine \<Rightarrow> bool" where
  "vote_inv w L A i q U e \<longleftrightarrow> cert_inv w L A i q U (m_commitCache (m_reqCache e)) (votes e) (drops e)"

text \<open>The configuration under which a node counts votes.\<close>

definition seat :: "world \<Rightarrow> h512 list \<Rightarrow> IDXTYPE \<Rightarrow> nat \<Rightarrow> pbft_engine \<Rightarrow> bool" where
  "seat w L i q e \<longleftrightarrow> m_sealerList e = L \<and> m_idx e = i \<and> unat (minValidNodes e) = q \<and>
     unat i < length L \<and> L ! unat i = kp_pub (m_keyPair e)"

definition crypto_ok :: "world \<Rightarrow> h512 list \<Rightarrow> bool" where
  "crypto_ok w L \<longleftrightarrow> unique_signatures (w_crypto w) \<and> 0 \<notin> set L \<and>
     (\<forall>kp h. Verify (w_crypto w) (kp_pub kp) (Sign (w_crypto w) kp h) h)"

lemma cert_inv_cache: "cert_inv w L A i q U c V D \<Longrightarrow> authentic (signed_by (w_crypto w) L) (knows A i V) c' \<Longrightarrow>
    cert_inv w L A i q U c' V D"
  by (simp add: cert_inv_def)

lemma cert_inv_votes: "cert_inv w L A i q U c V D \<Longrightarrow> V \<subseteq> V' \<Longrightarrow> cert_inv w L A i q U c V' D"
  unfolding cert_inv_def knows_def by (blast intro: authentic_mono certified_mono)

lemma cert_inv_mono: "cert_inv w L A i q U c V D \<Longrightarrow> (\<And>j h. knows A i V j h \<Longrightarrow> knows B i V j h) \<Longrightarrow> cert_inv w L B i q U c V D"
  unfolding cert_inv_def by (blast intro: authentic_mono certified_mono)

lemma cert_inv_authentic: "cert_inv w L A i q U c V D \<Longrightarrow> authentic (signed_by (w_crypto w) L) (knows A i V) c"
  by (simp add: cert_inv_def)

lemma vote_inv_core: "core e' = core e \<Longrightarrow> vote_inv w L A i q U e' = vote_inv w L A i q U e"
  by (simp add: core_def vote_inv_def)

lemma vote_inv_frame: "frame e e' \<Longrightarrow> vote_inv w L A i q U e' = vote_inv w L A i q U e"
  unfolding frame_def by (rule vote_inv_core) (rule conjunct1)

lemma seat_cfg: "cfg e' = cfg e \<Longrightarrow> m_keyPair e' = m_keyPair e \<Longrightarrow> seat w L i q e' = seat w L i q e"
  by (simp add: cfg_def seat_def minValidNodes_def)

lemma seat_frame:
  assumes "frame e e'"
  shows "seat w L i q e' = seat w L i q e"
  by (rule seat_cfg [OF _ frame_fields(7) [OF assms]]) (use assms in \<open>simp add: frame_def\<close>)

lemma vote_inv_on_cache:
  assumes "vote_inv w L A i q U e"
    and "authentic (signed_by (w_crypto w) L) (knows A i (votes e)) (m_commitCache (m_reqCache e)) \<Longrightarrow>
      authentic (signed_by (w_crypto w) L) (knows A i (votes e)) (m_commitCache (f (m_reqCache e)))"
  shows "vote_inv w L A i q U (on_cache f e)"
  using assms by (simp add: vote_inv_def cert_inv_def)

lemma vote_inv_cfields:
  "cfields c = cfields (m_reqCache e) \<Longrightarrow> vote_inv w L A i q U (e\<lparr>m_reqCache := c\<rparr>) = vote_inv w L A i q U e"
  by (simp add: vote_inv_def cfields_def)

lemma vote_inv_vframe: "vframe e e' \<Longrightarrow> vote_inv w L A i q U e' = vote_inv w L A i q U e"
  by (simp add: vframe_def frame_def core_def vote_inv_def cfields_def)

section \<open>Counting and committing\<close>

lemma counted_authentic:
  assumes "vote_inv w L A i q U e" "m_sealerList e = L" "crypto env = w_crypto w"
  shows "authentic (signed_by (w_crypto w) L) (knows A i (votes e)) (m_commitCache (fst (counted env e)))"
  unfolding counted_def checkSign_signed_by assms(2,3)
  by (rule authentic_getCommitCacheSize) (use assms in \<open>simp_all add: vote_inv_def cert_inv_def\<close>)

lemma counted_certified:
  assumes "vote_inv w L A i q U e" "seat w L i q e" "crypto_ok w L" "crypto env = w_crypto w" "0 < q"
    "q \<le> snd (counted env e)"
  shows "certified q (knows A i (votes e)) (length L) (block_hash (m_prepareCache (m_reqCache e)))"
proof -
  have q: "q = unat (minValidNodes e)" and L: "m_sealerList e = L" using assms(2) by (simp_all add: seat_def)
  show ?thesis unfolding q
    by (rule certified_count [where cr = "w_crypto w" and c = "fst (getSigCacheSize (checkSign (crypto env) e)
       (block_hash (m_prepareCache (m_reqCache e))) (minValidNodes e) (m_reqCache e))"])
      (use assms q in \<open>simp_all add: vote_inv_def cert_inv_def crypto_ok_def counted_def checkSign_signed_by L\<close>)
qed

lemma signed_cache_commitCache [simp]: "m_commitCache (signed_cache b c) = m_commitCache c"
  by (simp add: signed_cache_def share_block_def)

lemma vote_inv_commit_prepared:
  assumes "vote_inv w L A i q U e" "prep_inv w (m_prepareCache (m_reqCache e)) raw k"
    and "pBlock (m_prepareCache (m_reqCache e)) = Some b"
    and "certified q (knows A i (votes e)) (length L) (block_hash (m_prepareCache (m_reqCache e)))"
  shows "vote_inv w L A i q U (commit_prepared env b e)"
proof -
  have "headerHash (w_crypto w) b = block_hash (m_prepareCache (m_reqCache e))"
    "m_number (blockHeader b) = height raw"
    "vote_ok w (block_hash (m_prepareCache (m_reqCache e))) (height raw)"
    using assms(2,3) by (simp_all add: prep_inv_def names_block_def)
  then show ?thesis using assms(1,4)
    by (auto simp: vote_inv_def cert_inv_def commit_prepared_fields delCache_fields headerHash_def intro: authentic_delete)
qed

lemma vote_inv_checkAndSave:
  assumes "vote_inv w L A i q U e" "seat w L i q e" "crypto_ok w L" "crypto env = w_crypto w" "0 < q"
    and "node_inv w e" "m_view e \<noteq> MAXVIEW"
  shows "vote_inv w L A i q U (checkAndSave env e)"
proof -
  have L: "m_sealerList e = L" using assms(2) by (simp add: seat_def)
  let ?e = "e\<lparr>m_reqCache := fst (counted env e)\<rparr>"
  have v: "vote_inv w L A i q U ?e"
    using assms(1) counted_authentic [OF assms(1) L assms(4)] by (auto simp: vote_inv_def intro: cert_inv_cache)
  show ?thesis
  proof (cases rule: checkAndSave_cases [of env e])
    case keep
    then show ?thesis using v by simp
  next
    case (commit b)
    have "q \<le> snd (counted env e)" using commit(4) assms(2) by (simp add: seat_def)
    then have "certified q (knows A i (votes e)) (length L) (block_hash (m_prepareCache (m_reqCache e)))"
      using counted_certified [OF assms(1-5)] by blast
    moreover have "prep_inv w (m_prepareCache (m_reqCache e)) (m_rawPrepareCache (m_reqCache e)) (m_consensusBlockNumber e)"
      using assms(6,7) commit(3) by (simp add: node_inv_def lock_inv_def)
    ultimately show ?thesis unfolding commit(1) using v commit(2)
      by (intro vote_inv_commit_prepared) simp_all
  qed
qed

lemma own_commit_signed:
  assumes "seat w L i q e" "crypto_ok w L" "crypto env = w_crypto w"
  shows "signed_by (w_crypto w) L (own_commit env e r)"
proof -
  have "idx (own_commit env e r) = i" "L ! unat i = kp_pub (m_keyPair e)" "unat i < length L" "L ! unat i \<noteq> 0"
    using assms(1,2) nth_mem [of "unat i" L] by (auto simp: seat_def crypto_ok_def)
  moreover have "sig (own_commit env e r) = Sign (w_crypto w) (m_keyPair e) (block_hash (own_commit env e r))"
    "sig2 (own_commit env e r) = Sign (w_crypto w) (m_keyPair e) (fieldsWithoutBlock (w_crypto w) (own_commit env e r))"
    by (simp_all add: mkCommitReq_def mkPBFTMsg_def signMsg_def Let_def assms(3) fieldsWithoutBlock_def)
  ultimately show ?thesis using assms(2) by (simp add: signed_by_def crypto_ok_def)
qed

lemma vote_inv_after_sign:
  assumes "vote_inv w L A i q U e" "seat w L i q e" "crypto_ok w L" "crypto env = w_crypto w"
  shows "vote_inv w L A i q U (after_sign env e)"
proof -
  let ?m = "own_commit env e (m_prepareCache (m_reqCache e))"
  have "cert_inv w L A i q U (m_commitCache (m_reqCache e)) (insert ?m (votes e)) (drops e)"
    using assms(1) unfolding vote_inv_def by (rule cert_inv_votes) blast
  moreover from this have "authentic (signed_by (w_crypto w) L) (knows A i (insert ?m (votes e)))
      (m_commitCache (addCommitReq ?m (m_reqCache e)))"
    using own_commit_signed [OF assms(2-4)] assms(2)
    by (intro authentic_addCommitReq) (auto simp: cert_inv_def knows_def seat_def)
  ultimately show ?thesis by (simp add: vote_inv_def after_sign_fields cert_inv_cache)
qed

lemma vote_inv_checkAndCommit:
  assumes "vote_inv w L A i q U e" "seat w L i q e" "crypto_ok w L" "crypto env = w_crypto w" "0 < q"
    and "node_inv w e" "m_view e \<noteq> MAXVIEW"
  shows "vote_inv w L A i q U (checkAndCommit env e)"
proof (cases rule: checkAndCommit_cases [of env e])
  case (keep c)
  then show ?thesis using assms(1) vote_inv_cfields by simp
next
  case sign
  have "seat w L i q (after_sign env e)" using assms(2) seat_cfg [of "after_sign env e" e] by (simp add: after_sign_fields)
  moreover have "node_inv w (after_sign env e)" using assms(6,7) sign(2) by (simp add: node_inv_after_sign)
  ultimately show ?thesis unfolding sign(1)
    using vote_inv_after_sign [OF assms(1-4)] assms(3-5,7)
    by (intro vote_inv_checkAndSave) (simp_all add: after_sign_fields)
qed

section \<open>Proposals and requests\<close>

lemma vote_inv_prepared:
  assumes "vote_inv w L A i q U e"
  shows "vote_inv w L A i q U (prepared env req b ctx e)"
proof -
  have "m_commitCache (m_reqCache (prepared env req b ctx e)) =
      removeInvalidViewOf (headerHash (crypto env) b) (view req) (m_commitCache (m_reqCache e))"
    by (simp add: prepared_fields share_block_def)
  then show ?thesis unfolding vote_inv_def prepared_fields(2,3)
    using cert_inv_cache [OF _ authentic_removeInvalidViewOf [OF cert_inv_authentic]] assms
    unfolding vote_inv_def by simp
qed


lemma vote_inv_handlePrepareMsg:
  assumes "world_ok w" "env_ok w env" "node_inv w e" "m_view e \<noteq> MAXVIEW" "req_ok w req" "empty_ok w req"
    and "vote_inv w L A i q U e" "seat w L i q e" "crypto_ok w L" "0 < q"
  shows "vote_inv w L A i q U (fst (handlePrepareMsg env req e))"
  using assms(1-3,5,6)
proof (cases rule: handlePrepareMsg_cases)
  case (keep c)
  have "vote_inv w L A i q U (e\<lparr>m_reqCache := c\<rparr>)" using assms(7) keep(2) by (simp add: vote_inv_def)
  then show ?thesis using vote_inv_frame [OF keep(1)] by blast
next
  case (prepare b ctx e')
  have "vote_inv w L A i q U (on_cache (addRawPrepare req) e)"
    using assms(7) by (simp add: vote_inv_def addRawPrepare_def)
  then have v: "vote_inv w L A i q U (prepared env req b ctx e')"
    using vote_inv_prepared vote_inv_frame [OF prepare(2)] by blast
  have "seat w L i q (on_cache (addRawPrepare req) e)" using assms(8) by (simp add: seat_def minValidNodes_def)
  then have s: "seat w L i q (prepared env req b ctx e')"
    using seat_frame [OF prepare(2)] seat_cfg [of "prepared env req b ctx e'" e'] by (simp add: prepared_fields)
  have "m_view (prepared env req b ctx e') = m_view e" using frame_fields(3) [OF prepare(2)] by (simp add: prepared_fields)
  then show ?thesis unfolding prepare(1) using v s assms(2,4,9,10) prepare(3)
    by (intro vote_inv_checkAndCommit) (simp_all add: env_ok_def)
qed

lemma vote_inv_addSignReq: "vote_inv w L A i q U (on_cache (addSignReq r) e) = vote_inv w L A i q U e"
  by (rule vote_inv_cfields) (rule addSignReq_cfields)

lemma vote_inv_handleSignReq:
  assumes "env_ok w env" "node_inv w e" "m_view e \<noteq> MAXVIEW"
    and "vote_inv w L A i q U e" "seat w L i q e" "crypto_ok w L" "0 < q"
  shows "vote_inv w L A i q U (fst (handleSignReq env req e))"
proof (cases rule: handleSignReq_cases [of env req e])
  case (keep e')
  then show ?thesis using assms(4) vote_inv_frame by blast
next
  case (add req' e')
  then show ?thesis using assms(4) vote_inv_frame vote_inv_addSignReq by simp
next
  case valid
  let ?u = "updateViewMap (idx req) (view req) e"
  have f: "frame e ?u" by (simp add: frame_def)
  have "node_inv w (on_cache (addSignReq req) ?u)" unfolding node_inv_addSignReq using assms(2) by simp
  moreover have "vote_inv w L A i q U (on_cache (addSignReq req) ?u)"
    unfolding vote_inv_addSignReq using assms(4) vote_inv_frame [OF f] by simp
  moreover have "seat w L i q (on_cache (addSignReq req) ?u)"
    using assms(5) by (simp add: seat_def minValidNodes_def updateViewMap_def)
  ultimately show ?thesis unfolding valid using assms
    by (intro vote_inv_checkAndCommit) (simp_all add: env_ok_def)
qed

lemma vote_inv_handleCommitReq:
  assumes "env_ok w env" "node_inv w e" "m_view e \<noteq> MAXVIEW"
    and "vote_inv w L A i q U e" "seat w L i q e" "crypto_ok w L" "0 < q"
    and "signed_by (w_crypto w) L req \<longrightarrow> A (idx req) (block_hash req)"
  shows "vote_inv w L A i q U (fst (handleCommitReq env req e))"
proof (cases rule: handleCommitReq_cases [of env req e])
  case (keep e')
  then show ?thesis using assms(4) vote_inv_frame by blast
next
  case (add e')
  have "vote_inv w L A i q U e'" using assms(4) vote_inv_frame [OF add(2)] by blast
  then show ?thesis unfolding add(1)
    by (rule vote_inv_on_cache) (rule authentic_addCommitReq, use assms(8) in \<open>auto simp: knows_def\<close>)
next
  case valid
  let ?u = "updateViewMap (idx req) (view req) e"
  have f: "frame e ?u" by (simp add: frame_def)
  have "checkSign (crypto env) e req" using valid(2) by (auto simp: checkReq_def split: if_splits)
  then have s: "signed_by (w_crypto w) L req" using assms(1,5) by (simp add: checkSign_signed_by env_ok_def seat_def)
  have "node_inv w (on_cache (addCommitReq req) ?u)" unfolding node_inv_addCommitReq using assms(2) by simp
  moreover have "vote_inv w L A i q U ?u" using assms(4) vote_inv_frame [OF f] by blast
  then have "vote_inv w L A i q U (on_cache (addCommitReq req) ?u)"
    by (rule vote_inv_on_cache) (rule authentic_addCommitReq, use assms(8) s in \<open>auto simp: knows_def\<close>)
  moreover have "seat w L i q (on_cache (addCommitReq req) ?u)"
    using assms(5) by (simp add: seat_def minValidNodes_def updateViewMap_def)
  ultimately show ?thesis unfolding valid(1) using assms
    by (intro vote_inv_checkAndSave) (simp_all add: env_ok_def)
qed

lemma vote_inv_checkAndChangeView:
  assumes "vote_inv w L A i q U e"
  shows "vote_inv w L A i q U (checkAndChangeView env e)"
proof (cases rule: checkAndChangeView_cases [of env e])
  case keep
  then show ?thesis using assms by simp
next
  case (change n e')
  have "vote_inv w L A i q U (e\<lparr>m_view := m_toView e\<rparr>)" using assms by (simp add: vote_inv_def)
  then have "vote_inv w L A i q U e'" using vote_inv_frame [OF change(2)] by blast
  then show ?thesis unfolding change(1) by (rule vote_inv_on_cache) (rule authentic_triggerViewChange)
qed

lemma vote_inv_handleViewChangeReq:
  assumes "vote_inv w L A i q U e"
  shows "vote_inv w L A i q U (fst (handleViewChangeReq env req source e))"
proof (cases rule: handleViewChangeReq_cases [of env req source e])
  case (keep e')
  then show ?thesis using assms vote_inv_vframe by simp
next
  case (change e')
  then show ?thesis using assms vote_inv_vframe vote_inv_checkAndChangeView by simp
qed

lemma vote_inv_checkTimeout:
  assumes "vote_inv w L A i q U e"
  shows "vote_inv w L A i q U (checkTimeout env e)"
proof (cases rule: checkTimeout_cases [of env e])
  case keep
  then show ?thesis using assms by simp
next
  case (change e1)
  have "vote_inv w L A i q U (checkAndChangeView env e1)"
    using assms vote_inv_vframe [OF change(2)] vote_inv_checkAndChangeView by blast
  then show ?thesis using vote_inv_frame [OF change(1)] by blast
qed

section \<open>Steps\<close>

text \<open>A signed commit request that is handled was sent as one by its signer.\<close>

definition commit_auth :: "crypto_api \<Rightarrow> h512 list \<Rightarrow> (IDXTYPE \<Rightarrow> h256 \<Rightarrow> bool) \<Rightarrow> pbft_msg_packet \<Rightarrow> bool" where
  "commit_auth cr L A p \<longleftrightarrow> (packet_id p = packet_code CommitReqPacket \<longrightarrow>
     (case PBFTMsg_decode emptyMsg (pkt_data p) of
        Inl _ \<Rightarrow> True | Inr r \<Rightarrow> signed_by cr L r \<longrightarrow> A (idx r) (block_hash r)))"

fun event_auth :: "crypto_api \<Rightarrow> h512 list \<Rightarrow> (IDXTYPE \<Rightarrow> h256 \<Rightarrow> bool) \<Rightarrow> engine_event \<Rightarrow> pbft_engine \<Rightarrow> bool" where
  "event_auth cr L A Handle e = (case m_msgQueue e of [] \<Rightarrow> True | p # _ \<Rightarrow> commit_auth cr L A p)"
| "event_auth cr L A _ e = True"

lemma vote_inv_handleMsg:
  assumes "world_ok w" "env_ok w env" "node_inv w e" "m_view e \<noteq> MAXVIEW" "packet_ok w p"
    and "vote_inv w L A i q U e" "seat w L i q e" "crypto_ok w L" "0 < q" "commit_auth (w_crypto w) L A p"
  shows "vote_inv w L A i q U (handleMsg env p e)"
proof -
  have "vote_inv w L A i q U (fst (handlePrepareMsg_packet env p e))" if "packet_id p = packet_code PrepareReqPacket"
    using assms that vote_inv_handlePrepareMsg [OF assms(1-4) _ _ assms(6-9)]
    by (auto simp: handlePrepareMsg_packet_fst packet_ok_def split: option.splits)
  moreover have "vote_inv w L A i q U (fst (handleSignMsg env p e))"
    using assms(6) vote_inv_handleSignReq [OF assms(2-4,6-9)] by (metis handleSignMsg_cases)
  moreover have "vote_inv w L A i q U (fst (handleCommitMsg env p e))" if "packet_id p = packet_code CommitReqPacket"
  proof (cases rule: handleCommitMsg_cases [of env p e])
    case 1
    then show ?thesis using assms(6) by simp
  next
    case (2 req)
    then have "signed_by (w_crypto w) L req \<longrightarrow> A (idx req) (block_hash req)"
      using assms(10) that by (simp add: commit_auth_def)
    then show ?thesis unfolding 2(1) by (rule vote_inv_handleCommitReq [OF assms(2-4,6-9)])
  qed
  moreover have "vote_inv w L A i q U (fst (handleViewChangeMsg env p e))"
    using assms(6) vote_inv_handleViewChangeReq [OF assms(6)] by (metis handleViewChangeMsg_cases)
  ultimately have "vote_inv w L A i q U (handled env p e)" using assms(6) by (simp add: handled_def)
  then show ?thesis using vote_inv_frame [OF handleMsg_frame] by blast
qed

lemma vote_inv_handleFuture:
  assumes "world_ok w" "env_ok w env" "node_inv w e" "m_view e \<noteq> MAXVIEW"
    and "vote_inv w L A i q U e" "seat w L i q e" "crypto_ok w L" "0 < q"
  shows "vote_inv w L A i q U (handleFutureBlock env e)"
proof (cases "futurePrepareCache (to_uint64 (m_consensusBlockNumber e)) (m_reqCache e)")
  case None
  then show ?thesis using assms(5) by (simp add: handleFutureBlock_def)
next
  case (Some p)
  then have "(to_uint64 (m_consensusBlockNumber e), p) \<in> set (m_futurePrepareCache (m_reqCache e))"
    by (simp add: futurePrepareCache_def map_of_SomeD)
  then have "req_ok w p" "empty_ok w p" using assms(3) by (auto simp: node_inv_def future_inv_def)
  then have "vote_inv w L A i q U (fst (handlePrepareMsg env p e))" by (rule vote_inv_handlePrepareMsg [OF assms(1-4) _ _ assms(5-8)])
  then have "vote_inv w L A i q U (on_cache (eraseHandledFutureReq (to_uint64 (height p))) (fst (handlePrepareMsg env p e)))"
    by (rule vote_inv_on_cache) (simp add: eraseHandledFutureReq_def)
  then show ?thesis using assms(5) by (simp add: handleFutureBlock_def Some)
qed

lemma vote_inv_collectGarbage:
  assumes "vote_inv w L A i q U e"
  shows "vote_inv w L A i q U (engine_collectGarbage env e)"
  using assms cert_inv_cache [OF _ authentic_removeInvalidEntry [OF cert_inv_authentic]]
  by (auto simp: engine_collectGarbage_def vote_inv_def collectGarbage_fields votes_def drops_def)

lemma vote_inv_shouldSeal:
  assumes "world_ok w" "env_ok w env" "node_inv w e" "m_view e \<noteq> MAXVIEW"
    and "vote_inv w L A i q U e" "seat w L i q e" "crypto_ok w L" "0 < q"
  shows "vote_inv w L A i q U (fst (shouldSeal env e))"
  using assms(3)
proof (rule shouldSeal_cases [of w e env])
  fix r e1 assume f: "frame e e1" and r: "req_ok w r" "empty_ok w r"
    and eq: "frame (fst (handlePrepareMsg env r e1)) (fst (shouldSeal env e))"
  have "vote_inv w L A i q U (fst (handlePrepareMsg env r e1))"
    using assms node_inv_frame [OF f] vote_inv_frame [OF f] seat_frame [OF f] frame_fields(3) [OF f] r
    by (intro vote_inv_handlePrepareMsg [of w]) simp_all
  then show ?thesis using vote_inv_frame [OF eq] by blast
qed (use assms(5) in simp)

lemma vote_inv_generatePrepare:
  assumes "world_ok w" "env_ok w env" "node_inv w e" "m_view e \<noteq> MAXVIEW" "w_good w (blockHeader b)"
    and "vote_inv w L A i q U e" "seat w L i q e" "crypto_ok w L" "0 < q"
  shows "vote_inv w L A i q U (generatePrepare env b e)"
  using assms(2,5)
proof (rule generatePrepare_cases [of w env b e])
  assume "frame e (generatePrepare env b e)"
  then show ?thesis using assms(6) vote_inv_frame by blast
next
  fix r e1 assume f: "frame e e1" and r: "req_ok w r" "empty_ok w r"
    and eq: "generatePrepare env b e = fst (handlePrepareMsg env r e1)"
  show ?thesis unfolding eq
    using assms node_inv_frame [OF f] vote_inv_frame [OF f] seat_frame [OF f] frame_fields(3) [OF f] r
    by (intro vote_inv_handlePrepareMsg [of w]) simp_all
qed

lemma report_drops:
  assumes "m_number (blockHeader b) < 2 ^ 63 - 1" "0 \<le> m_consensusBlockNumber e"
  shows "drops (outcome_state (reportBlockWithoutLock env b e)) = drops e"
  using assms
proof (cases rule: reportBlock_cases [of b e env])
  case (throw c k v)
  then show ?thesis by (simp add: core_def)
next
  case (new n h c k v)
  then show ?thesis by (simp add: core_def)
qed simp

lemma vote_inv_report:
  assumes "m_number (blockHeader b) < 2 ^ 63 - 1" "node_inv w e" "vote_inv w L A i q U e"
  shows "vote_inv w L A i q U (outcome_state (reportBlockWithoutLock env b e))"
proof -
  have k: "0 \<le> m_consensusBlockNumber e" using assms(2) by (simp add: node_inv_def)
  have c: "authentic (signed_by (w_crypto w) L) (knows A i (votes e)) (m_commitCache (m_reqCache e))"
    using assms(3) by (simp add: vote_inv_def cert_inv_def)
  from assms(1) k show ?thesis
  proof (cases rule: reportBlock_cases [of b e env])
    case (throw c k v)
    then show ?thesis using assms(3) vote_inv_core [OF throw(1)] by (simp add: vote_inv_def cfields_def)
  next
    case (new n h c k v)
    then show ?thesis using assms(3) vote_inv_core [OF new(1)] authentic_delete [OF c]
      by (simp add: vote_inv_def cfields_def delCache_fields cert_inv_def)
  qed (use assms(3) in simp)
qed

lemma vote_inv_step:
  assumes "world_ok w" "node_inv w e" "step_ok w env ev e"
    and "vote_inv w L A i q U e" "seat w L i q e" "crypto_ok w L" "0 < q" "event_auth (w_crypto w) L A ev e"
  shows "vote_inv w L A i q U (engine_step env ev e)"
proof -
  have env: "env_ok w env" and v: "m_view e \<noteq> MAXVIEW" and ev: "event_ok w ev e"
    using assms(3) by (simp_all add: step_ok_def)
  note ops = vote_inv_handleFuture [OF assms(1) env assms(2) v assms(4-7)]
    vote_inv_generatePrepare [OF assms(1) env assms(2) v _ assms(4-7)] vote_inv_shouldSeal [OF assms(1) env assms(2) v assms(4-7)]
  show ?thesis
  proof (cases ev)
    case (Receive buffer n ep)
    then show ?thesis using assms(4) vote_inv_frame [OF receive_frame] by simp
  next
    case Handle
    show ?thesis
    proof (cases "m_msgQueue e")
      case Nil
      then show ?thesis using Handle assms(4) by simp
    next
      case (Cons p ps)
      let ?e = "e\<lparr>m_msgQueue := ps\<rparr>"
      have f: "frame e ?e" by (simp add: frame_def)
      have "vote_inv w L A i q U (handleMsg env p ?e)"
        using assms(2,4,5,8) ev v Handle Cons node_inv_frame [OF f] vote_inv_frame [OF f] seat_frame [OF f]
        by (intro vote_inv_handleMsg [OF assms(1) env _ _ _ _ _ assms(6,7)]) simp_all
      then show ?thesis using Handle Cons by simp
    qed
  next
    case RunTask
    then show ?thesis using assms(4) vote_inv_frame [OF run_task_frame] by simp
  next
    case (CheckDownloaded b)
    then show ?thesis using assms(4) vote_inv_core [OF checkBlock_core] by simp
  next
    case (Elsewhere c s)
    have "core (engine_step env ev e) = core e" using Elsewhere by simp
    then show ?thesis using assms(4) vote_inv_core by blast
  qed (use assms(2,4) ev ops in \<open>simp_all add: vote_inv_checkTimeout vote_inv_collectGarbage vote_inv_report\<close>)
qed

section \<open>Agreement from votes\<close>

text \<open>
  What agreement needs, apart from any protocol: in every reachable state an honest member votes for
  one value per height, a decision rests on the votes of a quorum, and two quorums share an honest
  member.
\<close>

locale byzantine_voting =
  fixes Reach :: "'s \<Rightarrow> bool"
    and Honest :: "'n set"
    and Quorum :: "'n set \<Rightarrow> bool"
    and Voted :: "'s \<Rightarrow> 'n \<Rightarrow> int \<Rightarrow> 'h \<Rightarrow> bool"
    and Decided :: "'s \<Rightarrow> 'n \<Rightarrow> int \<Rightarrow> 'h \<Rightarrow> bool"
  assumes intersect: "Reach s \<Longrightarrow> Quorum Q \<Longrightarrow> Quorum Q' \<Longrightarrow> \<exists>j\<in>Honest. j \<in> Q \<and> j \<in> Q'"
    and one_vote: "Reach s \<Longrightarrow> j \<in> Honest \<Longrightarrow> Voted s j n h \<Longrightarrow> Voted s j n h' \<Longrightarrow> h = h'"
    and certificate: "Reach s \<Longrightarrow> i \<in> Honest \<Longrightarrow> Decided s i n h \<Longrightarrow>
      \<exists>Q. Quorum Q \<and> (\<forall>j\<in>Honest. j \<in> Q \<longrightarrow> Voted s j n h)"
begin

lemma decisions_agree:
  assumes "Reach s" "i \<in> Honest" "Decided s i n h" "i' \<in> Honest" "Decided s i' n h'"
  shows "h = h'"
proof -
  obtain Q where Q: "Quorum Q" "\<forall>j\<in>Honest. j \<in> Q \<longrightarrow> Voted s j n h"
    using certificate [OF assms(1-3)] by blast
  obtain Q' where Q': "Quorum Q'" "\<forall>j\<in>Honest. j \<in> Q' \<longrightarrow> Voted s j n h'"
    using certificate [OF assms(1,4,5)] by blast
  obtain j where "j \<in> Honest" "j \<in> Q" "j \<in> Q'" using intersect [OF assms(1) Q(1) Q'(1)] by blast
  then show ?thesis using one_vote [OF assms(1)] Q(2) Q'(2) by blast
qed

end

section \<open>The network\<close>

record committee =
  sealers :: "h512 list"
  honest :: "IDXTYPE set"

definition faults :: "nat \<Rightarrow> nat" where
  "faults n = (n - 1) div 3"

definition members :: "committee \<Rightarrow> IDXTYPE set" where
  "members c = {j. unat j < length (sealers c)}"

definition committee_ok :: "world \<Rightarrow> committee \<Rightarrow> bool" where
  "committee_ok w c \<longleftrightarrow> world_ok w \<and> crypto_ok w (sealers c) \<and>
     0 < length (sealers c) \<and> length (sealers c) < 65536 \<and>
     honest c \<subseteq> members c \<and> card (members c - honest c) \<le> faults (length (sealers c))"

definition quorum_size :: "committee \<Rightarrow> nat" where
  "quorum_size c = length (sealers c) - faults (length (sealers c))"

text \<open>The seat that \<^verbatim>\<open>resetConfig\<close> gives to node \<open>i\<close>.\<close>

definition seated :: "world \<Rightarrow> committee \<Rightarrow> IDXTYPE \<Rightarrow> pbft_engine \<Rightarrow> bool" where
  "seated w c i e = seat w (sealers c) i (quorum_size c) e"

definition stands :: "committee \<Rightarrow> (IDXTYPE \<Rightarrow> pbft_engine) \<Rightarrow> IDXTYPE \<Rightarrow> h256 \<Rightarrow> bool" where
  "stands c net j h \<longleftrightarrow> j \<notin> honest c \<or> h \<in> block_hash ` votes (net j)"

inductive net_reach :: "world \<Rightarrow> committee \<Rightarrow> (IDXTYPE \<Rightarrow> pbft_engine) \<Rightarrow> bool" for w c where
  boot: "committee_ok w c \<Longrightarrow>
    (\<And>i. i \<in> honest c \<Longrightarrow> start_ok w (env i) (stored i) (e0 i) \<and> drops (e0 i) = {} \<and>
       start (env i) (stored i) (e0 i) = Inr (net i) \<and> seated w c i (net i)) \<Longrightarrow> net_reach w c net"
| move: "net_reach w c net \<Longrightarrow> i \<in> honest c \<Longrightarrow> step_ok w env ev (net i) \<Longrightarrow>
    event_auth (w_crypto w) (sealers c) (stands c net) ev (net i) \<Longrightarrow>
    seated w c i (engine_step env ev (net i)) \<Longrightarrow> net_reach w c (net(i := engine_step env ev (net i)))"

definition net_inv :: "world \<Rightarrow> committee \<Rightarrow> (IDXTYPE \<Rightarrow> pbft_engine) \<Rightarrow> bool" where
  "net_inv w c net \<longleftrightarrow> committee_ok w c \<and>
     (\<forall>i\<in>honest c. node_inv w (net i) \<and> seated w c i (net i) \<and>
        vote_inv w (sealers c) (stands c net) i (quorum_size c) ({}, {}) (net i))"

lemma start_fresh:
  assumes "start_ok w env stored e" "drops e = {}" "start env stored e = Inr e'"
  shows "votes e' = {}" "drops e' = {}" "m_commitCache (m_reqCache e') = []"
proof -
  obtain b where b: "tip env e = Some b" using assms(3) by (cases "tip env e") (simp_all add: start_eq)
  then obtain e3 where e3: "reportBlockWithoutLock env b (restarted env e) = Inr e3" "e' = initBackupDB stored e3"
    using assms(3) by (cases "reportBlockWithoutLock env b (restarted env e)") (auto simp: start_eq)
  have n: "m_number (blockHeader b) < 2 ^ 63 - 1" and so: "votes e = {}" "stored_ok w stored"
    using assms(1) b by (simp_all add: start_ok_def)
  have k: "0 \<le> m_consensusBlockNumber (restarted env e)" by (simp add: restarted_fields)
  have cc: "m_commitCache (m_reqCache (outcome_state (reportBlockWithoutLock env b (restarted env e)))) = []"
    using n k
  proof (cases rule: reportBlock_cases [of b "restarted env e" env])
    case (throw c k v)
    then show ?thesis using votes_core(2) [OF throw(1)] by (simp add: cfields_def restarted_fields emptyReqCache_def)
  next
    case (new n h c k v)
    then show ?thesis using votes_core(2) [OF new(1)]
      by (simp add: cfields_def restarted_fields emptyReqCache_def delCache_fields)
  qed (simp add: restarted_fields emptyReqCache_def)
  have f: "votes e3 = {}" "drops e3 = {}" "m_committedPrepareCache (m_reqCache e3) = emptyPrepare"
    "m_commitCache (m_reqCache e3) = []"
    using report_votes [OF n k, of env] report_drops [OF n k, of env] cc
    by (simp_all add: e3 outcome_state_def restarted_fields so assms(2) emptyReqCache_def)
  have "votes e' = {} \<and> drops e' = {} \<and> m_commitCache (m_reqCache e') = []" unfolding e3(2)
  proof (cases rule: initBackupDB_cases [OF f(3) so(2)])
    case 1
    then show "votes (initBackupDB stored e3) = {} \<and> drops (initBackupDB stored e3) = {} \<and>
      m_commitCache (m_reqCache (initBackupDB stored e3)) = []"
      using f by (simp add: frame_def core_def)
  next
    case (2 r e4)
    then show "votes (initBackupDB stored e3) = {} \<and> drops (initBackupDB stored e3) = {} \<and>
      m_commitCache (m_reqCache (initBackupDB stored e3)) = []"
      using f frame_fields [OF 2(2)] by simp
  qed
  then show "votes e' = {}" "drops e' = {}" "m_commitCache (m_reqCache e') = []" by simp_all
qed

lemma quorum_pos:
  assumes "committee_ok w c"
  shows "0 < quorum_size c"
proof -
  have "0 < length (sealers c)" using assms unfolding committee_ok_def by blast
  then show ?thesis unfolding quorum_size_def faults_def by presburger
qed

lemma vote_inv_mono:
  assumes "vote_inv w L A i q U e" "\<And>j h. A j h \<Longrightarrow> B j h"
  shows "vote_inv w L B i q ({}, {}) e"
proof -
  have "cert_inv w L A i q ({}, {}) (m_commitCache (m_reqCache e)) (votes e) (drops e)"
    using assms(1) by (simp add: vote_inv_def cert_inv_def)
  then show ?thesis unfolding vote_inv_def by (rule cert_inv_mono) (use assms(2) in \<open>auto simp: knows_def\<close>)
qed

lemma net_inv_move:
  assumes "net_inv w c net" "i \<in> honest c" "step_ok w env ev (net i)"
    and "event_auth (w_crypto w) (sealers c) (stands c net) ev (net i)"
  shows "vote_inv w (sealers c) (stands c net) i (quorum_size c) (votes (net i), drops (net i)) (engine_step env ev (net i))"
proof -
  have ok: "committee_ok w c" and inv: "node_inv w (net i)" "seated w c i (net i)"
    "vote_inv w (sealers c) (stands c net) i (quorum_size c) ({}, {}) (net i)"
    using assms(1,2) by (auto simp: net_inv_def)
  have w: "world_ok w" "crypto_ok w (sealers c)" using ok by (simp_all add: committee_ok_def)
  have "vote_inv w (sealers c) (stands c net) i (quorum_size c) (votes (net i), drops (net i)) (net i)"
    using inv(3) by (simp add: vote_inv_def cert_inv_def)
  then show ?thesis using inv w quorum_pos [OF ok] assms(3,4) by (intro vote_inv_step) (simp_all add: seated_def)
qed

lemma net_inv_reach: "net_reach w c net \<Longrightarrow> net_inv w c net"
proof (induction rule: net_reach.induct)
  case (boot env stored e0 net)
  have "node_inv w (net i) \<and> seated w c i (net i) \<and>
      vote_inv w (sealers c) (stands c net) i (quorum_size c) ({}, {}) (net i)" if i: "i \<in> honest c" for i
  proof -
    have s: "start_ok w (env i) (stored i) (e0 i)" "drops (e0 i) = {}"
      "start (env i) (stored i) (e0 i) = Inr (net i)" "seated w c i (net i)" using boot(2) [OF i] by blast+
    have "world_ok w" using boot(1) by (simp add: committee_ok_def)
    from node_inv_start [OF this s(1,3)] s(4) start_fresh [OF s(1-3)]
    show ?thesis by (simp add: vote_inv_def cert_inv_def authentic_def)
  qed
  then show ?case using boot(1) by (simp add: net_inv_def)
next
  case (move net i env ev)
  let ?L = "sealers c" and ?q = "quorum_size c" and ?e = "engine_step env ev (net i)"
  let ?net = "net(i := engine_step env ev (net i))"
  have ok: "committee_ok w c" and inv: "\<And>j. j \<in> honest c \<Longrightarrow> node_inv w (net j) \<and> seated w c j (net j) \<and>
        vote_inv w ?L (stands c net) j ?q ({}, {}) (net j)"
    using move.IH by (auto simp: net_inv_def)
  have w: "world_ok w" "crypto_ok w ?L" using ok by (simp_all add: committee_ok_def)
  note v = net_inv_move [OF move.IH move(2-4)]
  then have grow: "votes (net i) \<subseteq> votes ?e" by (simp add: vote_inv_def cert_inv_def)
  then have st: "stands c ?net j h" if "stands c net j h" for j h
    using that by (auto simp: stands_def)
  have "node_inv w (?net j) \<and> seated w c j (?net j) \<and> vote_inv w ?L (stands c ?net) j ?q ({}, {}) (?net j)"
    if j: "j \<in> honest c" for j
  proof (cases "j = i")
    case True
    have "node_inv w ?e" using inv [OF move(2)] w move(3) by (intro node_inv_step) simp_all
    moreover have "vote_inv w ?L (stands c ?net) i ?q ({}, {}) ?e" using v st by (rule vote_inv_mono)
    ultimately show ?thesis using True move(5) by simp
  next
    case False
    have "vote_inv w ?L (stands c net) j ?q ({}, {}) (net j)" using inv [OF j] by blast
    then have "vote_inv w ?L (stands c ?net) j ?q ({}, {}) (net j)" using st by (rule vote_inv_mono)
    then show ?thesis using inv [OF j] False by simp
  qed
  then show ?case unfolding net_inv_def using ok by blast
qed

lemma vote_ok_number:
  assumes "world_ok w" "vote_ok w h n" "vote_ok w h n'"
  shows "n = n'"
proof -
  obtain hd hd' where "w_good w hd" "header_hash (w_crypto w) hd = h" "m_number hd = n"
    "w_good w hd'" "header_hash (w_crypto w) hd' = h" "m_number hd' = n'"
    using assms(2,3) unfolding vote_ok_def by blast
  then show ?thesis using assms(1) unfolding world_ok_def by metis
qed

lemma quorums_intersect:
  assumes "committee_ok w c" "Q \<subseteq> members c" "Q' \<subseteq> members c" "quorum_size c \<le> card Q" "quorum_size c \<le> card Q'"
  shows "\<exists>j\<in>honest c. j \<in> Q \<and> j \<in> Q'"
proof (rule ccontr)
  assume "\<not> ?thesis"
  then have sub: "Q \<inter> Q' \<subseteq> members c - honest c" using assms(2) by blast
  let ?n = "length (sealers c)"
  have ok: "0 < ?n" "?n < 65536" "card (members c - honest c) \<le> faults ?n"
    using assms(1) unfolding committee_ok_def by blast+
  have "members c = of_nat ` {..<?n}"
  proof (intro equalityI subsetI)
    fix j assume "j \<in> members c"
    then have "j = of_nat (unat j) \<and> unat j < ?n" by (simp add: members_def)
    then show "j \<in> of_nat ` {..<?n}" by (metis imageI lessThan_iff)
  qed (use ok(2) in \<open>auto simp: members_def unat_of_nat\<close>)
  then have m: "card (members c) \<le> ?n" using card_image_le [of "{..<?n}" "of_nat :: nat \<Rightarrow> IDXTYPE"] by simp
  have "card Q + card Q' = card (Q \<union> Q') + card (Q \<inter> Q')" by (rule card_Un_Int) simp_all
  moreover have "card (Q \<union> Q') \<le> card (members c)" using assms(2,3) by (intro card_mono) auto
  moreover have "card (Q \<inter> Q') \<le> faults ?n" using card_mono [OF _ sub] ok(3) by simp
  ultimately have "2 * quorum_size c \<le> ?n + faults ?n" using assms(4,5) m by linarith
  moreover have "?n + faults ?n < 2 * quorum_size c" using ok(1) unfolding quorum_size_def faults_def by presburger
  ultimately show False by simp
qed

definition has_voted :: "(IDXTYPE \<Rightarrow> pbft_engine) \<Rightarrow> IDXTYPE \<Rightarrow> int \<Rightarrow> h256 \<Rightarrow> bool" where
  "has_voted net j n h \<longleftrightarrow> (\<exists>m\<in>votes (net j). height m = n \<and> block_hash m = h)"

definition has_committed :: "crypto_api \<Rightarrow> (IDXTYPE \<Rightarrow> pbft_engine) \<Rightarrow> IDXTYPE \<Rightarrow> int \<Rightarrow> h256 \<Rightarrow> bool" where
  "has_committed cr net i n h \<longleftrightarrow> (\<exists>b\<in>drops (net i). m_number (blockHeader b) = n \<and> headerHash cr b = h)"

lemma net_one_vote:
  assumes "net_inv w c net" "j \<in> honest c" "has_voted net j n h" "has_voted net j n h'"
  shows "h = h'"
proof -
  have "agree (votes (net j))" using assms(1,2) by (simp add: net_inv_def node_inv_def lock_inv_def)
  moreover obtain m m' where "m \<in> votes (net j)" "m' \<in> votes (net j)" "height m = n" "height m' = n"
      "block_hash m = h" "block_hash m' = h'"
    using assms(3,4) unfolding has_voted_def by blast
  ultimately show ?thesis unfolding agree_def by metis
qed

lemma net_certificate:
  assumes "net_inv w c net" "i \<in> honest c" "has_committed (w_crypto w) net i n h"
  shows "\<exists>Q. (Q \<subseteq> members c \<and> quorum_size c \<le> card Q) \<and> (\<forall>j\<in>honest c. j \<in> Q \<longrightarrow> has_voted net j n h)"
proof -
  have w: "world_ok w" using assms(1) by (simp add: net_inv_def committee_ok_def)
  obtain b where b: "b \<in> drops (net i)" "m_number (blockHeader b) = n" "headerHash (w_crypto w) b = h"
    using assms(3) unfolding has_committed_def by blast
  have "cert_inv w (sealers c) (stands c net) i (quorum_size c) ({}, {}) (m_commitCache (m_reqCache (net i))) (votes (net i)) (drops (net i))"
    using assms(1,2) by (simp add: net_inv_def vote_inv_def)
  then have vo: "vote_ok w h n" and "certified (quorum_size c) (knows (stands c net) i (votes (net i))) (length (sealers c)) h"
    using b by (auto simp: cert_inv_def)
  then obtain Q where Q: "quorum_size c \<le> card Q" "\<forall>j\<in>Q. unat j < length (sealers c) \<and> knows (stands c net) i (votes (net i)) j h"
    unfolding certified_def by blast
  have "has_voted net j n h" if j: "j \<in> honest c" "j \<in> Q" for j
  proof -
    have "h \<in> block_hash ` votes (net j)" using Q(2) j assms(2) by (auto simp: knows_def stands_def)
    then obtain m where m: "m \<in> votes (net j)" "block_hash m = h" by blast
    have "locked w (m_committedPrepareCache (m_reqCache (net j))) m"
      using assms(1) j(1) m(1) by (simp add: net_inv_def node_inv_def lock_inv_def)
    then have "vote_ok w h (height m)" using m(2) by (simp add: locked_def)
    then have "height m = n" using vote_ok_number [OF w] vo by blast
    then show ?thesis using m unfolding has_voted_def by blast
  qed
  moreover have "Q \<subseteq> members c" using Q(2) by (auto simp: members_def)
  ultimately show ?thesis using Q(1) by blast
qed

interpretation pbft: byzantine_voting "net_reach w c" "honest c" "\<lambda>Q. Q \<subseteq> members c \<and> quorum_size c \<le> card Q"
  has_voted "has_committed (w_crypto w)" for w c
proof
  fix net Q Q'
  assume r: "net_reach w c net" and Q: "Q \<subseteq> members c \<and> quorum_size c \<le> card Q" "Q' \<subseteq> members c \<and> quorum_size c \<le> card Q'"
  have "committee_ok w c" using net_inv_reach [OF r] unfolding net_inv_def by (rule conjunct1)
  then show "\<exists>j\<in>honest c. j \<in> Q \<and> j \<in> Q'" 
    by (rule quorums_intersect [OF _ conjunct1 [OF Q(1)] conjunct1 [OF Q(2)] conjunct2 [OF Q(1)] conjunct2 [OF Q(2)]])
next
  fix net j n h h'
  assume "net_reach w c net" "j \<in> honest c" "has_voted net j n h" "has_voted net j n h'"
  then show "h = h'" using net_one_vote net_inv_reach by blast
next
  fix net i n h
  assume r: "net_reach w c net" and "i \<in> honest c" "has_committed (w_crypto w) net i n h"
  then show "\<exists>Q. (Q \<subseteq> members c \<and> quorum_size c \<le> card Q) \<and> (\<forall>j\<in>honest c. j \<in> Q \<longrightarrow> has_voted net j n h)"
    by (intro net_certificate [OF net_inv_reach [OF r]])
qed

end
