(* ===== verification/Voting.thy ===== *)
theory Voting
  imports Agreement
begin

text \<open>
  The abstract specification of the consensus protocol, and the refinement: a machine in which every
  honest member casts at most one vote per height, and decides a hash at a height when a quorum of
  members, as far as they are honest, has voted for it.  Messages, views, caches, proposals, timers
  and restarts do not occur in it.  Every run of the network of engines is, seen through
  \<open>ballots_of\<close>, a run of this machine.
\<close>

section \<open>The machine\<close>

record ballots =
  cast :: "IDXTYPE \<Rightarrow> int \<Rightarrow> h256 option"
  decided :: "(IDXTYPE \<times> int \<times> h256) set"

definition no_ballots :: ballots where
  "no_ballots = \<lparr>cast = (\<lambda>_ _. None), decided = {}\<rparr>"

inductive voting_step :: "committee \<Rightarrow> ballots \<Rightarrow> ballots \<Rightarrow> bool" for c where
  vote: "j \<in> honest c \<Longrightarrow> cast s j n = None \<Longrightarrow>
    voting_step c s (s\<lparr>cast := (cast s)(j := (cast s j)(n \<mapsto> h))\<rparr>)"
| decide: "i \<in> honest c \<Longrightarrow> Q \<subseteq> members c \<Longrightarrow> quorum_size c \<le> card Q \<Longrightarrow>
    (\<And>j. j \<in> honest c \<Longrightarrow> j \<in> Q \<Longrightarrow> cast s j n = Some h) \<Longrightarrow>
    voting_step c s (s\<lparr>decided := insert (i, n, h) (decided s)\<rparr>)"

section \<open>The network as the machine sees it\<close>

definition voted_for :: "pbft_engine \<Rightarrow> int \<Rightarrow> h256 option" where
  "voted_for e n = (let hs = block_hash ` {m \<in> votes e. height m = n} in if hs = {} then None else Some (the_elem hs))"

definition ballots_of :: "world \<Rightarrow> committee \<Rightarrow> (IDXTYPE \<Rightarrow> pbft_engine) \<Rightarrow> ballots" where
  "ballots_of w c net = \<lparr>cast = (\<lambda>j. if j \<in> honest c then voted_for (net j) else (\<lambda>_. None)),
     decided = {(i, n, h). i \<in> honest c \<and> has_committed (w_crypto w) net i n h}\<rparr>"

section \<open>Refinement\<close>

lemma voted_for_iff:
  assumes "agree (votes e)"
  shows "voted_for e n = Some h \<longleftrightarrow> (\<exists>m\<in>votes e. height m = n \<and> block_hash m = h)"
proof -
  have one: "h = h'" if h: "h \<in> block_hash ` {m \<in> votes e. height m = n}" "h' \<in> block_hash ` {m \<in> votes e. height m = n}" for h h'
  proof -
    obtain m m' where "m \<in> votes e" "m' \<in> votes e" "height m = height m'" "h = block_hash m" "h' = block_hash m'"
      using h by (elim imageE CollectE conjE) metis
    then show ?thesis using assms unfolding agree_def by metis
  qed
  show ?thesis
  proof
    assume v: "voted_for e n = Some h"
    let ?hs = "block_hash ` {m \<in> votes e. height m = n}"
    from v have ne: "?hs \<noteq> {}" "h = the_elem ?hs" by (auto simp: voted_for_def Let_def split: if_splits)
    then obtain k where "k \<in> ?hs" by blast
    then have "?hs = {k}" using one by blast
    then have "h \<in> ?hs" using ne(2) by simp
    then show "\<exists>m\<in>votes e. height m = n \<and> block_hash m = h" by blast
  next
    assume "\<exists>m\<in>votes e. height m = n \<and> block_hash m = h"
    then have "h \<in> block_hash ` {m \<in> votes e. height m = n}" by blast
    then have "block_hash ` {m \<in> votes e. height m = n} = {h}" using one by blast
    then show "voted_for e n = Some h" by (simp add: voted_for_def)
  qed
qed

lemma finite_votes: "finite (votes e)" "finite (drops e)"
proof -
  have "votes e \<subseteq> (\<lambda>x. case x of Signs _ m \<Rightarrow> m | _ \<Rightarrow> undefined) ` set (effects e)"
    by (force simp: votes_def image_iff)
  then show "finite (votes e)" by (rule finite_subset) simp
  have "drops e \<subseteq> (\<lambda>x. case x of DropBlockTrans b \<Rightarrow> b | _ \<Rightarrow> undefined) ` set (effects e)"
    by (force simp: drops_def image_iff)
  then show "finite (drops e)" by (rule finite_subset) simp
qed

lemma finite_voted_for: "finite (dom (voted_for e))"
proof -
  have "dom (voted_for e) \<subseteq> height ` votes e" by (auto simp: voted_for_def Let_def split: if_splits)
  then show ?thesis using finite_votes(1) finite_surj by blast
qed

lemma cast_steps:
  assumes "finite (dom g)" "cast s j \<subseteq>\<^sub>m g" "j \<in> honest c"
  shows "(voting_step c)\<^sup>*\<^sup>* s (s\<lparr>cast := (cast s)(j := g)\<rparr>)"
  using assms
proof (induction "card (dom g - dom (cast s j))" arbitrary: s)
  case 0
  then have "dom g \<subseteq> dom (cast s j)" by simp
  then have "cast s j = g" using 0(3) by (intro map_le_antisym) (force simp: map_le_def)+
  then show ?case by (simp add: fun_upd_idem)
next
  case (Suc k)
  then obtain n where n: "n \<in> dom g" "n \<notin> dom (cast s j)" by (metis Diff_iff card.empty ex_in_conv nat.distinct(1))
  then obtain h where h: "g n = Some h" by blast
  let ?s = "s\<lparr>cast := (cast s)(j := (cast s j)(n \<mapsto> h))\<rparr>"
  have "voting_step c s ?s" by (rule voting_step.vote) (use n Suc.prems(3) in auto)
  moreover have "dom g - dom (cast ?s j) = (dom g - dom (cast s j)) - {n}" by auto
  then have "k = card (dom g - dom (cast ?s j))" using Suc(2) n Suc.prems(1) by simp
  then have "(voting_step c)\<^sup>*\<^sup>* ?s (?s\<lparr>cast := (cast ?s)(j := g)\<rparr>)"
    using Suc.prems h by (intro Suc(1)) (auto simp: map_le_def)
  ultimately show ?case by (simp add: converse_rtranclp_into_rtranclp)
qed

lemma decide_steps:
  assumes "finite D" "\<And>i n h. (i, n, h) \<in> D \<Longrightarrow> i \<in> honest c \<and>
      (\<exists>Q. (Q \<subseteq> members c \<and> quorum_size c \<le> card Q) \<and> (\<forall>j\<in>honest c. j \<in> Q \<longrightarrow> cast s j n = Some h))"
  shows "(voting_step c)\<^sup>*\<^sup>* s (s\<lparr>decided := decided s \<union> D\<rparr>)"
  using assms
proof (induction D rule: finite_induct)
  case empty
  then show ?case by simp
next
  case (insert x D)
  obtain i n h where x: "x = (i, n, h)" by (cases x)
  let ?s = "s\<lparr>decided := decided s \<union> D\<rparr>"
  obtain Q where "i \<in> honest c" "Q \<subseteq> members c" "quorum_size c \<le> card Q" "\<forall>j\<in>honest c. j \<in> Q \<longrightarrow> cast s j n = Some h"
    using insert.prems [of i n h] x by blast
  then have "voting_step c ?s (?s\<lparr>decided := insert (i, n, h) (decided ?s)\<rparr>)" by (intro voting_step.decide) auto
  moreover have "(voting_step c)\<^sup>*\<^sup>* s ?s" using insert.IH insert.prems by blast
  ultimately show ?case using x by (simp add: rtranclp.rtrancl_into_rtrancl)
qed

lemma net_cast:
  assumes "net_inv w c net" "j \<in> honest c"
  shows "cast (ballots_of w c net) j n = Some h \<longleftrightarrow> has_voted net j n h"
  using assms voted_for_iff [of "net j" n h]
  by (simp add: ballots_of_def has_voted_def net_inv_def node_inv_def lock_inv_def)

lemma move_refines:
  assumes "net_reach w c net" "i \<in> honest c" "step_ok w env ev (net i)"
    and "event_auth (w_crypto w) (sealers c) (stands c net) ev (net i)"
    and "seated w c i (engine_step env ev (net i))"
  shows "(voting_step c)\<^sup>*\<^sup>* (ballots_of w c net) (ballots_of w c (net(i := engine_step env ev (net i))))"
proof -
  let ?net = "net(i := engine_step env ev (net i))"
  let ?s = "ballots_of w c net" and ?s' = "ballots_of w c ?net"
  have inv: "net_inv w c net" "net_inv w c ?net"
    using net_inv_reach net_reach.move [OF assms] assms(1) by blast+
  have grow: "votes (net i) \<subseteq> votes (?net i)" "drops (net i) \<subseteq> drops (?net i)"
    using net_inv_move [OF inv(1) assms(2-4)] by (simp_all add: vote_inv_def cert_inv_def)
  have le: "cast ?s i \<subseteq>\<^sub>m voted_for (?net i)" unfolding map_le_def
  proof
    fix n assume "n \<in> dom (cast ?s i)"
    then obtain h where h: "cast ?s i n = Some h" by blast
    then have "cast ?s' i n = Some h"
      using net_cast [OF inv(1) assms(2)] net_cast [OF inv(2) assms(2)] grow(1) by (auto simp: has_voted_def)
    then show "cast ?s i n = voted_for (?net i) n" using h assms(2) by (simp add: ballots_of_def)
  qed
  define D where "D = {(j, n, h). j = i \<and> has_committed (w_crypto w) ?net j n h}"
  have "D \<subseteq> (\<lambda>b. (i, m_number (blockHeader b), headerHash (w_crypto w) b)) ` drops (?net i)"
    by (auto simp: D_def has_committed_def)
  then have fin: "finite D" using finite_votes(2) finite_surj by blast
  let ?v = "?s\<lparr>cast := (cast ?s)(i := voted_for (?net i))\<rparr>"
  have v: "cast ?v = cast ?s'" using assms(2) by (auto simp: ballots_of_def)
  have votes: "(voting_step c)\<^sup>*\<^sup>* ?s ?v" by (rule cast_steps [OF finite_voted_for le assms(2)])
  have cert: "\<exists>Q. (Q \<subseteq> members c \<and> quorum_size c \<le> card Q) \<and> (\<forall>j\<in>honest c. j \<in> Q \<longrightarrow> cast ?v j n = Some h)"
    if "has_committed (w_crypto w) ?net i n h" for n h
    unfolding v using net_certificate [OF inv(2) assms(2) that] net_cast [OF inv(2)] by simp
  have decisions: "(voting_step c)\<^sup>*\<^sup>* ?v (?v\<lparr>decided := decided ?v \<union> D\<rparr>)"
    by (rule decide_steps [OF fin]) (use cert assms(2) in \<open>simp add: D_def del: fun_upd_apply\<close>)
  have more: "has_committed (w_crypto w) ?net i n h" if "has_committed (w_crypto w) net i n h" for n h
    using that grow(2) unfolding has_committed_def by blast
  have other: "has_committed (w_crypto w) ?net j = has_committed (w_crypto w) net j" if "j \<noteq> i" for j
    using that by (simp add: has_committed_def fun_eq_iff)
  have "decided ?v \<union> D = decided ?s'"
    using more other assms(2) by (auto simp: ballots_of_def D_def simp del: fun_upd_apply) metis+
  then have "?v\<lparr>decided := decided ?v \<union> D\<rparr> = ?s'" using v by simp
  then show ?thesis using rtranclp_trans [OF votes decisions] by simp
qed

lemma net_refines_voting: "net_reach w c net \<Longrightarrow> (voting_step c)\<^sup>*\<^sup>* no_ballots (ballots_of w c net)"
proof (induction rule: net_reach.induct)
  case (boot env stored e0 net)
  have "votes (net i) = {} \<and> drops (net i) = {}" if "i \<in> honest c" for i
    using boot(2) [OF that] start_fresh [of w "env i" "stored i" "e0 i" "net i"] by blast
  then have "ballots_of w c net = no_ballots"
    by (auto simp: ballots_of_def no_ballots_def voted_for_def has_committed_def fun_eq_iff)
  then show ?case by simp
next
  case (move net i env ev)
  then show ?case using move_refines rtranclp_trans by metis
qed

end
