(* ===== verification/Example.thy ===== *)
theory Example
  imports Voting
begin

text \<open>
  A running example: the committee of one node over a chain that holds its genesis block.  The node
  starts, seals a block with one transaction and commits it in the same step, since its own signature
  is a quorum.  The witnesses of the properties of the engine are taken from here.
\<close>

definition solo_header :: "int \<Rightarrow> h256 \<Rightarrow> block_header" where
  "solo_header n parent = emptyHeader\<lparr>m_number := n, m_parentHash := parent, m_timestamp := 1,
     m_sealer := 0, block_header.m_sealerList := [7]\<rparr>"

definition solo_genesis :: block where
  "solo_genesis = emptyBlock\<lparr>blockHeader := solo_header 0 0\<rparr>"

definition solo_block :: block where
  "solo_block = emptyBlock\<lparr>blockHeader := solo_header 1 1, transactions := [[1]]\<rparr>"

definition solo_crypto :: crypto_api where
  "solo_crypto = demo_crypto [solo_header 0 0, solo_header 1 1]"

definition solo_env :: engine_env where
  "solo_env = \<lparr>crypto = solo_crypto, utcSteadyTime = 10, execTime = 11, utcTime = 12, alignedTime = None,
     sessions = [], decodeBlock = (\<lambda>_. None), encodeBlock = (\<lambda>_ _. []), verifyTxs = (\<lambda>_. True),
     execute = (\<lambda>b _. Some (b, Some 0)), commitEnv = demo_ce, dbCommit = (\<lambda>_ _ t. Some t),
     lexical_cast = (\<lambda>s. if s = ''1000'' then Some 1000 else None)\<rparr>"

definition solo_engine :: pbft_engine where
  "solo_engine = \<lparr>m_maxBlockTransactions = 0, m_sealerListUpdated = False, m_lastSealerListUpdateNumber = 0,
     m_blockChain = genesis_chain solo_crypto solo_genesis demo_sys,
     m_blockSync = \<lparr>sync_state = Idle, knownHighestNumber = 0, m_currentSealingNumber = 0, sync_farBehind = False\<rparr>,
     m_consensusBlockNumber = 0, m_highestBlock = emptyHeader, m_nodeNum = 0, m_f = 0,
     m_accountType = ObserverAccount, m_idx = 0, m_keyPair = \<lparr>kp_secret = 1, kp_pub = 7\<rparr>, m_sealerList = [],
     m_allowFutureBlocks = True, m_startConsensusEngine = False, m_lastNodeList = [], m_connectedNode = 0,
     m_omitEmptyBlock = True, m_cfgErr = False, m_supportConsensusTimeAdjust = False, effects = [],
     m_view = 0, m_toView = 0, m_leaderFailed = False, m_notifyNextLeaderSeal = False, m_backupDB = None,
     m_broadCastCache = [], m_reqCache = emptyReqCache, m_timeManager = newTimeManager, m_msgQueue = [],
     m_onViewChange = False, m_onNotifyNextLeaderReset = False, m_onTimeout = False, m_onCommitBlock = False,
     m_fastViewChange = False, maxTTL = 2, m_viewMap = [], m_sealingNumber = 0, m_threadPool = [],
     m_enableTTLOptimize = False, m_consensusSet = [], m_cachedForwardMsg = []\<rparr>"

definition solo_ready :: pbft_engine where
  "solo_ready = solo_engine\<lparr>m_maxBlockTransactions := 1000, m_sealerListUpdated := True,
     m_blockChain := (genesis_chain solo_crypto solo_genesis demo_sys)\<lparr>m_blockCache := [(1, solo_genesis)],
        m_blockCacheFIFO := [1],
        m_nodeListCache := [(''wSealer'', 0, []), (''sealer'', 0, [7]), (''observer'', 0, [9])],
        m_systemConfigRecord := [(''tx_count_limit'', ''1000'', 0, 1)]\<rparr>,
     m_consensusBlockNumber := 1, m_highestBlock := solo_header 0 0, m_nodeNum := 1,
     m_accountType := SealerAccount, m_sealerList := [7], m_startConsensusEngine := True,
     m_lastNodeList := ''[updateConsensusNodeList] Sealers:'' @ abridged 7 @ '','' @ ''Observers:'' @ abridged 9 @ '','',
     effects := [SetNodeListByGroupID [7, 9]], m_backupDB := Some [],
     m_timeManager := newTimeManager\<lparr>m_lastConsensusTime := 10, m_lastAddRawPrepareTime := 10, m_lastExecTime := 10,
        m_lastGarbageCollection := 10\<rparr>,
     m_consensusSet := [7]\<rparr>"

definition solo_world :: world where
  "solo_world = \<lparr>w_crypto = solo_crypto, w_decode = (\<lambda>_. None), w_exec = (\<lambda>h. h),
     w_good = (\<lambda>h. h = solo_header 0 0 \<or> h = solo_header 1 1)\<rparr>"

definition solo_committee :: committee where
  "solo_committee = \<lparr>sealers = [7], honest = {0}\<rparr>"

text \<open>The proposal the node makes of \<open>solo_block\<close>, the proposal it keeps after execution, and its vote.\<close>

definition solo_proposal :: prepare_req where
  "solo_proposal = mkPrepareFromBlock solo_crypto \<lparr>kp_secret = 1, kp_pub = 7\<rparr> 12 (\<lambda>_ _. []) solo_block 0 0 False"

definition solo_sealed :: prepare_req where
  "solo_sealed = mkPrepareFromSealing solo_crypto \<lparr>kp_secret = 1, kp_pub = 7\<rparr> 12 solo_proposal solo_block (Some 0)"

definition solo_vote :: pbft_msg where
  "solo_vote = mkPBFTMsg solo_crypto \<lparr>kp_secret = 1, kp_pub = 7\<rparr> 12 1 0 0 2"

definition solo_wire :: "byte \<Rightarrow> 'm pbft_msg_scheme \<Rightarrow> bytes \<Rightarrow> nat \<Rightarrow> pbft_engine \<Rightarrow> bytes" where
  "solo_wire pt m d t e =
     (let p = createPBFTMsgPacket solo_env e d pt t (if m_enableTTLOptimize e then getForwardNodes solo_env e else None)
      in packetBytes e (if isEmpty m then p\<lparr>prepareWithEmptyBlock := True\<rparr> else p))"

definition solo_seat :: "pbft_engine \<Rightarrow> bool" where
  "solo_seat e \<longleftrightarrow> m_sealerList e = [7] \<and> m_idx e = 0 \<and> m_keyPair e = \<lparr>kp_secret = 1, kp_pub = 7\<rparr> \<and>
     m_nodeNum e = 1 \<and> m_f e = 0"

definition solo_done :: "IDXTYPE \<Rightarrow> pbft_engine" where
  "solo_done = (\<lambda>_. solo_ready)(0 := engine_step solo_env (Propose solo_block) solo_ready)"

section \<open>Reading the example\<close>

lemma solo_hash:
  "header_hash solo_crypto (solo_header 0 0) = 1" "header_hash solo_crypto (solo_header 1 1) = 2"
  by (simp_all add: solo_crypto_def demo_hash short_header_def header_wf_def solo_header_def emptyHeader_def)

lemma solo_header_sel [simp]:
  "m_number (solo_header n p) = n" "m_parentHash (solo_header n p) = p" "m_timestamp (solo_header n p) = 1"
  "m_sealer (solo_header n p) = 0" "block_header.m_sealerList (solo_header n p) = [7]"
  by (simp_all add: solo_header_def)

lemma solo_block_sel [simp]:
  "blockHeader solo_genesis = solo_header 0 0" "blockHeader solo_block = solo_header 1 1"
  "transactions solo_block = [[1]]" "transactions solo_genesis = []"
  by (simp_all add: solo_genesis_def solo_block_def emptyBlock_def)

lemma solo_env_sel [simp]:
  "crypto solo_env = solo_crypto" "utcTime solo_env = 12" "encodeBlock solo_env = (\<lambda>_ _. [])"
  "sessions solo_env = []" "verifyTxs solo_env = (\<lambda>_. True)" "execute solo_env = (\<lambda>b _. Some (b, Some 0))"
  "commitEnv solo_env = demo_ce" "dbCommit solo_env = (\<lambda>_ _ t. Some t)" "utcSteadyTime solo_env = 10"
  "execTime solo_env = 11" "decodeBlock solo_env = (\<lambda>_. None)"
  by (simp_all add: solo_env_def)

lemma solo_verify [simp]: "Verify solo_crypto pub (Sign solo_crypto kp h) h' \<longleftrightarrow> kp_pub kp = pub \<and> h = h'"
  by (simp add: solo_crypto_def demo_verify)

lemma solo_ready_sel [simp]:
  "m_maxBlockTransactions solo_ready = 1000"
  "m_blockSync solo_ready = \<lparr>sync_state = Idle, knownHighestNumber = 0, m_currentSealingNumber = 0, sync_farBehind = False\<rparr>"
  "m_consensusBlockNumber solo_ready = 1" "m_highestBlock solo_ready = solo_header 0 0" "m_nodeNum solo_ready = 1"
  "m_f solo_ready = 0" "m_idx solo_ready = 0" "m_keyPair solo_ready = \<lparr>kp_secret = 1, kp_pub = 7\<rparr>"
  "m_sealerList solo_ready = [7]" "m_allowFutureBlocks solo_ready" "m_omitEmptyBlock solo_ready"
  "effects solo_ready = [SetNodeListByGroupID [7, 9]]" "m_view solo_ready = 0" "m_toView solo_ready = 0"
  "m_reqCache solo_ready = emptyReqCache" "m_viewMap solo_ready = []"
  "m_blockChain solo_ready = (genesis_chain solo_crypto solo_genesis demo_sys)\<lparr>m_blockCache := [(1, solo_genesis)],
     m_blockCacheFIFO := [1],
     m_nodeListCache := [(''wSealer'', 0, []), (''sealer'', 0, [7]), (''observer'', 0, [9])],
     m_systemConfigRecord := [(''tx_count_limit'', ''1000'', 0, 1)]\<rparr>"
  by (simp_all add: solo_ready_def solo_engine_def)

lemma solo_proposal_sel [simp]:
  "idx solo_proposal = 0" "view solo_proposal = 0" "height solo_proposal = 1" "block_hash solo_proposal = 2"
  "pBlock solo_proposal = Some solo_block" "isEmpty solo_proposal = False"
  by (simp_all add: solo_proposal_def mkPrepareFromBlock_def signMsg_def emptyPrepare_def headerHash_def solo_hash Let_def)

lemma solo_sealed_sel [simp]:
  "idx solo_sealed = 0" "view solo_sealed = 0" "height solo_sealed = 1" "block_hash solo_sealed = 2"
  "pBlock solo_sealed = Some solo_block" "p_execContext solo_sealed = Some 0"
  by (simp_all add: solo_sealed_def mkPrepareFromSealing_def signMsg_def emptyPrepare_def headerHash_def solo_hash Let_def)

lemma solo_vote_sel [simp]:
  "idx solo_vote = 0" "view solo_vote = 0" "height solo_vote = 1" "block_hash solo_vote = 2"
  "isEmpty solo_vote = False" "isFuture solo_vote = False"
  by (simp_all add: solo_vote_def mkPBFTMsg_def signMsg_def emptyMsg_def Let_def)

lemma solo_broadcast:
  "broadcastMsg solo_env pt m d filt t e =
     e\<lparr>effects := AsyncMulticast [] (solo_wire pt m d t e) 0 # effects e, m_connectedNode := 0\<rparr>"
  by (simp add: broadcastMsg_def multicast_def solo_wire_def Let_def emit_effect_def packetBytes_def
      createPBFTMsgPacket_def newPacket_def getForwardNodes_def)

lemmas chain_reads = getSystemConfigByKey_def getSystemConfigInfoByKey_def getSysteConfigByKey_def bc_sealerList_def
  workingSealerList_def pendingSealerList_def observerList_def getNodeList_def getNodeListByType_def
  getBlockByNumber_def getBlockByHash_def getBlock_number_def getBlock_def numberHash_def number_def
  blockCache_get_def blockCache_add_def NODE_TYPE_SEALER_def NODE_TYPE_OBSERVER_def NODE_TYPE_WORKING_SEALER_def

lemmas reconfigure = resetConfig_def base_resetConfig_def updateMaxBlockTransactions_def
  updateConsensusNodeList_def resetConsensusTimeout_def

section \<open>The run\<close>

lemma solo_start: "start solo_env [] solo_engine = Inr solo_ready"
  by (simp add: start_def initPBFTEnv_def base_start_def reportBlockWithoutLock_def reconfigure initBackupDB_def
      reloadMsg_def chain_reads solo_env_def solo_engine_def genesis_chain_def demo_sys_def Let_def newTimeManager_def
      initTimerManager_def delInvalidViewChange_def delCache_def emptyReqCache_def hex_bytes_def fromHex_def
      removeInvalidEntryFromCache_def removeInvalidLatestViewChangeReq_def removeInvalidFutureCache_def
      solo_hash headerHash_def emit_effect_def s64_def solo_ready_def emptyPrepare_def MAXIDX_def)

lemma solo_construct:
  "constructPrepareReq solo_env solo_block (solo_ready\<lparr>m_notifyNextLeaderSeal := False\<rparr>) =
     (solo_proposal, solo_ready\<lparr>effects := Signs PrepareReqPacket (pbft_part solo_proposal) # effects solo_ready,
        m_threadPool := [BroadcastPrepare solo_proposal]\<rparr>)"
  by (simp add: constructPrepareReq_def Let_def solo_ready_def solo_engine_def solo_proposal_def
      getTransactionSize_def emit_effect_def)

lemma solo_valid: "isValidPrepare solo_env solo_proposal (solo_ready\<lparr>effects := ef, m_threadPool := tp\<rparr>) = VALID"
  by (simp add: solo_proposal_def isValidPrepare_def isExistPrepare_def solo_ready_def solo_engine_def
      emptyReqCache_def emptyPrepare_def solo_hash headerHash_def isSyncingHigherBlock_def isSyncing_def
      hasConsensused_def isFuturePrepare_def isHashSavedAfterCommit_def mkPrepareFromBlock_def signMsg_def Let_def
      isValidLeader_def getLeader_def checkSign_def getNodeIDByIndex_def getSealerByIndex_def
      fieldsWithoutBlock_def Invalid256_def)

lemma solo_exec:
  "execBlock solo_env solo_proposal
     (solo_ready\<lparr>effects := ef, m_threadPool := tp, m_viewMap := vm, m_reqCache := rc, m_timeManager := tm\<rparr>) =
   Inr ((solo_block, Some 0), solo_ready\<lparr>m_blockSync := \<lparr>sync_state = Idle, knownHighestNumber = 0,
     m_currentSealingNumber = 1, sync_farBehind = False\<rparr>, effects := ef, m_reqCache := rc, m_timeManager := tm,
     m_viewMap := vm, m_sealingNumber := 1, m_threadPool := tp\<rparr>)"
  by (simp add: execBlock_def Let_def getTransactionSize_def solo_ready_def solo_engine_def
      checkBlockValid_def base_checkBlockValid_def checkSealerList_def execChecked_def executeBlock_def
      noteSealingBlockNumber_def chain_reads genesis_chain_def demo_sys_def headerHash_def solo_hash)

lemma solo_commitBlock:
  "fst (commitBlock solo_crypto demo_ce (\<lambda>_ t. Some t) (solo_block\<lparr>sigList := s\<rparr>) (m_blockChain solo_ready)) = COMMIT_OK"
  by (simp add: commitBlock_def isBlockShouldCommit_def number_def numberHash_def genesis_chain_def headerHash_def
      solo_hash Let_def)

lemma solo_save:
  assumes "solo_seat e" "m_view e = 0" "m_highestBlock e = solo_header 0 0" "m_blockChain e = m_blockChain solo_ready"
    and "m_prepareCache (m_reqCache e) = solo_sealed"
    and "m_signCache (m_reqCache e) = [(2, [(toHex (sig solo_vote), solo_vote)])]"
    and "m_commitCache (m_reqCache e) = [(2, [(toHex (sig solo_vote), solo_vote)])]"
  shows "solo_seat (checkAndSave solo_env e)"
    and "\<exists>s. DropBlockTrans (solo_block\<lparr>sigList := s\<rparr>) \<in> set (effects (checkAndSave solo_env e))"
  using assms by (simp_all add: solo_seat_def checkAndSave_def getSigCacheSize_def minValidNodes_def getSizeFromCache_def
      checkAndRemoveInvalidFutureReq_def getCommitCacheSize_def Let_def commit_prepared_def generateAndSetSigList_def
      setSigList_def emit_effect_def solo_commitBlock case_prod_beta del: solo_ready_sel) blast

lemma solo_checkAndCommit:
  assumes "solo_seat e" "m_view e = 0" "m_highestBlock e = solo_header 0 0" "m_blockChain e = m_blockChain solo_ready"
    and "m_prepareCache (m_reqCache e) = solo_sealed"
    and "m_signCache (m_reqCache e) = [(2, [(toHex (sig solo_vote), solo_vote)])]" "m_commitCache (m_reqCache e) = []"
  shows "solo_seat (checkAndCommit solo_env e)"
    and "\<exists>s. DropBlockTrans (solo_block\<lparr>sigList := s\<rparr>) \<in> set (effects (checkAndCommit solo_env e))"
proof -
  obtain e' where "checkAndCommit solo_env e = checkAndSave solo_env e'" "solo_seat e'" "m_view e' = 0"
    "m_highestBlock e' = solo_header 0 0" "m_blockChain e' = m_blockChain solo_ready"
    "m_prepareCache (m_reqCache e') = solo_sealed"
    "m_signCache (m_reqCache e') = [(2, [(toHex (sig solo_vote), solo_vote)])]"
    "m_commitCache (m_reqCache e') = [(2, [(toHex (sig solo_vote), solo_vote)])]"
    using assms by (simp add: solo_seat_def checkAndCommit_def getSigCacheSize_def minValidNodes_def getSizeFromCache_def
        checkAndRemoveInvalidFutureReq_def updateCommittedPrepare_def broadcastCommitReq_def addCommitReq_def
        mkCommitReq_def Let_def solo_broadcast addReq_def emit_effect_def cacheExists_def
        del: solo_ready_sel flip: solo_vote_def)
  then show "solo_seat (checkAndCommit solo_env e)"
    "\<exists>s. DropBlockTrans (solo_block\<lparr>sigList := s\<rparr>) \<in> set (effects (checkAndCommit solo_env e))"
    using solo_save [of e'] by auto
qed

lemma solo_propose:
  "solo_seat (generatePrepare solo_env solo_block solo_ready)"
  "\<exists>s. DropBlockTrans (solo_block\<lparr>sigList := s\<rparr>) \<in> set (effects (generatePrepare solo_env solo_block solo_ready))"
proof -
  obtain e where "generatePrepare solo_env solo_block solo_ready = checkAndCommit solo_env e" "solo_seat e" "m_view e = 0"
    "m_highestBlock e = solo_header 0 0" "m_blockChain e = m_blockChain solo_ready"
    "m_prepareCache (m_reqCache e) = solo_sealed"
    "m_signCache (m_reqCache e) = [(2, [(toHex (sig solo_vote), solo_vote)])]" "m_commitCache (m_reqCache e) = []"
    by (simp add: generatePrepare_def solo_construct getTransactionSize_def handlePrepareMsg_def solo_valid
        execPrepareAndGenerateSignMsg_def solo_exec updateViewMap_def needOmit_def Let_def share_block_def
        addPrepareReq_def removeInvalidCommitCache_def removeInvalidSignCache_def addRawPrepare_def emptyReqCache_def
        broadcastSignReq_def addSignReq_def addReq_def cacheExists_def solo_broadcast share_def headerHash_def solo_hash
        mkSignReq_def removeInvalidViewOf_def emit_effect_def solo_seat_def flip: solo_sealed_def solo_vote_def)
  then show "solo_seat (generatePrepare solo_env solo_block solo_ready)"
    "\<exists>s. DropBlockTrans (solo_block\<lparr>sigList := s\<rparr>) \<in> set (effects (generatePrepare solo_env solo_block solo_ready))"
    using solo_checkAndCommit [of e] by auto
qed

section \<open>The run meets the hypotheses\<close>

lemma solo_world_ok: "world_ok solo_world"
  by (auto simp: world_ok_def solo_world_def solo_hash)

lemma solo_env_ok: "env_ok solo_world solo_env"
  by (auto simp: env_ok_def solo_world_def)

lemma solo_start_ok: "start_ok solo_world solo_env [] solo_engine"
  by (auto simp: start_ok_def solo_env_ok stored_ok_def votes_def solo_engine_def tip_def chain_reads genesis_chain_def
      Let_def headerHash_def solo_hash)

lemma solo_step_ok: "step_ok solo_world solo_env (Propose solo_block) solo_ready"
  using solo_env_ok by (simp add: step_ok_def MAXVIEW_def) (simp add: solo_world_def)

lemma solo_committee_sel [simp]:
  "sealers solo_committee = [7]" "honest solo_committee = {0}" "members solo_committee = {0}"
  by (auto simp: solo_committee_def members_def unsigned_eq_0_iff)

lemma solo_crypto_ok: "crypto_ok solo_world [7]"
  by (auto simp: crypto_ok_def unique_signatures_def solo_world_def solo_crypto_def demo_crypto_def)

lemma solo_committee_ok: "committee_ok solo_world solo_committee"
  by (simp add: committee_ok_def solo_world_ok solo_crypto_ok faults_def)

lemma solo_seated: "solo_seat e \<Longrightarrow> seated solo_world solo_committee 0 e"
  by (simp add: seated_def seat_def solo_seat_def solo_committee_def minValidNodes_def quorum_size_def faults_def)

lemma solo_boot: "net_reach solo_world solo_committee (\<lambda>_. solo_ready)"
proof (rule net_reach.boot [where env = "\<lambda>_. solo_env" and stored = "\<lambda>_. []" and ?e0.0 = "\<lambda>_. solo_engine"])
  show "committee_ok solo_world solo_committee" by (rule solo_committee_ok)
  have "drops solo_engine = {}" "solo_seat solo_ready" by (simp_all add: solo_seat_def) (simp add: drops_def solo_engine_def)
  then show "start_ok solo_world solo_env [] solo_engine \<and> drops solo_engine = {} \<and>
      start solo_env [] solo_engine = Inr solo_ready \<and> seated solo_world solo_committee i solo_ready"
    if "i \<in> honest solo_committee" for i
    using that by (simp add: solo_start_ok solo_start solo_seated)
qed

lemma solo_net: "net_reach solo_world solo_committee solo_done"
  unfolding solo_done_def
  by (rule net_reach.move [OF solo_boot, where i = 0, simplified])
    (simp_all add: solo_step_ok, simp add: solo_seated solo_propose)

lemma solo_committed: "\<exists>b \<in> drops (solo_done 0). blockHeader b = solo_header 1 1"
  using solo_propose(2) by (auto simp: solo_done_def drops_def intro!: bexI)

end
