(* ===== verification/EngineProps.thy ===== *)
theory EngineProps
  imports Example
begin

text \<open>
  Properties of the operations of the engine, one by one: configuration and leaders, blocks that the
  sync module has downloaded, view changes and timeouts, the checks on requests, sending and
  forwarding, what is signed, proposing again, committing, and restart.  The witnesses use the run of
  the committee of one and \<open>quad\<close>, a node in a committee of four.
\<close>

section \<open>Configuration\<close>

lemma resetConsensusTimeout_Inr:
  assumes "resetConsensusTimeout env e = Inr e'"
  obtains c tm where "e' = e\<lparr>m_blockChain := c, m_timeManager := tm\<rparr>"
proof (cases "m_supportConsensusTimeAdjust e")
  case False
  then show ?thesis using assms that [where c = "m_blockChain e" and tm = "m_timeManager e"] by (simp add: resetConsensusTimeout_def)
next
  case True
  obtain ret c where c: "getSystemConfigByKey SYSTEM_KEY_CONSENSUS_TIMEOUT (m_blockChain e) = (ret, c)" by fastforce
  then obtain n where n: "lexical_cast env ret = Some n"
    using assms True by (cases "lexical_cast env ret") (simp_all add: resetConsensusTimeout_def)
  define t where "t = n * 1000 mod 2 ^ 64"
  define e2 where "e2 = (if m_emptyBlockGenTime (m_timeManager (e\<lparr>m_blockChain := c\<rparr>)) > t
     then on_timer (\<lambda>tm. tm\<lparr>m_emptyBlockGenTime := t div 3 mod 2 ^ 32\<rparr>) (e\<lparr>m_blockChain := c\<rparr>) else e\<lparr>m_blockChain := c\<rparr>)"
  have e2: "e2 = e\<lparr>m_blockChain := c, m_timeManager := m_timeManager e2\<rparr>" by (simp add: e2_def)
  have "resetConsensusTimeout env e =
      Inr (if m_viewTimeout (m_timeManager e2) \<noteq> t then on_timer (tm_resetConsensusTimeout (t mod 2 ^ 32)) e2 else e2)"
    using True unfolding resetConsensusTimeout_def e2_def t_def Let_def c prod.case
    by (simp only: n option.case not_True_eq_False if_False)
  then have "e' = (if m_viewTimeout (m_timeManager e2) \<noteq> t then on_timer (tm_resetConsensusTimeout (t mod 2 ^ 32)) e2 else e2)"
    using assms by simp
  then have "e' = e\<lparr>m_blockChain := c, m_timeManager := m_timeManager e'\<rparr>" by (subst (asm) (2 3) e2) simp
  then show ?thesis by (rule that)
qed

lemma resetConfig_Inr:
  assumes "resetConfig env e = Inr e'"
  obtains e1 c tm s where "base_resetConfig env e = Inr e1" "e' = e1\<lparr>m_blockChain := c, m_timeManager := tm, m_consensusSet := s\<rparr>"
proof -
  obtain e1 e2 where e: "base_resetConfig env e = Inr e1" "resetConsensusTimeout env e1 = Inr e2"
    "e' = (if \<not> m_sealerListUpdated e2 then e2 else e2\<lparr>m_consensusSet := remdups (sort (m_sealerList e2))\<rparr>)"
    using assms by (auto simp: resetConfig_def ebind_def split: sum.splits)
  obtain c tm where c: "e2 = e1\<lparr>m_blockChain := c, m_timeManager := tm\<rparr>" using resetConsensusTimeout_Inr [OF e(2)] .
  show ?thesis
    using that [OF e(1), where c = c and tm = tm and s = "if m_sealerListUpdated e2 then remdups (sort (m_sealerList e2)) else m_consensusSet e1"] e(3) c
    by (cases "m_sealerListUpdated e2") simp_all
qed

lemma updateConsensusNodeList_account [simp]: "m_accountType (updateConsensusNodeList e) = m_accountType e"
  by (simp add: updateConsensusNodeList_def Let_def case_prod_beta emit_effect_def)

lemma base_resetConfig_Inr:
  assumes "base_resetConfig env e = Inr e'"
  shows "m_nodeNum e' = of_nat (length (m_sealerList e'))" "0 < length (m_sealerList e')"
    "m_f e' = of_nat ((unat (m_nodeNum e') - 1) div 3)"
    "m_idx e' = (case find_index (kp_pub (m_keyPair e')) (m_sealerList e') of None \<Rightarrow> MAXIDX | Some i \<Rightarrow> of_nat i)"
    "m_cfgErr e' = (m_idx e' = MAXIDX)"
    "m_accountType e' = (if kp_pub (m_keyPair e') \<in> set (m_sealerList e') then SealerAccount else ObserverAccount)"
  using assms
  by (auto simp: base_resetConfig_def ebind_def Let_def find_index_None simp del: of_nat_eq_0_iff split: sum.splits if_splits)

text \<open>
  C12: Reconfiguration fixes a quorum that tolerates the faults it assumes.  With \<open>n\<close> sealers on the chain
  (fewer than the index type can hold), \<^verbatim>\<open>m_f\<close> is \<open>(n - 1) div 3\<close>, a quorum has
  \<open>n - m_f\<close> members, two quorums share more than \<^verbatim>\<open>m_f\<close> members, and the node is configured as a sealer,
  with the position of its own key as its index, exactly when its key is among the sealers; otherwise
  \<^verbatim>\<open>m_cfgErr\<close> is set.
\<close>

theorem reconfigured_quorum:
  assumes "resetConfig env e = Inr e'" "length (m_sealerList e') < 65535"
  shows "(unat (m_f e') = (length (m_sealerList e') - 1) div 3) \<and>
    (unat (minValidNodes e') = length (m_sealerList e') - unat (m_f e')) \<and>
    (length (m_sealerList e') + unat (m_f e') < 2 * unat (minValidNodes e')) \<and>
    (m_cfgErr e' \<longleftrightarrow> kp_pub (m_keyPair e') \<notin> set (m_sealerList e')) \<and>
    (m_cfgErr e' \<longleftrightarrow> m_accountType e' = ObserverAccount) \<and>
    (m_cfgErr e' \<or> getSealerByIndex (unat (m_idx e')) e' = kp_pub (m_keyPair e'))"
proof (intro conjI)
  let ?n = "length (m_sealerList e')" and ?key = "kp_pub (m_keyPair e')"
  obtain e1 c tm s where e1: "base_resetConfig env e = Inr e1" "e' = e1\<lparr>m_blockChain := c, m_timeManager := tm, m_consensusSet := s\<rparr>"
    using resetConfig_Inr [OF assms(1)] .
  then have sel: "m_sealerList e' = m_sealerList e1" "m_nodeNum e' = m_nodeNum e1" "m_f e' = m_f e1" "m_cfgErr e' = m_cfgErr e1"
    "m_idx e' = m_idx e1" "m_accountType e' = m_accountType e1" "m_keyPair e' = m_keyPair e1" by simp_all
  note r = base_resetConfig_Inr [OF e1(1), folded sel]
  have n: "0 < ?n" "?n < 65536" using r(2) assms(2) by simp_all
  note q = quorum_word [OF n r(1,3)]
  show f: "unat (m_f e') = (?n - 1) div 3" by (rule q(2))
  show m: "unat (minValidNodes e') = ?n - unat (m_f e')" unfolding minValidNodes_def f by (rule q(3))
  show "?n + unat (m_f e') < 2 * unat (minValidNodes e')" unfolding m f using n(1) by presburger
  have i: "i < ?n \<and> m_sealerList e' ! i = ?key \<and> unat (of_nat i :: IDXTYPE) = i \<and> of_nat i \<noteq> MAXIDX"
    if "find_index ?key (m_sealerList e') = Some i" for i
  proof -
    have "i < 65535" "i < ?n" "m_sealerList e' ! i = ?key" using find_index_Some [OF that] assms(2) by simp_all
    moreover from this have "unat (of_nat i :: IDXTYPE) = i" by (simp add: unat_of_nat)
    moreover from this \<open>i < 65535\<close> have "(of_nat i :: IDXTYPE) \<noteq> MAXIDX" by (auto simp: MAXIDX_def)
    ultimately show ?thesis by simp
  qed
  show c: "m_cfgErr e' \<longleftrightarrow> ?key \<notin> set (m_sealerList e')"
    using i unfolding r(5) r(4) by (auto simp: find_index_None [symmetric] split: option.split)
  show "m_cfgErr e' \<longleftrightarrow> m_accountType e' = ObserverAccount" unfolding c r(6) by simp
  show "m_cfgErr e' \<or> getSealerByIndex (unat (m_idx e')) e' = ?key"
    using i unfolding c r(4) by (auto simp: find_index_None [symmetric] getSealerByIndex_def split: option.split)
qed

lemma solo_reconfigured: "resetConfig solo_env solo_ready = Inr (solo_ready\<lparr>m_sealerListUpdated := True\<rparr>)"
  by (simp add: reconfigure solo_ready_def solo_engine_def chain_reads genesis_chain_def demo_sys_def solo_env_def MAXIDX_def Let_def ebind_def)

theorem reconfigured_quorum_witness:
  "unat (minValidNodes solo_ready) = 1 \<and> \<not> m_cfgErr solo_ready"
proof -
  have "resetConfig solo_env solo_ready = Inr solo_ready"  "length (m_sealerList solo_ready) < 65535"
    using solo_reconfigured by (simp_all add: solo_ready_def)
  from reconfigured_quorum [OF this] show ?thesis by simp
qed

lemma shift_mod_bij:
  assumes "0 < (n :: nat)"
  shows "bij_betw (\<lambda>k. (b + k) mod n) {..<n} {..<n}"
proof -
  have "inj_on (\<lambda>k. (b + k) mod n) {..<n}"
  proof (rule inj_onI)
    fix x y assume xy: "x \<in> {..<n}" "y \<in> {..<n}" "(b + x) mod n = (b + y) mod n"
    then have "int (b + x) mod int n = int (b + y) mod int n" by (metis zmod_int)
    then have "int n dvd int x - int y" by (simp add: mod_eq_dvd_iff)
    then have "int n \<le> \<bar>int x - int y\<bar>" if "x \<noteq> y" using dvd_imp_le_int [of "int x - int y" "int n"] that by simp
    then show "x = y" using xy(1,2) by fastforce
  qed
  then show ?thesis using assms by (intro bij_betw_imageI endo_inj_surj) auto
qed

text \<open>
  The leader rotates.  In a state in which the node sees a leader, the leader's index is below the
  number of sealers, and the leaders of the next \<open>n\<close> views, for \<open>n\<close> sealers, are all \<open>n\<close> sealers, each exactly
  once: every sealer gets its turn, and no view has two leaders.
\<close>

theorem leader_rotation:
  assumes "fst (getLeader e)" "0 \<le> m_view e" "0 \<le> m_number (m_highestBlock e)"
    and "m_view e + m_number (m_highestBlock e) + int (unat (m_nodeNum e)) < 2 ^ 63"
  shows "bij_betw (\<lambda>k. unat (snd (getLeader (e\<lparr>m_view := m_view e + int k\<rparr>)))) {..<unat (m_nodeNum e)} {..<unat (m_nodeNum e)}"
proof -
  let ?n = "unat (m_nodeNum e)" and ?b = "nat (m_view e + m_number (m_highestBlock e))"
  have c: "\<not> (m_cfgErr e \<or> m_leaderFailed e \<or> m_sealer (m_highestBlock e) = Invalid256 \<or> m_nodeNum e = 0)"
    using assms(1) by (auto simp: getLeader_def split: if_splits)
  then have n: "0 < ?n" by (simp add: unat_gt_0)
  have leader: "unat (snd (getLeader (e\<lparr>m_view := m_view e + int k\<rparr>))) = (?b + k) mod ?n" if "k < ?n" for k
  proof -
    have k: "int k < int ?n" using that by (simp only: of_nat_less_iff)
    have s: "s64 (m_view e + int k + m_number (m_highestBlock e)) = int (?b + k)"
      using assms k by (subst s64_id) (simp_all add: is_s64_def del: uint_nat)
    have "(?b + k) mod ?n < 65536" using mod_less_divisor [OF n, of "?b + k"] unsigned_less [of "m_nodeNum e", where 'a = nat] by simp
    moreover have "(of_int (int (?b + k) mod int ?n) :: IDXTYPE) = of_nat ((?b + k) mod ?n)"
      by (metis of_int_of_nat_eq zmod_int)
    ultimately have "unat (of_int (int (?b + k) mod int ?n) :: IDXTYPE) = (?b + k) mod ?n" by (simp only: unat_of_nat) simp
    then show ?thesis using c s by (simp add: getLeader_def)
  qed
  have "bij_betw (\<lambda>k. (?b + k) mod ?n) {..<?n} {..<?n}" by (rule shift_mod_bij [OF n])
  then show ?thesis by (rule bij_betw_cong [THEN iffD1, rotated]) (simp add: leader)
qed

theorem leader_rotation_witness: "unat (snd (getLeader (solo_ready\<lparr>m_nodeNum := 4, m_view := 3\<rparr>))) < 4"
proof -
  let ?e = "solo_ready\<lparr>m_nodeNum := 4\<rparr>"
  have "m_sealer (m_highestBlock ?e) \<noteq> Invalid256" "\<not> m_cfgErr ?e" "\<not> m_leaderFailed ?e" "m_nodeNum ?e \<noteq> 0"
    by (simp_all add: Invalid256_def) (simp_all add: solo_ready_def solo_engine_def)
  then have "fst (getLeader ?e)" by (simp only: getLeader_def) simp
  from leader_rotation [OF this] have img: "(\<lambda>k. unat (snd (getLeader (?e\<lparr>m_view := int k\<rparr>)))) ` {..<4} = {..<4}"
    by (simp add: bij_betw_def)
  have "unat (snd (getLeader (?e\<lparr>m_view := int 3\<rparr>))) \<in> (\<lambda>k. unat (snd (getLeader (?e\<lparr>m_view := int k\<rparr>)))) ` {..<4}"
    by (rule imageI) simp
  then show ?thesis unfolding img by simp
qed

section \<open>Downloaded blocks\<close>

lemma checkSign_idx_Verify:
  "checkSign_idx cr e i h s \<Longrightarrow> unat i < length (m_sealerList e) \<and> Verify cr (m_sealerList e ! unat i) s h"
  by (auto simp: checkSign_idx_def getNodeIDByIndex_def getSealerByIndex_def Let_def split: if_splits option.splits)

lemma checkBlock_True:
  assumes "checkBlock env b e = Inr (True, e')" "m_number (blockHeader b) \<noteq> 0"
  shows "number (m_blockChain e) < m_number (blockHeader b)" "resetConfig env e = Inr e'"
    and "block_header.m_sealerList (blockHeader b) = m_sealerList e'"
    and "getSealerByIndex (unat (m_sealer (blockHeader b)) mod 2 ^ 64) e' \<noteq> 0"
    and "unat (minValidNodes e') \<le> length (sigList b)"
    and "list_all (\<lambda>(i, s). checkSign_idx (crypto env) e' (ucast i) (headerHash (crypto env) b) s) (sigList b)"
    and "getTransactionSize b \<le> m_maxBlockTransactions e'"
proof -
  have n: "\<not> m_number (blockHeader b) \<le> number (m_blockChain e)"
    using assms(1) by (auto simp: checkBlock_def Let_def split: if_splits)
  then show "number (m_blockChain e) < m_number (blockHeader b)" by simp
  show r: "resetConfig env e = Inr e'"
    using assms(1) n by (cases "resetConfig env e") (auto simp: checkBlock_def Let_def)
  show "block_header.m_sealerList (blockHeader b) = m_sealerList e'"
    "getSealerByIndex (unat (m_sealer (blockHeader b)) mod 2 ^ 64) e' \<noteq> 0"
    "unat (minValidNodes e') \<le> length (sigList b)"
    "list_all (\<lambda>(i, s). checkSign_idx (crypto env) e' (ucast i) (headerHash (crypto env) b) s) (sigList b)"
    "getTransactionSize b \<le> m_maxBlockTransactions e'"
    using assms n r by (simp_all add: checkBlock_def Let_def split: if_splits)
qed

lemma checkBlock_TrueI:
  assumes "number (m_blockChain e) < m_number (blockHeader b)" "resetConfig env e = Inr e'"
    and "block_header.m_sealerList (blockHeader b) = m_sealerList e'"
    and "getSealerByIndex (unat (m_sealer (blockHeader b)) mod 2 ^ 64) e' \<noteq> 0"
    and "unat (minValidNodes e') \<le> length (sigList b)"
    and "list_all (\<lambda>(i, s). checkSign_idx (crypto env) e' (ucast i) (headerHash (crypto env) b) s) (sigList b)"
    and "getTransactionSize b \<le> m_maxBlockTransactions e'"
  shows "checkBlock env b e = Inr (True, e')"
  using assms by (simp add: checkBlock_def Let_def)

text \<open>
  C8: A block that \<^verbatim>\<open>checkBlock\<close> accepts for the sync module is above the local chain, names the sealers
  the chain knows, carries at least a quorum of signatures, each of them a valid signature of the block
  hash under the key of the sealer at its index, and has no more transactions than the limit.
\<close>

theorem downloaded_block_signed:
  assumes "checkBlock env b e = Inr (True, e')" "m_number (blockHeader b) \<noteq> 0"
  shows "(number (m_blockChain e) < m_number (blockHeader b)) \<and>
    (block_header.m_sealerList (blockHeader b) = m_sealerList e') \<and>
    (unat (minValidNodes e') \<le> length (sigList b)) \<and>
    (\<forall>(i, s) \<in> set (sigList b). unat (ucast i :: IDXTYPE) < length (m_sealerList e') \<and>
      Verify (crypto env) (m_sealerList e' ! unat (ucast i :: IDXTYPE)) s (headerHash (crypto env) b)) \<and>
    (getTransactionSize b \<le> m_maxBlockTransactions e')"
  using checkBlock_True [OF assms] checkSign_idx_Verify by (auto simp: list_all_iff split: prod.splits) blast+

definition solo_signed :: block where
  "solo_signed = solo_block\<lparr>sigList := [(0, Sign solo_crypto \<lparr>kp_secret = 1, kp_pub = 7\<rparr> 2)]\<rparr>"

lemma solo_signed_sel [simp]:
  "blockHeader solo_signed = solo_header 1 1" "sigList solo_signed = [(0, Sign solo_crypto \<lparr>kp_secret = 1, kp_pub = 7\<rparr> 2)]"
  "transactions solo_signed = [[1]]"
  by (simp_all add: solo_signed_def)

lemma solo_downloaded: "checkBlock solo_env solo_signed solo_ready = Inr (True, solo_ready)"
proof (rule checkBlock_TrueI)
  show "resetConfig solo_env solo_ready = Inr solo_ready" using solo_reconfigured by (simp add: solo_ready_def)
qed (simp_all add: number_def genesis_chain_def getSealerByIndex_def minValidNodes_def getTransactionSize_def
    checkSign_idx_def getNodeIDByIndex_def headerHash_def solo_hash)

theorem downloaded_block_signed_witness:
  "Verify solo_crypto 7 (snd (hd (sigList solo_signed))) (headerHash solo_crypto solo_signed)"
  using downloaded_block_signed [OF solo_downloaded] by simp

text \<open>
  C28: \<^verbatim>\<open>checkBlock\<close> counts signatures, not signers.  If it accepts a block, it accepts, from the same state,
  the block whose signature list repeats any one of the signatures as often as needed: one sealer's
  signature, repeated, passes as a quorum.
\<close>

theorem repeated_signature_is_quorum:
  assumes "checkBlock env b e = Inr (True, e')" "m_number (blockHeader b) \<noteq> 0"
    and "x \<in> set (sigList b)" "length (sigList b) \<le> n"
  shows "checkBlock env (b\<lparr>sigList := replicate n x\<rparr>) e = Inr (True, e')"
proof -
  note c = checkBlock_True [OF assms(1,2)]
  show ?thesis by (rule checkBlock_TrueI) (use c assms(3,4) in \<open>auto simp: list_all_iff headerHash_def getTransactionSize_def\<close>)
qed

theorem repeated_signature_is_quorum_witness:
  "checkBlock solo_env (solo_signed\<lparr>sigList := replicate 3 (hd (sigList solo_signed))\<rparr>) solo_ready = Inr (True, solo_ready)"
  by (rule repeated_signature_is_quorum [OF solo_downloaded]) simp_all

section \<open>View change\<close>

lemma addViewChangeReq_recv:
  assumes "cache_inv c" "lookup2 (m_recvViewChangeReq (addViewChangeReq req n c)) v i \<noteq> None"
  shows "i = idx req \<or> lookup2 (m_recvViewChangeReq c) v i \<noteq> None"
proof -
  let ?c1 = "fst (checkViewChangeReq req n c)"
  have c1: "cache_inv ?c1" using assms(1) by (rule inv_checkViewChangeReq)
  have "lookup2 (m_recvViewChangeReq ?c1) v i \<noteq> None \<Longrightarrow> lookup2 (m_recvViewChangeReq c) v i \<noteq> None"
    using eraseExpired_recv [OF assms(1), of _ v i]
    by (auto simp: checkViewChangeReq_def split: if_splits option.splits)
  moreover have "i = idx req \<or> lookup2 (m_recvViewChangeReq ?c1) v i \<noteq> None"
    using assms(2) inv_insert_viewchange(2) [OF inv_eraseExpired [OF c1], where req = req and v = v and i = i] eraseExpired_recv [OF c1, of "idx req" v i]
    by (auto simp: addViewChangeReq_def Let_def case_prod_beta split: if_splits)
  ultimately show ?thesis by blast
qed

lemma sendViewChangeMsg_sel [simp]:
  "m_toView (sendViewChangeMsg env n e) = m_toView e" "m_view (sendViewChangeMsg env n e) = m_view e"
  "m_reqCache (sendViewChangeMsg env n e) = m_reqCache e" "m_nodeNum (sendViewChangeMsg env n e) = m_nodeNum e"
  "m_f (sendViewChangeMsg env n e) = m_f e"
  by (simp_all add: sendViewChangeMsg_def sendMsg_def Let_def emit_effect_def)

lemma catchupView_sel [simp]:
  "m_toView (catchupView env req e) = m_toView e" "m_view (catchupView env req e) = m_view e"
  "m_recvViewChangeReq (m_reqCache (catchupView env req e)) = m_recvViewChangeReq (m_reqCache e)"
  "m_nodeNum (catchupView env req e) = m_nodeNum e" "m_f (catchupView env req e) = m_f e"
  "cache_inv (m_reqCache e) \<Longrightarrow> cache_inv (m_reqCache (catchupView env req e))"
  by (simp_all add: catchupView_def eraseLatestViewChangeCacheForNodeUpdated_def inv_eraseLatest [unfolded eraseLatestViewChangeCacheForNodeUpdated_def] split: option.split)

lemma isValidViewChangeReq_sel:
  assumes "e' = snd (isValidViewChangeReq env req source e)"
  shows "m_toView e' = m_toView e" "m_view e' = m_view e" "minValidNodes e' = minValidNodes e"
    "m_recvViewChangeReq (m_reqCache e') = m_recvViewChangeReq (m_reqCache e)"
    "cache_inv (m_reqCache e) \<Longrightarrow> cache_inv (m_reqCache e')"
proof -
  define e1 where "e1 = (if s64 (view req + 1) < m_toView e \<and> idx req = source then catchupView env req e else e)"
  have "e' = e \<or> e' = e1 \<or> (\<exists>c. e' = e1\<lparr>m_blockChain := c\<rparr>)"
    unfolding assms isValidViewChangeReq_def e1_def [symmetric] Let_def case_prod_beta by auto
  then show "m_toView e' = m_toView e" "m_view e' = m_view e" "minValidNodes e' = minValidNodes e"
    "m_recvViewChangeReq (m_reqCache e') = m_recvViewChangeReq (m_reqCache e)"
    "cache_inv (m_reqCache e) \<Longrightarrow> cache_inv (m_reqCache e')"
    by (auto simp: e1_def minValidNodes_def)
qed

lemma checkAndChangeView_view:
  assumes "m_view (checkAndChangeView env e) \<noteq> m_view e"
  shows "m_view (checkAndChangeView env e) = m_toView e"
    and "unat (minValidNodes e) \<le> getViewChangeSize (m_toView e) (m_reqCache e) + 1"
proof -
  let ?size = "getViewChangeSize (m_toView e) (m_reqCache e)"
  have q: "int (unat (of_nat ?size :: IDXTYPE)) \<ge> int (unat (minValidNodes e)) - 1"
    using assms by (auto simp: checkAndChangeView_def Let_def split: if_splits)
  then show "m_view (checkAndChangeView env e) = m_toView e" by (simp add: checkAndChangeView_def Let_def)
  have "unat (of_nat ?size :: IDXTYPE) \<le> ?size" by (simp add: unat_of_nat)
  then show "unat (minValidNodes e) \<le> ?size + 1" using q by linarith
qed

lemma handleViewChangeReq_view:
  assumes "m_view (fst (handleViewChangeReq env req source e)) \<noteq> m_view e" "cache_inv (m_reqCache e)"
  obtains e2 where "fst (handleViewChangeReq env req source e) = checkAndChangeView env e2" "m_toView e2 = m_toView e"
    "m_view e2 = m_view e" "minValidNodes e2 = minValidNodes e" "view req = m_toView e" "cache_inv (m_reqCache e2)"
    "\<forall>v i. lookup2 (m_recvViewChangeReq (m_reqCache e2)) v i \<noteq> None \<longrightarrow>
      i = idx req \<or> lookup2 (m_recvViewChangeReq (m_reqCache e)) v i \<noteq> None"
proof -
  define e1 where "e1 = snd (isValidViewChangeReq env req source e)"
  define e2 where "e2 = on_cache (addViewChangeReq req (number (m_blockChain e1))) e1"
  note v = isValidViewChangeReq_sel [OF e1_def]
  have c: "cache_inv (m_reqCache e1)" using v(5) assms(2) .
  have s: "m_toView e2 = m_toView e" "m_view e2 = m_view e" "minValidNodes e2 = minValidNodes e" "cache_inv (m_reqCache e2)"
    using v(1-3) inv_addViewChangeReq [OF c] by (simp_all add: e2_def minValidNodes_def)
  have "fst (isValidViewChangeReq env req source e) \<and> view req = m_toView e2"
  proof (rule ccontr)
    assume "\<not> ?thesis"
    then have "m_view (fst (handleViewChangeReq env req source e)) = m_view e"
      using v(2) by (auto simp: handleViewChangeReq_def case_prod_beta Let_def e1_def [symmetric] e2_def changeViewForFastViewChange_def)
    then show False using assms(1) by simp
  qed
  then have h: "fst (handleViewChangeReq env req source e) = checkAndChangeView env e2" "view req = m_toView e"
    using s(1) by (simp_all add: handleViewChangeReq_def case_prod_beta Let_def e1_def e2_def)
  show ?thesis
    using that [OF h(1) s(1-3) h(2) s(4)] addViewChangeReq_recv [OF c] v(4) by (simp add: e2_def)
qed


definition quad_ask :: "h512 \<Rightarrow> IDXTYPE \<Rightarrow> viewchange_req" where
  "quad_ask key i = mkViewChangeReq solo_crypto \<lparr>kp_secret = 1, kp_pub = key\<rparr> 12 0 1 i 1"

definition quad :: pbft_engine where
  "quad = solo_ready\<lparr>m_sealerList := [7, 8, 9, 10], m_nodeNum := 4, m_f := 1, m_toView := 1,
     m_reqCache := addViewChangeReq (quad_ask 8 1) 0 emptyReqCache\<rparr>"

lemma quad_ask_sel [simp]:
  "view (quad_ask k i) = 1" "height (quad_ask k i) = 0" "idx (quad_ask k i) = i" "block_hash (quad_ask k i) = 1"
  by (simp_all add: quad_ask_def mkViewChangeReq_def mkPBFTMsg_def signMsg_def emptyMsg_def Let_def)

lemma quad_cache: "m_recvViewChangeReq (m_reqCache quad) = [(1, [(1, quad_ask 8 1)])]"
  "m_latestViewChangeReqCache (m_reqCache quad) = [(1, quad_ask 8 1)]"
  by (simp_all add: quad_def addViewChangeReq_def checkViewChangeReq_def eraseExpiredViewChange_def emptyReqCache_def Let_def)

lemma quad_signed: "checkSign solo_crypto (quad\<lparr>m_blockChain := c\<rparr>) (quad_ask 9 2)"
  by (simp add: checkSign_def getNodeIDByIndex_def getSealerByIndex_def quad_def)
   (simp add: quad_ask_def mkViewChangeReq_def mkPBFTMsg_def signMsg_def emptyMsg_def fieldsWithoutBlock_def Let_def)

lemma quad_valid: "fst (isValidViewChangeReq solo_env (quad_ask 9 2) 2 quad)"
    "snd (isValidViewChangeReq solo_env (quad_ask 9 2) 2 quad) = quad"
proof -
  have "m_toView quad = 1" "m_view quad = 0" "m_idx quad = 0" "m_highestBlock quad = solo_header 0 0" "m_blockChain quad = m_blockChain solo_ready"
    by (simp_all add: quad_def)
  moreover have "getBlockByNumber solo_crypto 0 (m_blockChain solo_ready) = (Some solo_genesis, m_blockChain solo_ready)"
    by (simp add: chain_reads genesis_chain_def headerHash_def solo_hash)
  ultimately show "fst (isValidViewChangeReq solo_env (quad_ask 9 2) 2 quad)"
    "snd (isValidViewChangeReq solo_env (quad_ask 9 2) 2 quad) = quad"
   by (simp_all add: isValidViewChangeReq_def isExistViewChange_def cacheExists_def quad_cache s64_def solo_hash quad_signed del: solo_ready_sel)
qed


section \<open>Timeouts\<close>

lemma broadcastViewChangeReq_sel [simp]:
  "m_toView (broadcastViewChangeReq env e) = m_toView e" "m_view (broadcastViewChangeReq env e) = m_view e"
  "m_leaderFailed (broadcastViewChangeReq env e) = m_leaderFailed e"
  by (simp_all add: broadcastViewChangeReq_def broadcastMsg_def multicast_def Let_def case_prod_beta emit_effect_def)

lemma broadcastViewChangeReq_signs:
  "Signs ViewChangeReqPacket (ownViewChangeReq env e) \<in> set (effects (broadcastViewChangeReq env e))"
  by (simp add: broadcastViewChangeReq_def broadcastMsg_def multicast_def Let_def case_prod_beta emit_effect_def)

lemma checkAndChangeView_outcome:
  "m_toView (checkAndChangeView env e) = m_toView e" "effects (checkAndChangeView env e) = effects e"
  "(m_view (checkAndChangeView env e), m_leaderFailed (checkAndChangeView env e)) \<in>
     {(m_view e, m_leaderFailed e), (m_toView e, False)}"
  by (simp_all add: checkAndChangeView_def Let_def)

lemma checkTimeout_fires:
  assumes "isTimeout (utcSteadyTime env) (m_timeManager e)"
  obtains e5 e6 where "checkTimeout env e = (if m_onViewChange e6 then emit_effect OnViewChange e6 else e6)"
    "e6 = checkAndChangeView env (broadcastViewChangeReq env e5)" "m_toView e5 = s64 (m_toView e + 1)" "m_view e5 = m_view e"
    "m_leaderFailed e5" "m_highestBlock e5 = m_highestBlock e" "m_idx e5 = m_idx e"
proof -
  define e5 where "e5 = (let e1 = (if m_lastConsensusTime (m_timeManager e) \<noteq> 0
                   then (let e' = e\<lparr>m_fastViewChange := False\<rparr> in
                         if m_onTimeout e' \<and> height (m_prepareCache (m_reqCache e')) > m_number (m_highestBlock e')
                         then emit_effect (OnTimeout (m_sealingNumber e')) e' else e')
                   else e);
             e2 = (on_timer updateChangeCycle e1)\<lparr>m_toView := s64 (m_toView e1 + 1), m_leaderFailed := True\<rparr>;
             e3 = on_sync (noteSealingBlockNumber (number (m_blockChain e2))) e2;
             e4 = on_timer (\<lambda>tm. tm\<lparr>m_lastConsensusTime := utcSteadyTime env\<rparr>) e3
     in on_cache (removeInvalidViewChange (m_toView e4) (m_number (m_highestBlock e4))
                     (header_hash (crypto env) (m_highestBlock e4))) e4)"
  define e6 where "e6 = checkAndChangeView env (broadcastViewChangeReq env e5)"
  have "checkTimeout env e = (if m_onViewChange e6 then emit_effect OnViewChange e6 else e6)"
    using assms unfolding checkTimeout_def e6_def e5_def Let_def by (simp only: if_True)
  then show ?thesis using e6_def by (rule that) (simp_all add: e5_def Let_def emit_effect_def)
qed

text \<open>
  What a timeout does.  Without one \<^verbatim>\<open>checkTimeout\<close> changes nothing.  With one the node asks for the view
  after the one it asked for last: it signs and broadcasts a view change request for that view, with the
  number and hash of its highest block, and then either counts its leader as failed and stays in its
  view, or, when the requests of the others suffice, is in the new view with the leader restored.
\<close>

theorem timeout_asks_for_next_view:
  shows "(\<not> isTimeout (utcSteadyTime env) (m_timeManager e) \<longrightarrow> checkTimeout env e = e) \<and>
    (isTimeout (utcSteadyTime env) (m_timeManager e) \<longrightarrow>
      m_toView (checkTimeout env e) = s64 (m_toView e + 1) \<and>
      (\<exists>r. Signs ViewChangeReqPacket r \<in> set (effects (checkTimeout env e)) \<and> view r = s64 (m_toView e + 1) \<and>
         height r = m_number (m_highestBlock e) \<and> block_hash r = header_hash (crypto env) (m_highestBlock e) \<and> idx r = m_idx e) \<and>
      (m_view (checkTimeout env e) = m_view e \<and> m_leaderFailed (checkTimeout env e) \<or>
       m_view (checkTimeout env e) = s64 (m_toView e + 1) \<and> \<not> m_leaderFailed (checkTimeout env e)))" (is "_ \<and> (_ \<longrightarrow> ?Q)")
proof (intro conjI)
  show "\<not> isTimeout (utcSteadyTime env) (m_timeManager e) \<longrightarrow> checkTimeout env e = e" by (simp add: checkTimeout_def)
  show "isTimeout (utcSteadyTime env) (m_timeManager e) \<longrightarrow> ?Q"
  proof
    assume "isTimeout (utcSteadyTime env) (m_timeManager e)"
    then obtain e5 e6 where t: "checkTimeout env e = (if m_onViewChange e6 then emit_effect OnViewChange e6 else e6)"
      and e6: "e6 = checkAndChangeView env (broadcastViewChangeReq env e5)"
      and sel: "m_toView e5 = s64 (m_toView e + 1)" "m_view e5 = m_view e" "m_leaderFailed e5"
        "m_highestBlock e5 = m_highestBlock e" "m_idx e5 = m_idx e"
      by (rule checkTimeout_fires)
    note c = checkAndChangeView_outcome [of env "broadcastViewChangeReq env e5", folded e6, simplified sel broadcastViewChangeReq_sel]
    have "Signs ViewChangeReqPacket (ownViewChangeReq env e5) \<in> set (effects e6)"
      using broadcastViewChangeReq_signs c(2) by simp
    moreover have "view (ownViewChangeReq env e5) = s64 (m_toView e + 1)" "height (ownViewChangeReq env e5) = m_number (m_highestBlock e)"
      "block_hash (ownViewChangeReq env e5) = header_hash (crypto env) (m_highestBlock e)" "idx (ownViewChangeReq env e5) = m_idx e"
      by (simp_all add: ownViewChangeReq_def mkViewChangeReq_def mkPBFTMsg_def signMsg_def Let_def sel)
    ultimately show ?Q using c unfolding t by (auto simp: emit_effect_def)
  qed
qed

theorem timeout_asks_for_next_view_witness:
  "m_toView (checkTimeout (solo_env\<lparr>utcSteadyTime := 10000\<rparr>) quad) = 2"
proof -
  have "isTimeout 10000 (m_timeManager quad)"
    by (simp add: quad_def solo_ready_def isTimeout_def newTimeManager_def timeout_interval_def u64_def)
  then show ?thesis using timeout_asks_for_next_view [where env = "solo_env\<lparr>utcSteadyTime := 10000\<rparr>" and e = quad]
   by (simp add: quad_def s64_def)
qed

section \<open>Requests\<close>

text \<open>
  C26: A sign request is as good as a commit request.  The two carry the same fields and nothing in the
  signed part tells them apart, so a sign request that a node would accept is accepted as a vote to
  commit when the type of the packet around it is changed, if its signer has not voted yet.
\<close>

theorem sign_request_counts_as_commit:
  assumes "isValidSignReq env req e = (VALID, req', e')" "\<not> isExistCommit req (m_reqCache e)"
  shows "(isValidCommitReq env req e = (VALID, req', e')) \<and>
    (req' = req) \<and>
    (mkSignReq cr kp now prep i = mkCommitReq cr kp now prep i)"
  using assms
  by (auto simp: isValidSignReq_def isValidCommitReq_def checkReq_def mkSignReq_def mkCommitReq_def Let_def
      split: if_splits prod.splits)

definition quad_prepared :: pbft_engine where
  "quad_prepared = quad\<lparr>m_reqCache := emptyReqCache\<lparr>m_prepareCache := solo_sealed\<rparr>\<rparr>"

definition quad_sign :: "h512 \<Rightarrow> IDXTYPE \<Rightarrow> pbft_msg" where
  "quad_sign key i = mkSignReq solo_crypto \<lparr>kp_secret = 1, kp_pub = key\<rparr> 12 solo_sealed i"

lemma quad_sign_sel [simp]:
  "view (quad_sign k i) = 0" "height (quad_sign k i) = 1" "idx (quad_sign k i) = i" "block_hash (quad_sign k i) = 2"
  by (simp_all add: quad_sign_def mkSignReq_def mkPBFTMsg_def signMsg_def emptyMsg_def Let_def)

lemma quad_sign_ok: "checkSign solo_crypto quad_prepared (quad_sign 8 1)"
  by (simp add: checkSign_def getNodeIDByIndex_def getSealerByIndex_def quad_prepared_def quad_def)
    (simp add: quad_sign_def mkSignReq_def mkPBFTMsg_def signMsg_def emptyMsg_def fieldsWithoutBlock_def Let_def)

theorem sign_request_counts_as_commit_witness:
  "isValidCommitReq solo_env (quad_sign 8 1) quad_prepared = (VALID, quad_sign 8 1, quad_prepared)"
proof -
  have "m_reqCache quad_prepared = emptyReqCache\<lparr>m_prepareCache := solo_sealed\<rparr>" "m_consensusBlockNumber quad_prepared = 1"
    "m_view quad_prepared = 0" "m_idx quad_prepared = 0"
    "m_blockSync quad_prepared = \<lparr>sync_state = Idle, knownHighestNumber = 0, m_currentSealingNumber = 0, sync_farBehind = False\<rparr>"
    by (simp_all add: quad_prepared_def quad_def)
  then have "isValidSignReq solo_env (quad_sign 8 1) quad_prepared = (VALID, quad_sign 8 1, quad_prepared)"
    "\<not> isExistCommit (quad_sign 8 1) (m_reqCache quad_prepared)"
    by (simp_all add: isValidSignReq_def isExistSign_def isExistCommit_def cacheExists_def emptyReqCache_def hasConsensused_def
        checkReq_def isSyncingHigherBlock_def isSyncing_def quad_sign_ok Let_def)
  then show ?thesis by (rule sign_request_counts_as_commit [THEN conjunct1])
qed

lemma checkSign_indep:
  fixes req :: prepare_req and e :: pbft_engine
  shows "checkSign cr e (req\<lparr>isEmpty := m, block_data := d, pBlock := b\<rparr>) = checkSign cr e req"
    and "checkSign cr e (req\<lparr>isEmpty := m\<rparr>) = checkSign cr e req" and "checkSign cr (on_cache f e) req = checkSign cr e req"
  by (simp_all add: checkSign_def fieldsWithoutBlock_def getNodeIDByIndex_def getSealerByIndex_def split: option.split)

text \<open>
  C27: The lock does not hold for proposals marked as empty.  A node that has voted to commit one block at a
  height rejects every other proposal for that height; but with the mark, which comes from the
  unsigned part of the packet, the same proposal is judged as if the node had never voted, whatever
  block it carries: one with transactions passes under it.
\<close>

theorem empty_mark_skips_lock:
  assumes "height req = height (m_committedPrepareCache (m_reqCache e))" "0 \<le> height req"
    and "block_hash req \<noteq> block_hash (m_committedPrepareCache (m_reqCache e))"
  shows "(isValidPrepare env (req\<lparr>isEmpty := False\<rparr>) e = INVALID) \<and>
    (isValidPrepare env (req\<lparr>isEmpty := True, block_data := d, pBlock := b\<rparr>) e =
      isValidPrepare env (req\<lparr>isEmpty := False\<rparr>) (on_cache (\<lambda>c. c\<lparr>m_committedPrepareCache := emptyPrepare\<rparr>) e))"
  using assms
  by (simp_all add: isValidPrepare_def isHashSavedAfterCommit_def isExistPrepare_def isSyncingHigherBlock_def
      hasConsensused_def isFuturePrepare_def isValidLeader_def getLeader_def checkSign_indep emptyPrepare_def)

definition solo_locked :: pbft_engine where
  "solo_locked = on_cache (\<lambda>c. c\<lparr>m_committedPrepareCache := emptyPrepare\<lparr>height := 1, block_hash := 5\<rparr>\<rparr>) solo_ready"

theorem empty_mark_skips_lock_witness:
  "isValidPrepare solo_env solo_proposal solo_locked = INVALID \<and>
   isValidPrepare solo_env (solo_proposal\<lparr>isEmpty := True, block_data := [], pBlock := Some solo_block\<rparr>) solo_locked = VALID"
proof -
  have unmarked: "solo_proposal\<lparr>isEmpty := False\<rparr> = solo_proposal"
    by (simp add: solo_proposal_def mkPrepareFromBlock_def signMsg_def emptyPrepare_def Let_def)
  have "on_cache (\<lambda>c. c\<lparr>m_committedPrepareCache := emptyPrepare\<rparr>) solo_locked = solo_ready"
    by (simp add: solo_locked_def) (simp add: solo_ready_def solo_engine_def emptyReqCache_def)
  moreover have "isValidPrepare solo_env solo_proposal solo_ready = VALID"
    using solo_valid [where ef = "effects solo_ready" and tp = "m_threadPool solo_ready"] by (simp del: solo_ready_sel)
  moreover have "m_committedPrepareCache (m_reqCache solo_locked) = emptyPrepare\<lparr>height := 1, block_hash := 5\<rparr>"
    by (simp add: solo_locked_def)
  ultimately show ?thesis
    using empty_mark_skips_lock [where req = solo_proposal and e = solo_locked] unmarked by simp
qed

section \<open>Sending\<close>

lemma broadcast_peer_known:
  assumes "broadcast_inv k" "is_packet t" "broadcast_peer e t key filt n (ts, k) = (ts', k')"
  shows "broadcast_inv k'" and "\<And>n'. keyExists n' t key k \<Longrightarrow> keyExists n' t key k'"
    and "getIndexBySealer n e \<ge> 0 \<Longrightarrow> keyExists n t key k'"
proof -
  have m: "keyExists n' t key (broadcastMark n t key k)" if "keyExists n' t key k" for n'
    using that assms(1,2) broadcastKeys.known_mark broadcastKeys.known_other by metis
  show "broadcast_inv k'" "\<And>n'. keyExists n' t key k \<Longrightarrow> keyExists n' t key k'"
    "getIndexBySealer n e \<ge> 0 \<Longrightarrow> keyExists n t key k'"
    using assms m broadcastKeys.known_mark [OF assms(1,2)] broadcast_inv_mark
    by (auto simp: broadcast_peer_def split: if_splits)
qed

lemma broadcast_fold_known:
  assumes "broadcast_inv k" "is_packet t" "fold (broadcast_peer e t key filt) ns (ts, k) = (ts', k')"
  shows "broadcast_inv k' \<and> (\<forall>n. keyExists n t key k \<longrightarrow> keyExists n t key k') \<and>
    (\<forall>n\<in>set ns. getIndexBySealer n e \<ge> 0 \<longrightarrow> keyExists n t key k')"
  using assms
proof (induction ns arbitrary: ts k)
  case (Cons n ns)
  obtain ts1 k1 where p: "broadcast_peer e t key filt n (ts, k) = (ts1, k1)" by fastforce
  note b = broadcast_peer_known [OF Cons.prems(1,2) p]
  have "broadcast_inv k' \<and> (\<forall>n. keyExists n t key k1 \<longrightarrow> keyExists n t key k') \<and>
      (\<forall>n\<in>set ns. getIndexBySealer n e \<ge> 0 \<longrightarrow> keyExists n t key k')"
    using Cons.prems(3) p by (intro Cons.IH [OF b(1) Cons.prems(2)]) simp
  then show ?case using b(2,3) by auto
qed simp

lemma broadcast_fold_done:
  assumes "\<And>n. n \<in> set ns \<Longrightarrow> getIndexBySealer n e \<ge> 0 \<Longrightarrow> keyExists n t key k"
  shows "fst (fold (broadcast_peer e t key filt) ns (ts, k)) = ts"
  using assms
proof (induction ns)
  case (Cons n ns)
  have "broadcast_peer e t key filt n (ts, k) = (ts, k)"
    using Cons.prems [of n] by (auto simp: broadcast_peer_def broadcastMark_def)
  then show ?case using Cons by simp
qed simp

lemma broadcastMsg_targets:
  "effects (broadcastMsg env t m d filt l e) =
     AsyncMulticast (fst (fold (broadcast_peer e t (uniqueKey m) filt) (sessions env) ([], m_broadCastCache e)))
       (packetBytes e (let p = createPBFTMsgPacket env e d t l (if m_enableTTLOptimize e then getForwardNodes env e else None)
          in if isEmpty m then p\<lparr>prepareWithEmptyBlock := True\<rparr> else p)) 0 # effects e"
  by (simp add: broadcastMsg_def multicast_def Let_def case_prod_beta emit_effect_def packetBytes_def createPBFTMsgPacket_def
      newPacket_def getForwardNodes_def cong: if_cong)

text \<open>
  A message is broadcast once.  After a broadcast, a second broadcast of a message with the same key and
  packet type goes to no one, whatever its payload, filter and ttl: every sealer the node has a session
  with was either sent the message, or excluded, or known to have it, and all are remembered.
\<close>

theorem broadcast_once:
  assumes "broadcast_inv (m_broadCastCache e)" "is_packet t"
  shows "\<exists>bytes. effects (broadcastMsg env t m d2 filt2 l2 (broadcastMsg env t m d1 filt1 l1 e)) =
    AsyncMulticast [] bytes 0 # effects (broadcastMsg env t m d1 filt1 l1 e)"
proof -
  let ?e = "broadcastMsg env t m d1 filt1 l1 e"
  obtain ts k where k: "fold (broadcast_peer e t (uniqueKey m) filt1) (sessions env) ([], m_broadCastCache e) = (ts, k)" by fastforce
  have "m_broadCastCache ?e = k" "m_sealerList ?e = m_sealerList e"
    by (simp_all add: broadcastMsg_def multicast_def Let_def case_prod_beta emit_effect_def k)
  moreover have "keyExists n t (uniqueKey m) k" if "n \<in> set (sessions env)" "getIndexBySealer n e \<ge> 0" for n
    using broadcast_fold_known [OF assms k] that by blast
  ultimately have "fst (fold (broadcast_peer ?e t (uniqueKey m) filt2) (sessions env) ([], m_broadCastCache ?e)) = []"
    by (intro broadcast_fold_done) (simp add: getIndexBySealer_def)
  then show ?thesis by (simp only: broadcastMsg_targets [of env t m d2 filt2 l2 ?e]) blast
qed

theorem broadcast_once_witness:
  "\<exists>ts bytes bytes'. effects (broadcastMsg (solo_env\<lparr>sessions := [8, 9]\<rparr>) (packet_code SignReqPacket) (quad_sign 7 0) [] [] 0 
       (broadcastMsg (solo_env\<lparr>sessions := [8, 9]\<rparr>) (packet_code SignReqPacket) (quad_sign 7 0) [] [] 0 quad)) =
     AsyncMulticast [] bytes 0 # AsyncMulticast [8, 9] bytes' 0 # effects quad"
proof -
  have c: "m_broadCastCache quad = []" "m_sealerList quad = [7, 8, 9, 10]" by (simp_all add: quad_def) (simp add: solo_ready_def solo_engine_def)
  have "broadcast_inv (m_broadCastCache quad)" "is_packet (packet_code SignReqPacket)" by (simp_all add: c broadcast_inv_def is_packet_def)
  from broadcast_once [OF this, where env = "solo_env\<lparr>sessions := [8, 9]\<rparr>"  and m = "quad_sign 7 0" and ?d1.0 = "[]" and ?d2.0 = "[]"
      and ?filt1.0 = "[]" and ?filt2.0 = "[]" and ?l1.0 = 0 and ?l2.0 = 0]
  show ?thesis 
    by (subst (asm) (2) broadcastMsg_targets) (auto simp: broadcast_peer_def getIndexBySealer_def c keyExists_def broadcastMark_def insertKey_def Let_def case_prod_beta)
qed

text \<open>
  A forwarded packet carries one hop less.  In ttl mode a packet that is forwarded is sent on with its
  ttl decreased by one, modulo 256; since a packet with ttl 1 is never forwarded, the ttl of a
  copy is smaller than that of the original, except for a packet that arrives with ttl 0, which is
  sent on with ttl 255.
\<close>

theorem forwarded_ttl:
  assumes "needForwardMsg ok p m e" "\<not> m_enableTTLOptimize e"
  shows "(ttl (createPBFTMsgPacket env e d (packet_id p) (nat ((int (unat (ttl p)) - 1) mod 2 ^ 32)) fwd) = ttl p - 1) \<and>
    (ttl p \<noteq> 0 \<longrightarrow> ttl (createPBFTMsgPacket env e d (packet_id p) (nat ((int (unat (ttl p)) - 1) mod 2 ^ 32)) fwd) < ttl p) \<and>
    (ttl p = 0 \<longrightarrow> ttl (createPBFTMsgPacket env e d (packet_id p) (nat ((int (unat (ttl p)) - 1) mod 2 ^ 32)) fwd) = 255)"
proof (intro conjI)
  have n1: "ttl p \<noteq> 1" using assms by (simp add: needForwardMsg_def)
  let ?t = "nat ((int (unat (ttl p)) - 1) mod 2 ^ 32)"
  have t: "?t \<noteq> 0 \<and> of_nat ?t = ttl p - 1"
  proof (cases "ttl p = 0")
    case False
    then have "unat (ttl p) \<noteq> unat (0 :: byte)" "unat (ttl p) \<noteq> unat (1 :: byte)" using n1 by (simp_all only: word_unat_eq_iff [symmetric] not_False_eq_True)
    then have k: "1 < unat (ttl p)" by simp
    have "int (unat (ttl p)) - 1 = int (unat (ttl p) - 1)" using k by linarith
    moreover have "unat (ttl p) < 256" using unsigned_less [of "ttl p", where 'a = nat] by simp
    then have "unat (ttl p) - 1 < 2 ^ 32" by (rule le_less_trans [OF diff_le_self less_trans]) simp
    ultimately have "?t = unat (ttl p) - 1" by (simp only: of_nat_less_iff [where 'a = int, symmetric]) simp
    then show ?thesis using k by (simp add: of_nat_diff)
  qed simp
  then show a: "ttl (createPBFTMsgPacket env e d (packet_id p) ?t fwd) = ttl p - 1"
    by (simp add: createPBFTMsgPacket_def Let_def split: option.split)
  show "ttl p \<noteq> 0 \<longrightarrow> ttl (createPBFTMsgPacket env e d (packet_id p) ?t fwd) < ttl p"
    unfolding a by (auto simp: word_less_nat_alt unat_minus_one unsigned_eq_0_iff intro!: diff_less gr0I)
  show "ttl p = 0 \<longrightarrow> ttl (createPBFTMsgPacket env e d (packet_id p) ?t fwd) = 255" unfolding a by simp
qed

theorem forwarded_ttl_witness:
  "let p = (emptyPacket 0)\<lparr>ttl := 0\<rparr> in
   ttl (createPBFTMsgPacket solo_env solo_ready [] (packet_id p) (nat ((int (unat (ttl p)) - 1) mod 2 ^ 32)) None) = 255"
proof -
  have "needForwardMsg True ((emptyPacket 0)\<lparr>ttl := 0\<rparr>) (emptyMsg\<lparr>height := 1, sig := [1]\<rparr>) solo_ready" "\<not> m_enableTTLOptimize solo_ready"
    by (simp_all add: needForwardMsg_def emptyPacket_def uniqueKey_def toHex_def toHex_prefix_def emptyMsg_def) (simp add: solo_ready_def solo_engine_def)
  from forwarded_ttl [OF this] show ?thesis by (simp add: Let_def)
qed

section \<open>What is signed\<close>

definition signs :: "'a consensus_base_scheme \<Rightarrow> (packet_type \<times> pbft_msg) set" where
  "signs e = {(t, m). Signs t m \<in> set (effects e)}"

lemma signs_update [simp]:
  "signs (e\<lparr>m_sealingNumber := n\<rparr>) = signs e" "signs (e\<lparr>m_timeManager := tm\<rparr>) = signs e"
  "signs (e\<lparr>m_fastViewChange := f\<rparr>) = signs e" "signs (e\<lparr>m_reqCache := c\<rparr>) = signs e" "signs (e\<lparr>m_viewMap := vm\<rparr>) = signs e"
  by (simp_all add: signs_def)

lemma checkBlockValid_signs:
  "checkBlockValid env b e = Inl (err, e') \<Longrightarrow> signs e' = signs e"
  "checkBlockValid env b e = Inr e' \<Longrightarrow> signs e' = signs e"
  by (auto simp: checkBlockValid_def base_checkBlockValid_def Let_def case_prod_beta signs_def split: if_splits)

lemma execChecked_signs:
  "execChecked env req b e = Inl (err, e') \<Longrightarrow> signs e' = signs e"
  "execChecked env req b e = Inr (r, e') \<Longrightarrow> signs e' = signs e \<and> verifyTxs env b \<and> (\<exists>par. execute env b par = Some r)"
  by (auto simp: execChecked_def notifySealing_def executeBlock_def Let_def case_prod_beta signs_def emit_effect_def
      split: if_splits option.splits)

lemma execBlock_signs:
  "execBlock env req e = Inl (err, e') \<Longrightarrow> signs e' = signs e"
  "execBlock env req e = Inr (r, e') \<Longrightarrow> signs e' = signs e"
proof -
  have none: "execBlock env req e = Inl (DecodeFailed, e)" if "block_in env req = None"
    using that by (simp add: execBlock_def block_in_def)
  show "signs e' = signs e" if "execBlock env req e = Inl (err, e')"
    using that none execBlock_eq [of env req _ e]
    by (cases "block_in env req") (auto simp: ebind_def checkBlockValid_signs split: if_splits sum.splits dest: execChecked_signs(1))
  show "signs e' = signs e" if "execBlock env req e = Inr (r, e')"
    using that none execBlock_eq [of env req _ e]
    by (cases "block_in env req") (auto simp: ebind_def checkBlockValid_signs split: if_splits sum.splits dest: execChecked_signs(2))
qed

lemma checkBlockValid_ok:
  assumes "checkBlockValid env b e = Inr e'"
  shows "number (m_blockChain e) < m_number (blockHeader b)" "getTransactionSize b \<le> m_maxBlockTransactions e"
    "block_header.m_sealerList (blockHeader b) = m_sealerList e"
    "fst (getBlockByHash (crypto env) (m_parentHash (blockHeader b)) (m_blockChain e)) \<noteq> None"
  using assms
  by (auto simp: checkBlockValid_def base_checkBlockValid_def checkSealerList_def Let_def case_prod_beta split: if_splits)

lemma handlePrepareMsg_signs:
  assumes "signs (fst (handlePrepareMsg env req e)) \<noteq> signs e"
  obtains e1 b ctx e2 where "isValidPrepare env req e = VALID" "execBlock env req e1 = Inr ((b, ctx), e2)"
    "\<not> (getTransactionSize b = 0 \<and> m_omitEmptyBlock e2)" "m_blockChain e1 = m_blockChain e"
    "m_maxBlockTransactions e1 = m_maxBlockTransactions e" "m_sealerList e1 = m_sealerList e"
proof -
  define e0 where "e0 = on_cache (addRawPrepare req) (updateViewMap (idx req) (view req) e)"
  define e1 where "e1 = on_timer (\<lambda>tm. tm\<lparr>m_lastAddRawPrepareTime := utcSteadyTime env\<rparr>) e0"
  have v: "isValidPrepare env req e = VALID"
    using assms by (auto simp: handlePrepareMsg_def updateViewMap_def split: CheckResult.splits)
  have e1: "signs e1 = signs e" "m_blockChain e1 = m_blockChain e" "m_maxBlockTransactions e1 = m_maxBlockTransactions e"
    "m_sealerList e1 = m_sealerList e" by (simp_all add: e1_def e0_def updateViewMap_def)
  have h: "handlePrepareMsg env req e = execPrepareAndGenerateSignMsg env req e0"
    using v by (simp add: handlePrepareMsg_def e0_def)
  show thesis
  proof (cases "execBlock env req e1")
    case (Inl y)
    then obtain err e' where y: "execBlock env req e1 = Inl (err, e')" by (cases y) auto
    then have "fst (handlePrepareMsg env req e) = e'" unfolding h execPrepareAndGenerateSignMsg_def e1_def [symmetric] by simp
    then show thesis using assms execBlock_signs(1) [OF y] e1(1) by simp
  next
    case (Inr y)
    then obtain b ctx e2 where y: "execBlock env req e1 = Inr ((b, ctx), e2)" by (cases y) auto
    have "\<not> (getTransactionSize b = 0 \<and> m_omitEmptyBlock e2)"
    proof
      assume "getTransactionSize b = 0 \<and> m_omitEmptyBlock e2"
      then have "signs (fst (handlePrepareMsg env req e)) = signs e2"
        unfolding h execPrepareAndGenerateSignMsg_def e1_def [symmetric] y
        by (simp add: Let_def needOmit_def changeViewForFastViewChange_def)
      then show False using assms execBlock_signs(2) [OF y] e1(1) by simp
    qed
    then show thesis using that v y e1(2-4) by blast
  qed
qed


definition solo_proposing :: pbft_engine where
  "solo_proposing = solo_ready\<lparr>effects := Signs PrepareReqPacket (pbft_part solo_proposal) # effects solo_ready,
     m_threadPool := [BroadcastPrepare solo_proposal]\<rparr>"

lemma solo_voted: "\<exists>m\<in>votes (solo_done 0). height m = 1 \<and> block_hash m = 2"
proof -
  have "has_committed (w_crypto solo_world) solo_done 0 1 2"
    using solo_committed by (force simp: has_committed_def headerHash_def solo_world_def solo_hash)
  then obtain Q where "Q \<subseteq> {0}" "quorum_size solo_committee \<le> card Q" "\<forall>j\<in>{0}. j \<in> Q \<longrightarrow> has_voted solo_done j 1 2"
    using net_certificate [OF net_inv_reach [OF solo_net], of 0 1 2] by auto
  moreover from this have "0 \<in> Q" by (auto simp: quorum_size_def faults_def subset_singleton_iff)
  ultimately show ?thesis by (simp add: has_voted_def)
qed

lemma solo_handled: "fst (handlePrepareMsg solo_env solo_proposal solo_proposing) = solo_done 0"
  by (simp add: solo_done_def generatePrepare_def solo_construct solo_proposing_def getTransactionSize_def)


section \<open>Proposing again\<close>

definition said :: "pbft_engine \<Rightarrow> effect set" where
  "said e = set (effects e)"

lemma said_update [simp]:
  "said (e\<lparr>m_reqCache := c\<rparr>) = said e" "said (e\<lparr>m_timeManager := tm\<rparr>) = said e" "said (e\<lparr>m_threadPool := tp\<rparr>) = said e"
  "said (e\<lparr>m_sealingNumber := n\<rparr>) = said e" "said (e\<lparr>m_fastViewChange := f\<rparr>) = said e" "said (e\<lparr>m_viewMap := vm\<rparr>) = said e"
  "said (e\<lparr>m_blockChain := bc\<rparr>) = said e" "said (e\<lparr>m_blockSync := bs\<rparr>) = said e" "said (e\<lparr>m_broadCastCache := k\<rparr>) = said e"
  "said (e\<lparr>m_notifyNextLeaderSeal := ns\<rparr>) = said e" "said (emit_effect x e) = insert x (said e)"
  by (simp_all add: said_def emit_effect_def)

lemma said_broadcast: "x \<in> said e \<Longrightarrow> x \<in> said (broadcastMsg env t m d filt l e)"
  by (auto simp: said_def broadcastMsg_targets)

lemma said_commit_prepared: "x \<in> said e \<Longrightarrow> x \<in> said (commit_prepared env b e)"
  by (auto simp: commit_prepared_def Let_def case_prod_beta)

lemma said_checkAndSave: "x \<in> said e \<Longrightarrow> x \<in> said (checkAndSave env e)"
  by (cases rule: checkAndSave_cases [of env e]) (simp_all add: said_commit_prepared)

lemma said_own:
  "x \<in> said e \<Longrightarrow> x \<in> said (broadcastSignReq env r e)" "x \<in> said e \<Longrightarrow> x \<in> said (broadcastCommitReq env r e)"
  by (simp_all add: broadcastSignReq_def broadcastCommitReq_def Let_def said_broadcast)

lemma said_checkAndCommit: "x \<in> said e \<Longrightarrow> x \<in> said (checkAndCommit env e)"
proof (cases rule: checkAndCommit_cases [of env e])
  case (keep c)
  then show "x \<in> said e \<Longrightarrow> ?thesis" by simp
next
  case sign
  have "x \<in> said e \<Longrightarrow> x \<in> said (after_sign env e)" unfolding after_sign_def by (simp add: Let_def said_own)
  then show "x \<in> said e \<Longrightarrow> ?thesis" using sign(1) said_checkAndSave by metis
qed

lemma said_execChecked:
  assumes "x \<in> said e"
  shows "execChecked env req b e = Inl (err, e') \<Longrightarrow> x \<in> said e'" "execChecked env req b e = Inr (r, e') \<Longrightarrow> x \<in> said e'"
  using assms
  by (auto simp: execChecked_def notifySealing_def executeBlock_def Let_def case_prod_beta split: if_splits option.splits)

lemma said_checkBlockValid:
  "checkBlockValid env b e = Inl (err, e') \<Longrightarrow> said e' = said e" "checkBlockValid env b e = Inr e' \<Longrightarrow> said e' = said e"
  by (auto simp: checkBlockValid_def base_checkBlockValid_def Let_def case_prod_beta split: if_splits)

lemma said_execBlock:
  assumes "x \<in> said e"
  shows "execBlock env req e = Inl (err, e') \<Longrightarrow> x \<in> said e'" "execBlock env req e = Inr (r, e') \<Longrightarrow> x \<in> said e'"
proof -
  have none: "execBlock env req e = Inl (DecodeFailed, e)" if "block_in env req = None"
    using that by (simp add: execBlock_def block_in_def)
  show "x \<in> said e'" if "execBlock env req e = Inl (err, e')"
    using that assms none execBlock_eq [of env req _ e]
    by (cases "block_in env req") (auto simp: ebind_def said_checkBlockValid split: if_splits sum.splits dest!: said_execChecked(1) [rotated])
  show "x \<in> said e'" if "execBlock env req e = Inr (r, e')"
    using that assms none execBlock_eq [of env req _ e]
    by (cases "block_in env req") (auto simp: ebind_def said_checkBlockValid split: if_splits sum.splits dest!: said_execChecked(2) [rotated])
qed

lemma said_execPrepare:
  assumes "x \<in> said e"
  shows "x \<in> said (fst (execPrepareAndGenerateSignMsg env req e))"
proof -
  let ?e1 = "on_timer (\<lambda>tm. tm\<lparr>m_lastAddRawPrepareTime := utcSteadyTime env\<rparr>) e"
  have e1: "x \<in> said ?e1" using assms by simp
  show ?thesis
  proof (cases "execBlock env req ?e1")
    case (Inl y)
    then obtain err e' where "execBlock env req ?e1 = Inl (err, e')" by (cases y) auto
    with said_execBlock(1) [OF e1 this] show ?thesis by (simp add: execPrepareAndGenerateSignMsg_def)
  next
    case (Inr y)
    then obtain b ctx e' where "execBlock env req ?e1 = Inr ((b, ctx), e')" by (cases y) auto
    with said_execBlock(2) [OF e1 this] show ?thesis
      by (simp add: execPrepareAndGenerateSignMsg_def Let_def changeViewForFastViewChange_def said_checkAndCommit said_own)
  qed
qed

lemma said_handlePrepareMsg: "x \<in> said e \<Longrightarrow> x \<in> said (fst (handlePrepareMsg env req e))"
  by (simp add: handlePrepareMsg_def updateViewMap_def said_execPrepare split: CheckResult.split)

text \<open>
  C11: A leader with a locked proposal proposes nothing else.  \<^verbatim>\<open>shouldSeal\<close> asks the sealer for a new
  block only if the node is a configured sealer and either leads and has not voted to commit a block at
  the current height, or is the next leader and has been told to prepare.  A leader that
  has voted at the current height, and has not already put the proposal on the table, signs
  a proposal in the current view for the very block it has voted for.
\<close>

theorem locked_leader_reproposes:
  shows "(snd (shouldSeal env e) \<longrightarrow> m_accountType e = SealerAccount \<and> fst (getLeader e) \<and>
      (snd (getLeader e) = m_idx e \<and> height (m_committedPrepareCache (m_reqCache e)) \<noteq> m_consensusBlockNumber e \<or>
       snd (getLeader e) \<noteq> m_idx e \<and> getNextLeader e = m_idx e \<and> m_notifyNextLeaderSeal e)) \<and>
    (\<not> m_cfgErr e \<and> m_accountType e = SealerAccount \<and> getLeader e = (True, m_idx e) \<and>
      height (m_committedPrepareCache (m_reqCache e)) = m_consensusBlockNumber e \<and>
      height (m_rawPrepareCache (m_reqCache e)) \<noteq> m_consensusBlockNumber e \<longrightarrow>
      (\<exists>m. (PrepareReqPacket, m) \<in> signs (fst (shouldSeal env e)) \<and> view m = m_view e \<and> idx m = m_idx e \<and>
         height m = m_consensusBlockNumber e \<and> block_hash m = block_hash (m_committedPrepareCache (m_reqCache e))))"
proof (intro conjI)
  show "snd (shouldSeal env e) \<longrightarrow> m_accountType e = SealerAccount \<and> fst (getLeader e) \<and>
      (snd (getLeader e) = m_idx e \<and> height (m_committedPrepareCache (m_reqCache e)) \<noteq> m_consensusBlockNumber e \<or>
       snd (getLeader e) \<noteq> m_idx e \<and> getNextLeader e = m_idx e \<and> m_notifyNextLeaderSeal e)"
    by (simp add: shouldSeal_def)
  let ?cmt = "m_committedPrepareCache (m_reqCache e)"
  define r where "r = mkPrepareFromReq (crypto env) (m_keyPair e) (utcTime env) ?cmt (m_view e) (m_idx e)"
  define e3 where "e3 = (emit_effect (Signs PrepareReqPacket (pbft_part r)) (clearMask e))
    \<lparr>m_threadPool := m_threadPool e @ [BroadcastPrepare r]\<rparr>"
  have "rehandleCommitedPrepareCache env ?cmt e =
      on_sync (noteSealingBlockNumber (number (m_blockChain (fst (handlePrepareMsg env r e3))))) (fst (handlePrepareMsg env r e3))"
    by (simp add: rehandleCommitedPrepareCache_def r_def e3_def Let_def clearMask_def emit_effect_def)
  moreover have "Signs PrepareReqPacket (pbft_part r) \<in> said e3" by (simp add: e3_def)
  ultimately have "Signs PrepareReqPacket (pbft_part r) \<in> said (rehandleCommitedPrepareCache env ?cmt e)"
    by (simp add: said_handlePrepareMsg)
  moreover have "view (pbft_part r) = m_view e" "idx (pbft_part r) = m_idx e" "height (pbft_part r) = height ?cmt"
    "block_hash (pbft_part r) = block_hash ?cmt"
    by (simp_all add: r_def pbft_part_def pbft_msg.defs mkPrepareFromReq_def signMsg_def emptyPrepare_def Let_def)
  ultimately show "\<not> m_cfgErr e \<and> m_accountType e = SealerAccount \<and> getLeader e = (True, m_idx e) \<and>
      height ?cmt = m_consensusBlockNumber e \<and> height (m_rawPrepareCache (m_reqCache e)) \<noteq> m_consensusBlockNumber e \<longrightarrow>
      (\<exists>m. (PrepareReqPacket, m) \<in> signs (fst (shouldSeal env e)) \<and> view m = m_view e \<and> idx m = m_idx e \<and>
         height m = m_consensusBlockNumber e \<and> block_hash m = block_hash ?cmt)"
    by (auto simp: shouldSeal_def rawPrepareCacheHeight_def signs_def said_def)
qed

theorem locked_leader_reproposes_witness:
  "\<exists>m. (PrepareReqPacket, m) \<in> signs (fst (shouldSeal solo_env solo_locked)) \<and> height m = 1 \<and> block_hash m = 5"
proof -
  have c: "m_reqCache solo_locked = emptyReqCache\<lparr>m_committedPrepareCache := emptyPrepare\<lparr>height := 1, block_hash := 5\<rparr>\<rparr>"
    "m_consensusBlockNumber solo_locked = 1" "m_idx solo_locked = 0" by (simp_all add: solo_locked_def)
  have "\<not> m_cfgErr solo_locked" "m_accountType solo_locked = SealerAccount" "\<not> m_leaderFailed solo_locked"
    by (simp_all add: solo_locked_def) (simp_all add: solo_ready_def solo_engine_def)
  moreover from this have "getLeader solo_locked = (True, 0)"
    by (simp add: getLeader_def) (simp add: solo_locked_def Invalid256_def)
  ultimately show ?thesis
    using locked_leader_reproposes [where e = solo_locked and env = solo_env] c by (auto simp: emptyReqCache_def emptyPrepare_def)
qed

section \<open>Committing\<close>

lemma checkAndSave_commits:
  assumes "unat (minValidNodes e) \<le> snd (getSigCacheSize (checkSign (crypto env) e)
      (block_hash (m_prepareCache (m_reqCache e))) (minValidNodes e) (m_reqCache e))"
    and "unat (minValidNodes e) \<le> snd (counted env e)" "view (m_prepareCache (m_reqCache e)) = m_view e"
    and "m_number (m_highestBlock e) < height (m_prepareCache (m_reqCache e))" "pBlock (m_prepareCache (m_reqCache e)) = Some b"
  shows "checkAndSave env e = commit_prepared env b (e\<lparr>m_reqCache := fst (counted env e)\<rparr>)"
  using assms unfolding checkAndSave_def counted_def Let_def case_prod_beta by simp

lemma commitBlock_succeeds:
  assumes "m_number (blockHeader b) = number c + 1" "m_parentHash (blockHeader b) = numberHash (number c) c" "db b (tb_sys c) \<noteq> None"
  shows "fst (commitBlock cr ce db b c) = COMMIT_OK"
  using assms by (auto simp: commitBlock_def isBlockShouldCommit_def Let_def)

text \<open>
  C5: A quorum commits.  When a node holds sign and commit requests of a quorum for its prepared proposal,
  in its current view and above its highest block, and the block extends its chain and the
  database accepts it, then the block is on the chain after \<^verbatim>\<open>checkAndSave\<close>: the height has grown by
  one, the block at the new height is the proposed one with its signature list, and its transactions
  are dropped from the pool.
\<close>

theorem quorum_commits:
  assumes "unat (minValidNodes e) \<le> snd (getSigCacheSize (checkSign (crypto env) e)
      (block_hash (m_prepareCache (m_reqCache e))) (minValidNodes e) (m_reqCache e))"
    and "unat (minValidNodes e) \<le> snd (counted env e)" "view (m_prepareCache (m_reqCache e)) = m_view e"
    and "m_number (m_highestBlock e) < height (m_prepareCache (m_reqCache e))" "pBlock (m_prepareCache (m_reqCache e)) = Some b"
    and "0 \<le> number (m_blockChain e)" "m_number (blockHeader b) = number (m_blockChain e) + 1"
    and "m_parentHash (blockHeader b) = numberHash (number (m_blockChain e)) (m_blockChain e)"
    and "\<forall>x b' sys. dbCommit env x b' sys \<noteq> None"
  shows "(number (m_blockChain (checkAndSave env e)) = number (m_blockChain e) + 1) \<and>
    (\<exists>b'\<in>drops (checkAndSave env e). blockHeader b' = blockHeader b \<and>
      block_at (number (m_blockChain e) + 1) (m_blockChain (checkAndSave env e)) = Some b')"
proof (intro conjI)
  let ?e = "e\<lparr>m_reqCache := fst (counted env e)\<rparr>"
  define b' where "b' = fst (generateAndSetSigList b (minValidNodes ?e) (m_reqCache ?e))"
  define r where "r = commitBlock (crypto env) (commitEnv env) (dbCommit env (p_execContext (m_prepareCache (m_reqCache ?e)))) b' (m_blockChain e)"
  have h: "blockHeader b' = blockHeader b" by (simp add: b'_def)
  have ok: "fst r = COMMIT_OK" unfolding r_def using assms(7-9) h by (intro commitBlock_succeeds) simp_all
  have s: "checkAndSave env e = commit_prepared env b ?e" using assms(1-5) by (rule checkAndSave_commits)
  have chain: "m_blockChain (checkAndSave env e) = snd r"
    unfolding s commit_prepared_def Let_def case_prod_beta by (simp add: b'_def r_def emit_effect_def)
  note t = commitBlock_tables [OF ok [unfolded r_def] assms(6), folded r_def]
  show n: "number (m_blockChain (checkAndSave env e)) = number (m_blockChain e) + 1" unfolding chain by (rule t(1))
  have "b' \<in> drops (checkAndSave env e)"
    using ok unfolding s commit_prepared_fields(2) r_def b'_def by simp
  moreover have "block_at (number (m_blockChain e) + 1) (m_blockChain (checkAndSave env e)) = Some b'"
    unfolding block_at_def n unfolding chain t(4,5) by (simp add: update_conv')
  ultimately show "\<exists>b'\<in>drops (checkAndSave env e). blockHeader b' = blockHeader b \<and>
      block_at (number (m_blockChain e) + 1) (m_blockChain (checkAndSave env e)) = Some b'" using h by blast
qed

definition solo_voting :: pbft_engine where
  "solo_voting = solo_ready\<lparr>m_reqCache := emptyReqCache\<lparr>m_prepareCache := solo_sealed,
     m_signCache := [(2, [(toHex (sig solo_vote), solo_vote)])], m_commitCache := [(2, [(toHex (sig solo_vote), solo_vote)])]\<rparr>\<rparr>"

theorem quorum_commits_witness: "number (m_blockChain (checkAndSave solo_env solo_voting)) = 1"
proof -
  have c: "m_prepareCache (m_reqCache solo_voting) = solo_sealed" "m_signCache (m_reqCache solo_voting) = [(2, [(toHex (sig solo_vote), solo_vote)])]"
    "m_commitCache (m_reqCache solo_voting) = [(2, [(toHex (sig solo_vote), solo_vote)])]"
    "minValidNodes solo_voting = 1" "m_view solo_voting = 0" "m_highestBlock solo_voting = solo_header 0 0"
    "m_blockChain solo_voting = m_blockChain solo_ready"
    by (simp_all add: solo_voting_def minValidNodes_def)
  have n: "number (m_blockChain solo_ready) = 0" "numberHash 0 (m_blockChain solo_ready) = 1"
    by (simp_all add: number_def numberHash_def genesis_chain_def headerHash_def solo_hash)
  have "number (m_blockChain (checkAndSave solo_env solo_voting)) = number (m_blockChain solo_voting) + 1"
    by (rule quorum_commits [where b = solo_block, THEN conjunct1])
      (simp_all add: c n counted_def getSigCacheSize_def getCommitCacheSize_def getSizeFromCache_def
        checkAndRemoveInvalidFutureReq_def Let_def del: solo_ready_sel)
  then show ?thesis by (simp add: c n del: solo_ready_sel)
qed

section \<open>Restart\<close>

lemma backup_stored:
  assumes "m_threadPool e = BackupCommitted # ts" "m_backupDB e = Some db"
    and "length (message_bytes (prepare_fields (m_committedPrepareCache (m_reqCache e)))) < rlp_limit"
  shows "m_backupDB (run_task env e) = Some (AList.update c_backupKeyCommitted
    (toHex (message_bytes (prepare_fields (m_committedPrepareCache (m_reqCache e))))) db)"
  using assms prepareMsg.encode_message [OF assms(3)]
  by (simp add: run_task_def backupMsg_def encoded_def PrepareReq_encode_def)

lemma backup_reloaded:
  fixes m :: prepare_req
  assumes "length (message_bytes (prepare_fields m)) < rlp_limit" "m_committedPrepareCache (m_reqCache e) = emptyPrepare"
    and "map_of db c_backupKeyCommitted = Some (toHex (message_bytes (prepare_fields m)))"
  shows "m_committedPrepareCache (m_reqCache (initBackupDB db e)) = prepare_restored emptyPrepare m"
proof -
  have "PrepareReq_decode emptyPrepare (message_bytes (prepare_fields m)) = Inr (prepare_restored emptyPrepare m)"
    using prepare_restores [OF assms(1)] prepareMsg.encode_message [OF assms(1)] by (simp add: PrepareReq_encode_def)
  moreover have "message_bytes (prepare_fields m) \<noteq> []" unfolding message_bytes_def by (rule enc_not_Nil)
  ultimately show ?thesis
    using assms(2,3) by (simp add: initBackupDB_def reloadMsg_def hex_bytes_def fromHex_toHex Let_def)
qed

text \<open>
  C10: A restart keeps the lock.  Once the background task has written the proposal that a node has voted to
  commit to the key-value store, a node that starts on what was stored has that proposal as its
  committed proposal again: height, view, index, hash, both signatures and the block are those
  that were written (heights and views below \<open>2 ^ 32\<close>, as sent on the wire).
\<close>

theorem restart_keeps_lock:
  assumes "m_threadPool e = BackupCommitted # ts" "m_backupDB e = Some db" "m_backupDB (run_task env e) = Some stored"
    and "cmt = m_committedPrepareCache (m_reqCache e)" "0 \<le> height cmt" "height cmt < 2 ^ 32" "0 \<le> view cmt" "view cmt < 2 ^ 32"
    and "length (message_bytes (prepare_fields cmt)) < rlp_limit"
    and "start env' stored e0 = Inr e1" "tip env' e0 = Some b" "m_number (blockHeader b) < 2 ^ 63 - 1"
  shows "m_committedPrepareCache (m_reqCache e1) = emptyPrepare\<lparr>height := height cmt, view := view cmt, idx := idx cmt,
    timestamp := timestamp cmt, block_hash := block_hash cmt, sig := sig cmt, sig2 := sig2 cmt, block_data := block_data cmt\<rparr>"
proof -
  obtain e3 where e3: "reportBlockWithoutLock env' b (restarted env' e0) = Inr e3" "e1 = initBackupDB stored e3"
    using assms(10) unfolding start_eq assms(11)
    by (cases "reportBlockWithoutLock env' b (restarted env' e0)") auto
  have "m_committedPrepareCache (m_reqCache e3) = m_committedPrepareCache (m_reqCache (restarted env' e0))"
    using report_votes(2) [OF assms(12), of "restarted env' e0" env'] e3(1) by (simp add: restarted_fields outcome_state_def)
  also have "\<dots> = emptyPrepare" by (simp add: restarted_fields emptyReqCache_def)
  finally have "m_committedPrepareCache (m_reqCache e3) = emptyPrepare" .
  moreover have "map_of stored c_backupKeyCommitted = Some (toHex (message_bytes (prepare_fields cmt)))"
    using backup_stored [OF assms(1,2), of env] assms(3,4,9) by (simp add: update_conv')
  ultimately have "m_committedPrepareCache (m_reqCache e1) = prepare_restored emptyPrepare cmt"
    unfolding e3(2) using assms(9) by (intro backup_reloaded)
  then show ?thesis using assms(5-8) by (simp add: prepare_restored_def msg_restored_def)
qed

definition solo_backup :: pbft_engine where
  "solo_backup = solo_locked\<lparr>m_threadPool := [BackupCommitted],
     m_reqCache := emptyReqCache\<lparr>m_committedPrepareCache := emptyPrepare\<lparr>height := 1, view := 0, block_hash := 2\<rparr>\<rparr>\<rparr>"

theorem restart_keeps_lock_witness: "\<exists>stored e1. m_backupDB (run_task solo_env solo_backup) = Some stored \<and>
    start solo_env stored solo_engine = Inr e1 \<and> block_hash (m_committedPrepareCache (m_reqCache e1)) = 2"
proof -
  let ?cmt = "emptyPrepare\<lparr>height := 1, view := 0, block_hash := 2\<rparr>"
  have b: "m_threadPool solo_backup = BackupCommitted # []" "m_backupDB solo_backup = Some []"
    "m_committedPrepareCache (m_reqCache solo_backup) = ?cmt"
    by (simp_all add: solo_backup_def solo_locked_def) (simp add: solo_ready_def)
  have small: "length (message_bytes (prepare_fields ?cmt)) < rlp_limit"
    by (rule prepare_small) (simp add: emptyPrepare_def emptyMsg_def)
  obtain stored where s: "m_backupDB (run_task solo_env solo_backup) = Some stored"
    using backup_stored [OF b(1,2)] small b(3) by auto
  have t: "tip solo_env solo_engine = Some solo_genesis"
    by (simp add: tip_def solo_engine_def chain_reads genesis_chain_def headerHash_def solo_hash Let_def)
  then obtain e3 where "reportBlockWithoutLock solo_env solo_genesis (restarted solo_env solo_engine) = Inr e3"
    using solo_start unfolding start_eq
    by (cases "reportBlockWithoutLock solo_env solo_genesis (restarted solo_env solo_engine)") auto
  then have st: "start solo_env stored solo_engine = Inr (initBackupDB stored e3)" unfolding start_eq t by simp
  have "block_hash (m_committedPrepareCache (m_reqCache (initBackupDB stored e3))) = 2"
    by (subst restart_keeps_lock [OF b(1,2) s refl _ _ _ _ _ st t]) (use small in \<open>simp_all add: b(3)\<close>)
  then show ?thesis using s st by blast
qed

end
