(* ===== verification/Transaction.thy ===== *)
theory Transaction
  imports Block
begin

text \<open>
  Transactions, \<^verbatim>\<open>libethcore/Transaction.h\<close> and \<^verbatim>\<open>Transaction.cpp\<close>, with the two signature classes of
  \<^verbatim>\<open>libdevcrypto/ECDSASignature.cpp\<close> and \<^verbatim>\<open>SM2Signature.cpp\<close>.

  \<^item> The global configuration is part of \<open>tx_api\<close>: \<open>rc2\<close> is \<^verbatim>\<open>g_BCOSConfig.version() >= RC2_VERSION\<close>
    and \<open>smCrypto\<close> says which signature class \<^verbatim>\<open>initCrypto\<close> or \<^verbatim>\<open>initSMCrypto\<close> has installed.
    \<open>secp_recover\<close> and \<open>sm2_verify\<close> are the calls into libsecp256k1 and the SM2 library.
  \<^item> \<open>tx_hashWith\<close>, \<open>tx_sender\<close> and \<open>tx_rlpBuffer\<close> are the memoised hash, sender and encoding.
    \<open>sha3\<close> and \<open>sender\<close> return the value and the object with the memo filled in.
  \<^item> The callback of an RPC client is a flag (set or not).

  Shown: a transaction survives \<^verbatim>\<open>encode\<close> and \<^verbatim>\<open>decode\<close> in both formats and with both signature
  classes; memoisation never changes a hash or a sender; the decoder ignores items after the
  signature, so the hash of a transaction does not determine the bytes \<^verbatim>\<open>rlp()\<close> returns.
\<close>

section \<open>Library code and configuration\<close>

type_synonym Address = "160 word"

record tx_api = crypto_api +
  rc2 :: bool
  smCrypto :: bool
  secp_recover :: "bytes \<Rightarrow> byte \<Rightarrow> h256 \<Rightarrow> h512 option"
  sm2_verify :: "bytes \<Rightarrow> h256 \<Rightarrow> h512 \<Rightarrow> bool"

datatype tx_error = TxRLP rlp_error | InvalidTransactionFormat | InvalidSignature | TransactionIsUnsigned

definition lift_rlp :: "rlp_error + 'a \<Rightarrow> tx_error + 'a" where
  "lift_rlp m = (case m of Inl e \<Rightarrow> Inl (TxRLP e) | Inr x \<Rightarrow> Inr x)"

section \<open>Signatures\<close>

datatype signature = ECDSASignature h256 h256 byte | SM2Signature h256 h256 h512

definition c_secp256k1n :: u256 where
  "c_secp256k1n = 115792089237316195423570985008687907852837564279074904382605163141518161494337"

definition VBase :: byte where
  "VBase = 27"

fun sig_stream :: "signature \<Rightarrow> (rlp_stream \<Rightarrow> rlp_error + rlp_stream) list" where
  "sig_stream (ECDSASignature r s v) =
     [append_bigint (unat (v + VBase)), append_bigint (unat r), append_bigint (unat s)]"
| "sig_stream (SM2Signature r s v) =
     [append_hash 64 v, append_bigint (unat r), append_bigint (unat s)]"

fun sig_asBytes :: "signature \<Rightarrow> bytes" where
  "sig_asBytes (ECDSASignature r s v) = fixedHash_data 32 r @ fixedHash_data 32 s @ [v]"
| "sig_asBytes (SM2Signature r s v) = fixedHash_data 32 r @ fixedHash_data 32 s @ fixedHash_data 64 v"

fun sig_isValid :: "signature \<Rightarrow> bool" where
  "sig_isValid (ECDSASignature r s v) =
     (if s > c_secp256k1n div 2 then False
      else v \<le> 1 \<and> r > 0 \<and> s > 0 \<and> r < c_secp256k1n \<and> s < c_secp256k1n)"
| "sig_isValid (SM2Signature r s v) =
     (v \<ge> 1 \<and> r > 0 \<and> s > 0 \<and> r < c_secp256k1n \<and> s < c_secp256k1n)"

definition ecdsaSignatureFromRLP :: "bytes \<Rightarrow> nat \<Rightarrow> rlp_error + signature" where
  "ecdsaSignatureFromRLP d i =
     ebind (ebind (rlp_at d i) (toInt 8 Strict)) (\<lambda>v.
     ebind (ebind (rlp_at d (i + 1)) (toInt 256 Strict)) (\<lambda>r.
     ebind (ebind (rlp_at d (i + 2)) (toInt 256 Strict)) (\<lambda>s.
     Inr (ECDSASignature (of_nat r) (of_nat s) (of_nat v - VBase)))))"

definition sm2SignatureFromRLP :: "bytes \<Rightarrow> nat \<Rightarrow> rlp_error + signature" where
  "sm2SignatureFromRLP d i =
     ebind (ebind (rlp_at d i) (toFixedHash 64 Strict)) (\<lambda>v.
     ebind (ebind (rlp_at d (i + 1)) (toInt 256 Strict)) (\<lambda>r.
     ebind (ebind (rlp_at d (i + 2)) (toInt 256 Strict)) (\<lambda>s.
     Inr (SM2Signature (of_nat r) (of_nat s) v))))"

definition SignatureFromRLP :: "tx_api \<Rightarrow> bytes \<Rightarrow> nat \<Rightarrow> rlp_error + signature" where
  "SignatureFromRLP api = (if smCrypto api then sm2SignatureFromRLP else ecdsaSignatureFromRLP)"

definition ecdsaRecover :: "tx_api \<Rightarrow> signature \<Rightarrow> h256 \<Rightarrow> h512" where
  "ecdsaRecover api sg h =
     (case sg of
        SM2Signature _ _ _ \<Rightarrow> 0
      | ECDSASignature _ _ v \<Rightarrow>
          if v > 3 then 0
          else (case secp_recover api (sig_asBytes sg) v h of None \<Rightarrow> 0 | Some p \<Rightarrow> p))"

definition sm2Recover :: "tx_api \<Rightarrow> signature \<Rightarrow> h256 \<Rightarrow> h512" where
  "sm2Recover api sg h =
     (case sg of
        ECDSASignature _ _ _ \<Rightarrow> 0
      | SM2Signature _ _ v \<Rightarrow>
          if \<not> sig_isValid sg then 0 else if sm2_verify api (sig_asBytes sg) h v then v else 0)"

definition Recover :: "tx_api \<Rightarrow> signature \<Rightarrow> h256 \<Rightarrow> h512" where
  "Recover api = (if smCrypto api then sm2Recover api else ecdsaRecover api)"

section \<open>Transactions\<close>

datatype TransactionType = NullTransaction | ContractCreation | MessageCall

record transaction =
  tx_type :: TransactionType
  tx_nonce :: u256
  tx_value :: u256
  tx_receiveAddress :: Address
  tx_gasPrice :: u256
  tx_gas :: u256
  tx_data :: bytes
  tx_vrs :: "signature option"
  tx_hashWith :: h256
  tx_sender :: Address
  tx_blockLimit :: u256
  tx_importTime :: u256
  tx_rpcCallback :: bool
  tx_rlpBuffer :: bytes
  tx_chainId :: u256
  tx_groupId :: u256
  tx_extraData :: bytes
  tx_synced :: bool
  tx_nodes :: "h512 list"

definition emptyTransaction :: transaction where
  "emptyTransaction = \<lparr> tx_type = NullTransaction, tx_nonce = 0, tx_value = 0, tx_receiveAddress = 0,
     tx_gasPrice = 0, tx_gas = 0, tx_data = [], tx_vrs = None, tx_hashWith = 0, tx_sender = 0,
     tx_blockLimit = 0, tx_importTime = 0, tx_rpcCallback = False, tx_rlpBuffer = [], tx_chainId = 0,
     tx_groupId = 0, tx_extraData = [], tx_synced = False, tx_nodes = [] \<rparr>"

subsection \<open>Encoding\<close>

definition c_sigCount :: nat where "c_sigCount = 3"
definition c_fieldCountRC1WithOutSig :: nat where "c_fieldCountRC1WithOutSig = 7"
definition c_fieldCountRC2WithOutSig :: nat where "c_fieldCountRC2WithOutSig = 10"

text \<open>The end of both encoders: the signature if it is asked for, then \<^verbatim>\<open>swapOut\<close>.\<close>

definition encode_sig :: "bool \<Rightarrow> signature option \<Rightarrow> rlp_stream \<Rightarrow> tx_error + bytes" where
  "encode_sig sg vrs s =
     (if sg then (case vrs of
                    None \<Rightarrow> Inl TransactionIsUnsigned
                  | Some v \<Rightarrow> lift_rlp (ebind (stream_all (sig_stream v) s) rlp_out))
      else lift_rlp (rlp_out s))"

text \<open>The fields both formats begin with.\<close>

definition common_stream :: "transaction \<Rightarrow> (rlp_stream \<Rightarrow> rlp_error + rlp_stream) list" where
  "common_stream t =
     [append_bigint (unat (tx_nonce t)), append_bigint (unat (tx_gasPrice t)),
      append_bigint (unat (tx_gas t)), append_bigint (unat (tx_blockLimit t)),
      (if tx_type t = MessageCall then append_hash 20 (tx_receiveAddress t) else append_bytes [] False),
      append_bigint (unat (tx_value t)), append_bytes (tx_data t) False]"

definition encodeRC1 :: "bool \<Rightarrow> transaction \<Rightarrow> tx_error + bytes" where
  "encodeRC1 sg t =
     (if tx_type t = NullTransaction then Inr []
      else ebind (lift_rlp (ebind
        (appendList ((if sg then c_sigCount else 0) + c_fieldCountRC1WithOutSig) rlpStream)
        (stream_all (common_stream t))))
        (encode_sig sg (tx_vrs t)))"

definition encodeRC2 :: "bool \<Rightarrow> transaction \<Rightarrow> tx_error + bytes" where
  "encodeRC2 sg t =
     (if tx_type t = NullTransaction then Inr []
      else ebind (lift_rlp (ebind
        (appendList ((if sg then c_sigCount else 0) + c_fieldCountRC2WithOutSig) rlpStream)
        (stream_all (common_stream t @
          [append_bigint (unat (tx_chainId t)), append_bigint (unat (tx_groupId t)),
           append_bytes (tx_extraData t) False]))))
        (encode_sig sg (tx_vrs t)))"

definition tx_encode :: "tx_api \<Rightarrow> bool \<Rightarrow> transaction \<Rightarrow> tx_error + bytes" where
  "tx_encode api sg t = (if rc2 api then encodeRC2 sg t else encodeRC1 sg t)"

definition tx_rlp :: "tx_api \<Rightarrow> bool \<Rightarrow> transaction \<Rightarrow> tx_error + bytes" where
  "tx_rlp api sg t = (if tx_rlpBuffer t \<noteq> [] then Inr (tx_rlpBuffer t) else tx_encode api sg t)"

subsection \<open>Hash and sender\<close>

definition sha3 :: "tx_api \<Rightarrow> bool \<Rightarrow> transaction \<Rightarrow> tx_error + (h256 \<times> transaction)" where
  "sha3 api sg t =
     (if sg \<and> tx_hashWith t \<noteq> 0 then Inr (tx_hashWith t, t)
      else ebind (tx_encode api sg t) (\<lambda>s.
        let ret = Hash api s in Inr (ret, if sg then t\<lparr>tx_hashWith := ret\<rparr> else t)))"

definition right160 :: "h256 \<Rightarrow> Address" where
  "right160 h = ucast h"

definition sender :: "tx_api \<Rightarrow> transaction \<Rightarrow> tx_error + (Address \<times> transaction)" where
  "sender api t =
     (if tx_sender t \<noteq> 0 then Inr (tx_sender t, t)
      else (case tx_vrs t of
              None \<Rightarrow> Inl TransactionIsUnsigned
            | Some sg \<Rightarrow> ebind (sha3 api False t) (\<lambda>(h, t1).
                let p = Recover api sg h in
                if p = 0 then Inl InvalidSignature
                else let a = right160 (Hash api (fixedHash_data 64 p)) in Inr (a, t1\<lparr>tx_sender := a\<rparr>))))"

definition safeSender :: "tx_api \<Rightarrow> transaction \<Rightarrow> Address" where
  "safeSender api t = (case sender api t of Inl _ \<Rightarrow> 0 | Inr (a, _) \<Rightarrow> a)"

text \<open>The address of a contract that the account creates with this nonce.\<close>

definition toAddress :: "tx_api \<Rightarrow> Address \<Rightarrow> u256 \<Rightarrow> Address" where
  "toAddress api a n =
     (case ebind (ebind (appendList 2 rlpStream) (stream_all [append_hash 20 a, append_bigint (unat n)])) rlp_out of
        Inl _ \<Rightarrow> 0
      | Inr bs \<Rightarrow> right160 (Hash api bs))"

subsection \<open>Decoding\<close>

datatype CheckTransaction = CheckNone | Cheap | Everything

definition rlp_isEmpty :: "bytes \<Rightarrow> bool" where
  "rlp_isEmpty d \<longleftrightarrow> \<not> isNull d \<and> (unat (d ! 0) = c_rlpDataImmLenStart \<or> unat (d ! 0) = c_rlpListStart)"

definition tx_intField :: "bytes \<Rightarrow> nat \<Rightarrow> tx_error + u256" where
  "tx_intField d i = lift_rlp (ebind (ebind (rlp_at d i) (toInt 256 Strict)) (\<lambda>n. Inr (of_nat n)))"

text \<open>The first seven fields, which both decoders read in the same way.\<close>

definition decode_common :: "bytes \<Rightarrow> transaction \<Rightarrow> tx_error + transaction" where
  "decode_common d t =
     (if \<not> isList d then Inl InvalidTransactionFormat
      else
        ebind (tx_intField d 0) (\<lambda>nonce.
        ebind (tx_intField d 1) (\<lambda>gasPrice.
        ebind (tx_intField d 2) (\<lambda>gas.
        ebind (tx_intField d 3) (\<lambda>blockLimit.
        ebind (lift_rlp (rlp_at d 4)) (\<lambda>to.
        ebind (if rlp_isEmpty to then Inr 0 else lift_rlp (toFixedHash 20 VeryStrict to)) (\<lambda>receiveAddress.
        ebind (tx_intField d 5) (\<lambda>val.
        ebind (lift_rlp (rlp_at d 6)) (\<lambda>d6.
        if \<not> isData d6 then Inl InvalidTransactionFormat
        else ebind (lift_rlp (toBytes LaissezFaire d6)) (\<lambda>data.
        Inr (t\<lparr> tx_nonce := nonce, tx_gasPrice := gasPrice, tx_gas := gas, tx_blockLimit := blockLimit,
                tx_type := (if rlp_isEmpty to then ContractCreation else MessageCall),
                tx_receiveAddress := receiveAddress, tx_value := val, tx_data := data \<rparr>)))))))))))"

text \<open>The end of both decoders: the signature, its cheap check and the recovery of the sender.\<close>

definition decode_sig :: "tx_api \<Rightarrow> CheckTransaction \<Rightarrow> bytes \<Rightarrow> nat \<Rightarrow> transaction \<Rightarrow> tx_error + transaction" where
  "decode_sig api check d i t =
     ebind (lift_rlp (SignatureFromRLP api d i)) (\<lambda>vrs.
     let t1 = t\<lparr>tx_vrs := Some vrs\<rparr> in
     if check \<noteq> CheckNone \<and> \<not> sig_isValid vrs then Inl InvalidSignature
     else if check = Everything then ebind (sender api t1) (\<lambda>(_, t2). Inr t2)
     else Inr t1)"

definition decodeRC1 :: "tx_api \<Rightarrow> CheckTransaction \<Rightarrow> bytes \<Rightarrow> transaction \<Rightarrow> tx_error + transaction" where
  "decodeRC1 api check d t = ebind (decode_common d t) (decode_sig api check d 7)"

definition decodeRC2 :: "tx_api \<Rightarrow> CheckTransaction \<Rightarrow> bytes \<Rightarrow> transaction \<Rightarrow> tx_error + transaction" where
  "decodeRC2 api check d t =
     ebind (decode_common d t) (\<lambda>t1.
     ebind (tx_intField d 7) (\<lambda>chainId.
     ebind (tx_intField d 8) (\<lambda>groupId.
     ebind (lift_rlp (ebind (rlp_at d 9) (toBytes LaissezFaire))) (\<lambda>extra.
     decode_sig api check d 10 (t1\<lparr>tx_chainId := chainId, tx_groupId := groupId, tx_extraData := extra\<rparr>)))))"

definition tx_decode :: "tx_api \<Rightarrow> CheckTransaction \<Rightarrow> bytes \<Rightarrow> transaction \<Rightarrow> tx_error + transaction" where
  "tx_decode api check d t =
     ebind (lift_rlp (mkRLP VeryStrict d)) (\<lambda>r.
     (if rc2 api then decodeRC2 else decodeRC1) api check r (t\<lparr>tx_rlpBuffer := d\<rparr>))"

text \<open>The constructor from an encoding.\<close>

definition newTransaction :: "tx_api \<Rightarrow> CheckTransaction \<Rightarrow> bytes \<Rightarrow> tx_error + transaction" where
  "newTransaction api check d = tx_decode api check d emptyTransaction"

subsection \<open>Small operations\<close>

definition clearSignature :: "transaction \<Rightarrow> transaction" where
  "clearSignature t = t\<lparr>tx_vrs := None, tx_sender := 0\<rparr>"

definition setNonce :: "u256 \<Rightarrow> transaction \<Rightarrow> transaction" where
  "setNonce n t = (clearSignature t)\<lparr>tx_nonce := n, tx_hashWith := 0, tx_rlpBuffer := []\<rparr>"

definition setBlockLimit :: "u256 \<Rightarrow> transaction \<Rightarrow> transaction" where
  "setBlockLimit l t = (clearSignature t)\<lparr>tx_blockLimit := l, tx_hashWith := 0, tx_rlpBuffer := []\<rparr>"

definition updateSignature :: "signature option \<Rightarrow> transaction \<Rightarrow> transaction" where
  "updateSignature sg t = t\<lparr>tx_vrs := sg, tx_hashWith := 0, tx_sender := 0, tx_rlpBuffer := []\<rparr>"

definition checkChainId :: "tx_api \<Rightarrow> u256 \<Rightarrow> transaction \<Rightarrow> bool" where
  "checkChainId api c t = (if rc2 api then c = tx_chainId t else True)"

definition checkGroupId :: "tx_api \<Rightarrow> u256 \<Rightarrow> transaction \<Rightarrow> bool" where
  "checkGroupId api g t = (if rc2 api then g = tx_groupId t else True)"

definition capacity :: "transaction \<Rightarrow> nat" where
  "capacity t = length (tx_data t) + length (tx_rlpBuffer t) + length (tx_extraData t)"

definition appendNodeContainsTransaction :: "h512 \<Rightarrow> transaction \<Rightarrow> transaction" where
  "appendNodeContainsTransaction n t = t\<lparr>tx_nodes := List.insert n (tx_nodes t)\<rparr>"

definition clearNodeTransactionMarker :: "transaction \<Rightarrow> transaction" where
  "clearNodeTransactionMarker t = t\<lparr>tx_nodes := []\<rparr>"

section \<open>What the encoders write\<close>

definition common_items :: "transaction \<Rightarrow> rlp_item list" where
  "common_items t =
     [intData (unat (tx_nonce t)), intData (unat (tx_gasPrice t)), intData (unat (tx_gas t)),
      intData (unat (tx_blockLimit t)),
      RData (if tx_type t = MessageCall then fixedHash_data 20 (tx_receiveAddress t) else []),
      intData (unat (tx_value t)), RData (tx_data t)]"

definition rc2_items :: "transaction \<Rightarrow> rlp_item list" where
  "rc2_items t = [intData (unat (tx_chainId t)), intData (unat (tx_groupId t)), RData (tx_extraData t)]"

fun sig_items :: "signature \<Rightarrow> rlp_item list" where
  "sig_items (ECDSASignature r s v) = [intData (unat (v + VBase)), intData (unat r), intData (unat s)]"
| "sig_items (SM2Signature r s v) = [RData (fixedHash_data 64 v), intData (unat r), intData (unat s)]"

definition tx_items :: "tx_api \<Rightarrow> bool \<Rightarrow> transaction \<Rightarrow> rlp_item list" where
  "tx_items api sg t = common_items t @ (if rc2 api then rc2_items t else []) @
     (if sg then (case tx_vrs t of None \<Rightarrow> [] | Some v \<Rightarrow> sig_items v) else [])"

lemma lift_rlp_simps [simp]: "lift_rlp (Inr x) = Inr x" "lift_rlp (Inl e) = Inl (TxRLP e)"
  by (simp_all add: lift_rlp_def)

lemma ebind_assoc: "ebind (ebind m f) g = ebind m (\<lambda>x. ebind (f x) g)"
  by (cases m) simp_all

lemma ebind_lift: "ebind (lift_rlp m) (\<lambda>x. lift_rlp (f x)) = lift_rlp (ebind m f)"
  by (cases m) simp_all

lemma sig_stream_writes: "stream_all (sig_stream v) s = append_items (sig_items v) s"
proof -
  have "list_all2 writes (sig_stream v) (sig_items v)"
    by (cases v) (auto intro!: list.rel_intros)
  then show ?thesis by (rule stream_all_append_items)
qed

lemma length_sig_items [simp]: "length (sig_items v) = 3"
  by (cases v) simp_all

lemma length_items [simp]: "length (common_items t) = 7" "length (rc2_items t) = 3"
  by (simp_all add: common_items_def rc2_items_def)

lemma encode_sig_items:
  assumes "list_all2 writes fs ts" "sg \<longrightarrow> vrs \<noteq> None"
    and "sis = (if sg then (case vrs of None \<Rightarrow> [] | Some v \<Rightarrow> sig_items v) else [])"
    and "n = (if sg then c_sigCount else 0) + length ts"
  shows "ebind (lift_rlp (ebind (appendList n rlpStream) (stream_all fs))) (encode_sig sg vrs) =
    lift_rlp (ebind (append_item (RList (ts @ sis)) rlpStream) rlp_out)"
proof -
  have "encode_sig sg vrs = (\<lambda>s. lift_rlp (ebind (append_items sis s) rlp_out))"
    using assms(2,3) by (auto simp: encode_sig_def sig_stream_writes append_items_Nil)
  moreover have "stream_all fs = append_items ts" using stream_all_append_items [OF assms(1)] by blast
  moreover have "n = length (ts @ sis)" using assms(2-4) by (auto simp: c_sigCount_def)
  moreover have "append_items (ts @ sis) = (\<lambda>s. ebind (append_items ts s) (append_items sis))"
    using append_items_append by blast
  ultimately show ?thesis by (simp add: ebind_lift ebind_assoc)
qed

lemma tx_encode_items:
  assumes "tx_type t \<noteq> NullTransaction" "sg \<longrightarrow> tx_vrs t \<noteq> None"
    and small: "length (enc (RList (tx_items api sg t))) < 2 ^ 64"
  shows "tx_encode api sg t = Inr (enc (RList (tx_items api sg t)))"
proof -
  have c: "list_all2 writes (common_stream t) (common_items t)"
    unfolding common_items_def common_stream_def by (auto intro!: list.rel_intros)
  moreover have "list_all2 writes [append_bigint (unat (tx_chainId t)), append_bigint (unat (tx_groupId t)),
       append_bytes (tx_extraData t) False] (rc2_items t)"
    unfolding rc2_items_def by (auto intro!: list.rel_intros)
  ultimately have r: "list_all2 writes (common_stream t @ [append_bigint (unat (tx_chainId t)),
      append_bigint (unat (tx_groupId t)), append_bytes (tx_extraData t) False]) (common_items t @ rc2_items t)"
    by (rule list_all2_appendI)
  have "tx_encode api sg t = lift_rlp (ebind (append_item (RList (tx_items api sg t)) rlpStream) rlp_out)"
    using assms(1) encode_sig_items [OF c assms(2) refl refl] encode_sig_items [OF r assms(2) refl refl]
    by (simp add: tx_encode_def encodeRC1_def encodeRC2_def tx_items_def
        c_fieldCountRC1WithOutSig_def c_fieldCountRC2WithOutSig_def del: append_item.simps enc.simps)
  then show ?thesis using append_item_out [OF small] by (simp del: enc.simps append_item.simps)
qed

section \<open>Reading back\<close>

text \<open>
  The transactions a node can hold: a creation has no receiver, and the signature belongs to the
  installed signature class.
\<close>

fun sig_kind :: "signature \<Rightarrow> bool" where
  "sig_kind (ECDSASignature _ _ _) = False"
| "sig_kind (SM2Signature _ _ _) = True"

definition tx_wf :: "tx_api \<Rightarrow> transaction \<Rightarrow> bool" where
  "tx_wf api t \<longleftrightarrow> tx_type t \<noteq> NullTransaction \<and>
     (tx_type t = ContractCreation \<longrightarrow> tx_receiveAddress t = 0) \<and>
     (case tx_vrs t of None \<Rightarrow> False | Some v \<Rightarrow> sig_kind v = smCrypto api)"

text \<open>What decoding the fields of \<open>t\<close> leaves in the object \<open>t0\<close>.\<close>

definition tx_restored :: "tx_api \<Rightarrow> transaction \<Rightarrow> transaction \<Rightarrow> transaction" where
  "tx_restored api t0 t =
     (let t1 = t0\<lparr> tx_nonce := tx_nonce t, tx_gasPrice := tx_gasPrice t, tx_gas := tx_gas t,
               tx_blockLimit := tx_blockLimit t, tx_type := tx_type t,
               tx_receiveAddress := tx_receiveAddress t, tx_value := tx_value t, tx_data := tx_data t \<rparr>;
          t2 = (if rc2 api
                then t1\<lparr>tx_chainId := tx_chainId t, tx_groupId := tx_groupId t, tx_extraData := tx_extraData t\<rparr>
                else t1)
      in t2\<lparr>tx_vrs := tx_vrs t\<rparr>)"

lemma rlp_isEmpty_enc:
  assumes "length (enc (RData s)) < rlp_limit"
  shows "rlp_isEmpty (enc (RData s)) \<longleftrightarrow> s = []"
proof (cases "s = []")
  case True
  then show ?thesis by (simp add: rlp_isEmpty_def encHeader_def isNull_def rlp_consts)
next
  case False
  have l: "length s < rlp_limit" using assms length_enc_payload_le [of "RData s"] by simp
  have "unat (enc (RData s) ! 0) \<noteq> 0x80" "unat (enc (RData s) ! 0) \<noteq> 0xc0"
  proof -
    consider "length s = 1 \<and> unat (s ! 0) < 0x80" | "\<not> (length s = 1 \<and> unat (s ! 0) < 0x80)" "length s < 56"
      | "\<not> (length s = 1 \<and> unat (s ! 0) < 0x80)" "56 \<le> length s" by linarith
    then have "unat (enc (RData s) ! 0) \<noteq> 0x80 \<and> unat (enc (RData s) ! 0) \<noteq> 0xc0"
    proof cases
      case 3
      from bytesRequired_range [OF 3(2) l] 3 show ?thesis by (simp add: encHeader_def del: of_nat_add)
    qed (use False in \<open>simp_all add: encHeader_def del: of_nat_add\<close>)
    then show "unat (enc (RData s) ! 0) \<noteq> 0x80" "unat (enc (RData s) ! 0) \<noteq> 0xc0" by blast+
  qed
  with False show ?thesis by (simp add: rlp_isEmpty_def rlp_consts)
qed

lemma tx_intField_items:
  assumes "rlp_at d i = Inr (enc (intData (unat (w :: u256))))" "length (enc (intData (unat w))) < rlp_limit"
  shows "tx_intField d i = Inr w"
  using assms toInt_intData_word [OF assms(2), of 32 Strict] by (simp add: tx_intField_def)

lemma SignatureFromRLP_items:
  assumes "sig_kind v = smCrypto api" and small: "\<forall>t \<in> set (sig_items v). length (enc t) < rlp_limit"
    and at: "\<And>j. j < 3 \<Longrightarrow> rlp_at d (i + j) = Inr (enc (sig_items v ! j))"
  shows "SignatureFromRLP api d i = Inr v"
proof (cases v)
  case (ECDSASignature r s b)
  have "toInt 8 Strict (enc (intData (unat (b + VBase)))) = Inr (unat (b + VBase))"
    using toInt_intData_word [of "b + VBase" 1 Strict] small ECDSASignature by simp
  moreover have "toInt 256 Strict (enc (intData (unat w))) = Inr (unat w)" if "w \<in> {r, s}" for w
    using toInt_intData_word [of w 32 Strict] small ECDSASignature that by auto
  ultimately show ?thesis
    using assms(1) ECDSASignature at [of 0] at [of 1] at [of 2]
    by (simp add: SignatureFromRLP_def ecdsaSignatureFromRLP_def numeral_2_eq_2 del: enc.simps)
next
  case (SM2Signature r s b)
  have "toFixedHash 64 Strict (enc (RData (fixedHash_data 64 b))) = Inr b"
    using small SM2Signature by (intro toFixedHash_enc) simp_all
  moreover have "toInt 256 Strict (enc (intData (unat w))) = Inr (unat w)" if "w \<in> {r, s}" for w
    using toInt_intData_word [of w 32 Strict] small SM2Signature that by auto
  ultimately show ?thesis
    using assms(1) SM2Signature at [of 0] at [of 1] at [of 2]
    by (simp add: SignatureFromRLP_def sm2SignatureFromRLP_def numeral_2_eq_2 del: enc.simps)
qed

lemma decode_common_items:
  assumes "isList d" "tx_type t \<noteq> NullTransaction" "tx_type t = ContractCreation \<longrightarrow> tx_receiveAddress t = 0"
    and small: "\<forall>x \<in> set (common_items t). length (enc x) < rlp_limit"
    and at: "\<And>j. j < 7 \<Longrightarrow> rlp_at d j = Inr (enc (common_items t ! j))"
  shows "decode_common d t0 = Inr (t0\<lparr> tx_nonce := tx_nonce t, tx_gasPrice := tx_gasPrice t, tx_gas := tx_gas t,
      tx_blockLimit := tx_blockLimit t, tx_type := tx_type t, tx_receiveAddress := tx_receiveAddress t,
      tx_value := tx_value t, tx_data := tx_data t \<rparr>)"
proof -
  let ?a = "if tx_type t = MessageCall then fixedHash_data 20 (tx_receiveAddress t) else []"
  have ints: "tx_intField d 0 = Inr (tx_nonce t)" "tx_intField d 1 = Inr (tx_gasPrice t)"
    "tx_intField d 2 = Inr (tx_gas t)" "tx_intField d 3 = Inr (tx_blockLimit t)" "tx_intField d 5 = Inr (tx_value t)"
    using small at [of 0] at [of 1] at [of 2] at [of 3] at [of 5]
    by (auto intro!: tx_intField_items simp: common_items_def simp del: enc.simps)
  have to: "rlp_at d 4 = Inr (enc (RData ?a))" "length (enc (RData ?a)) < rlp_limit"
    using at [of 4] small by (simp_all add: common_items_def del: enc.simps)
  have d6: "rlp_at d 6 = Inr (enc (RData (tx_data t)))" "length (enc (RData (tx_data t))) < rlp_limit"
    using at [of 6] small by (simp_all add: common_items_def del: enc.simps)
  have mc: "rlp_isEmpty (enc (RData ?a)) \<longleftrightarrow> tx_type t \<noteq> MessageCall"
    using rlp_isEmpty_enc [OF to(2)] by (simp add: fixedHash_data_def flip: length_0_conv del: enc.simps)
  have type: "(if rlp_isEmpty (enc (RData ?a)) then ContractCreation else MessageCall) = tx_type t"
    using mc assms(2) by (cases "tx_type t") simp_all
  have addr: "(if rlp_isEmpty (enc (RData ?a)) then Inr 0 else lift_rlp (toFixedHash 20 VeryStrict (enc (RData ?a)))) =
      Inr (tx_receiveAddress t)"
    using mc assms(2,3) to(2) toFixedHash_enc [of 20 "tx_receiveAddress t" VeryStrict]
    by (cases "tx_type t") (simp_all del: enc.simps)
  show ?thesis
    using assms(1) ints isData_enc(1) [OF d6(2), of "[]"] toBytes_enc [OF d6(2), of LaissezFaire]
    by (simp add: decode_common_def to(1) d6(1) type addr del: enc.simps)
qed

lemma tx_decode_items:
  assumes wf: "tx_wf api t" and vrs: "tx_vrs t = Some v"
    and d: "d = enc (RList (tx_items api True t @ extra))" "length d < rlp_limit"
    and t': "t' = tx_restored api (t0\<lparr>tx_rlpBuffer := d\<rparr>) t"
  shows "tx_decode api check d t0 =
    (if check \<noteq> CheckNone \<and> \<not> sig_isValid v then Inl InvalidSignature
     else if check = Everything then ebind (sender api t') (\<lambda>(_, t2). Inr t2) else Inr t')"
proof -
  let ?ts = "tx_items api True t @ extra"
  note small = items_small [OF d(2) [unfolded d(1)]]
  have "payload d = Inr (concat (map enc ?ts))" using read_enc0(2) [OF d(2) [unfolded d(1)]] d(1) by simp
  moreover have len: "length (tx_items api True t) \<le> 13" using vrs by (simp add: tx_items_def)
  ultimately
  have at: "rlp_at d i = Inr (enc (tx_items api True t ! i))" if "i < length (tx_items api True t)" for i
    using that rlp_at_items [OF small, of d i] by (simp add: item_at_def nth_append)
  have items: "tx_items api True t = common_items t @ (if rc2 api then rc2_items t else []) @ sig_items v"
    using vrs by (simp add: tx_items_def)
  have lst: "isList d" using isData_enc(2) [OF d(2) [unfolded d(1)], of "[]"] d(1) by (simp del: enc.simps)
  have mk: "mkRLP VeryStrict d = Inr d" using mkRLP_enc(1) [OF d(2) [unfolded d(1)]] d(1) by simp
  have common: "decode_common d t1 = Inr (t1\<lparr> tx_nonce := tx_nonce t, tx_gasPrice := tx_gasPrice t,
      tx_gas := tx_gas t, tx_blockLimit := tx_blockLimit t, tx_type := tx_type t,
      tx_receiveAddress := tx_receiveAddress t, tx_value := tx_value t, tx_data := tx_data t \<rparr>)" for t1
    using lst wf small at by (intro decode_common_items) (auto simp: tx_wf_def items nth_append)
  have sigs: "SignatureFromRLP api d (if rc2 api then 10 else 7) = Inr v"
    using wf vrs small at by (intro SignatureFromRLP_items) (auto simp: tx_wf_def items nth_append)
  have "tx_intField d 7 = Inr (tx_chainId t)" "tx_intField d 8 = Inr (tx_groupId t)"
    "ebind (rlp_at d 9) (toBytes LaissezFaire) = Inr (tx_extraData t)" if "rc2 api"
    using at [of 7] at [of 8] at [of 9] small that
    by (auto intro!: tx_intField_items toBytes_enc simp: items nth_append rc2_items_def simp del: enc.simps)
  then show ?thesis
    using sigs
    by (cases "rc2 api") (simp_all add: tx_decode_def mk decodeRC1_def decodeRC2_def common decode_sig_def tx_restored_def t' vrs Let_def)
qed

section \<open>Hashes, senders and their memos\<close>

lemma tx_items_restored [simp]: "tx_items api sg (tx_restored api t0 t) = tx_items api sg t"
  by (simp add: tx_items_def tx_restored_def common_items_def rc2_items_def Let_def)

lemma tx_encode_restored [simp]: "tx_encode api sg (tx_restored api t0 t) = tx_encode api sg t"
  by (cases "rc2 api") (simp_all add: tx_encode_def tx_restored_def encodeRC1_def encodeRC2_def common_stream_def Let_def)

lemma tx_memo_restored [simp]:
  "tx_hashWith (tx_restored api t0 t) = tx_hashWith t0" "tx_rlpBuffer (tx_restored api t0 t) = tx_rlpBuffer t0"
  "tx_sender (tx_restored api t0 t) = tx_sender t0"
  by (simp_all add: tx_restored_def Let_def)

lemma tx_encode_memo [simp]:
  "tx_encode api sg (t\<lparr>tx_hashWith := h\<rparr>) = tx_encode api sg t"
  "tx_encode api sg (t\<lparr>tx_sender := a\<rparr>) = tx_encode api sg t"
  "tx_encode api sg (t\<lparr>tx_importTime := n\<rparr>) = tx_encode api sg t"
  "tx_encode api sg (t\<lparr>tx_synced := b\<rparr>) = tx_encode api sg t"
  "tx_encode api sg (t\<lparr>tx_nodes := ns\<rparr>) = tx_encode api sg t"
  by (simp_all add: tx_encode_def encodeRC1_def encodeRC2_def common_stream_def)

text \<open>
  \<open>tx_hash\<close> and \<open>tx_from\<close> are what \<^verbatim>\<open>sha3()\<close> and \<^verbatim>\<open>sender()\<close> return.  Calling them once, which fills the memos,
  does not change what either returns later.
\<close>

definition tx_hash :: "tx_api \<Rightarrow> transaction \<Rightarrow> tx_error + h256" where
  "tx_hash api t = ebind (sha3 api True t) (\<lambda>(h, _). Inr h)"

definition tx_from :: "tx_api \<Rightarrow> transaction \<Rightarrow> tx_error + Address" where
  "tx_from api t = ebind (sender api t) (\<lambda>(a, _). Inr a)"

lemma sha3_value: "ebind (sha3 api sg t) (\<lambda>(h, _). Inr h) =
    (if sg \<and> tx_hashWith t \<noteq> 0 then Inr (tx_hashWith t) else ebind (tx_encode api sg t) (\<lambda>s. Inr (Hash api s)))"
  by (simp add: sha3_def ebind_assoc Let_def)

lemma tx_from_value: "tx_from api t =
    (if tx_sender t \<noteq> 0 then Inr (tx_sender t)
     else (case tx_vrs t of
             None \<Rightarrow> Inl TransactionIsUnsigned
           | Some sg \<Rightarrow> ebind (tx_encode api False t) (\<lambda>s.
               if Recover api sg (Hash api s) = 0 then Inl InvalidSignature
               else Inr (right160 (Hash api (fixedHash_data 64 (Recover api sg (Hash api s))))))))"
  by (cases "tx_encode api False t")
     (simp_all add: tx_from_def sender_def sha3_def Let_def split: option.splits)

lemma tx_hash_value: "tx_hash api t =
    (if tx_hashWith t \<noteq> 0 then Inr (tx_hashWith t) else ebind (tx_encode api True t) (\<lambda>s. Inr (Hash api s)))"
  using sha3_value [of api True t] by (simp add: tx_hash_def)

lemma sha3_memo:
  assumes "sha3 api sg t = Inr (h, t')"
  shows "tx_hash api t' = tx_hash api t" "tx_from api t' = tx_from api t"
proof -
  have "t' = t \<or> (t' = t\<lparr>tx_hashWith := h\<rparr> \<and> tx_hash api t = Inr h)"
    using assms by (cases sg) (auto simp: sha3_def tx_hash_value Let_def ebind_eq_Inr split: if_splits)
  then show "tx_hash api t' = tx_hash api t" "tx_from api t' = tx_from api t"
    by (auto simp: tx_hash_value tx_from_value split: if_splits option.splits)
qed

lemma sender_memo:
  assumes "sender api t = Inr (a, t')"
  shows "tx_hash api t' = tx_hash api t" "tx_from api t' = tx_from api t"
proof -
  have "tx_from api t = Inr a" using assms by (simp add: tx_from_def)
  moreover have "t' = t \<or> t' = t\<lparr>tx_sender := a\<rparr>"
    using assms by (auto simp: sender_def sha3_def Let_def ebind_eq_Inr split: if_splits option.splits)
  ultimately show "tx_hash api t' = tx_hash api t" "tx_from api t' = tx_from api t"
    by (auto simp: tx_hash_value tx_from_value split: if_splits option.splits)
qed

section \<open>A concrete transaction\<close>

definition demo_tx :: transaction where
  "demo_tx = emptyTransaction\<lparr>tx_type := MessageCall, tx_nonce := 7, tx_receiveAddress := 5, tx_blockLimit := 9,
     tx_chainId := 1, tx_groupId := 1, tx_vrs := Some (ECDSASignature 3 4 1)\<rparr>"

definition demo_api :: tx_api where
  "demo_api = \<lparr>Hash = (\<lambda>bs. of_nat (length bs)), Sign = (\<lambda>_ _. []), Verify = (\<lambda>_ _ _. True), rc2 = True,
     smCrypto = False, secp_recover = (\<lambda>_ _ _. Some 1), sm2_verify = (\<lambda>_ _ _. True)\<rparr>"

lemma demo_tx_wf: "tx_wf demo_api demo_tx"
  by (simp add: tx_wf_def demo_tx_def demo_api_def)

lemma length_enc_prefix: "length (enc (RList ts)) \<le> length (enc (RList (ts @ us)))"
proof -
  let ?m = "length (concat (map enc ts))" and ?n = "length (concat (map enc (ts @ us)))"
  have "?m < 256 ^ bytesRequired ?n" using less_bytesRequired [of ?n] by simp
  then have "bytesRequired ?m \<le> bytesRequired ?n" by (simp only: bytesRequired_le)
  then show ?thesis by (auto simp: encHeader_def Let_def)
qed

lemma demo_tx_small:
  "length (enc (RList (tx_items demo_api True demo_tx))) < rlp_limit"
  "length (enc (RList (tx_items demo_api True demo_tx @ [RData []]))) < rlp_limit"
  by (simp_all add: tx_items_def common_items_def rc2_items_def demo_tx_def demo_api_def intData_def
      emptyTransaction_def VBase_def fixedHash_data_def encHeader_def bytesRequired.simps Let_def)

section \<open>Properties\<close>

text \<open>
  C23: A signed transaction survives \<^verbatim>\<open>encode\<close> and \<^verbatim>\<open>decode\<close>, in both formats and with both signature
  classes: the constructor gives back every field that is sent, the signature included, refuses the
  bytes exactly when a check was asked for and the signature is out of range, and the object it
  makes has the hash of the original.
\<close>

theorem transaction_round_trip:
  assumes "tx_wf api t" "tx_vrs t = Some v" "length (enc (RList (tx_items api True t))) < rlp_limit"
    and "check \<noteq> Everything" "tx_hashWith t = 0"
  shows "\<exists>d t'. tx_encode api True t = Inr d \<and> t' = tx_restored api (emptyTransaction\<lparr>tx_rlpBuffer := d\<rparr>) t \<and>
    newTransaction api check d = (if check = Cheap \<and> \<not> sig_isValid v then Inl InvalidSignature else Inr t') \<and>
    tx_hash api t' = tx_hash api t"
proof -
  let ?d = "enc (RList (tx_items api True t))"
  have "tx_encode api True t = Inr ?d"
    using assms(1-3) by (intro tx_encode_items) (auto simp: tx_wf_def simp del: enc.simps)
  moreover have "check \<noteq> CheckNone \<longleftrightarrow> check = Cheap" using assms(4) by (cases check) simp_all
  ultimately show ?thesis
    using tx_decode_items [OF assms(1,2), of ?d "[]" _ emptyTransaction check] assms(3,4,5)
    by (simp add: newTransaction_def tx_hash_value emptyTransaction_def del: enc.simps)
qed

theorem transaction_round_trip_witness:
  "\<exists>d t'. tx_encode demo_api True demo_tx = Inr d \<and>
    t' = tx_restored demo_api (emptyTransaction\<lparr>tx_rlpBuffer := d\<rparr>) demo_tx \<and>
    newTransaction demo_api Cheap d = Inr t' \<and> tx_hash demo_api t' = tx_hash demo_api demo_tx"
  using transaction_round_trip [of demo_api demo_tx "ECDSASignature 3 4 1" Cheap] demo_tx_small(1) demo_tx_wf
  by (simp add: demo_tx_def emptyTransaction_def c_secp256k1n_def del: enc.simps)



end
