(* ===== verification/NonceCheck.thy ===== *)
theory NonceCheck
  imports Transaction BlockChain
begin

text \<open>
  The nonce checkers of the transaction pool, \<^verbatim>\<open>libtxpool/CommonTransactionNonceCheck.cpp\<close> and
  \<^verbatim>\<open>TransactionNonceCheck.cpp\<close>.

  An unordered set is a list without order that is only changed by \<open>List.insert\<close> and \<open>removeAll\<close>.
  A null \<^verbatim>\<open>shared_ptr\<close> to a vector of nonces is \<open>None\<close>; \<open>updateCache\<close> returns \<open>None\<close> where the code
  would dereference one.  The chain is an argument, and is returned, because reading a block fills
  its block cache.

  Shown: \<^verbatim>\<open>updateCache\<close> never meets a null pointer and leaves in the cache exactly the nonces of the
  blocks in the window of \<^verbatim>\<open>m_maxBlockLimit\<close> blocks below the tip, whatever the caches held; a
  transaction of a committed block fails \<^verbatim>\<open>ok\<close> at every later height.
\<close>

section \<open>CommonTransactionNonceCheck\<close>

definition common_isNonceOk :: "u256 \<Rightarrow> bool \<Rightarrow> u256 list \<Rightarrow> bool \<times> u256 list" where
  "common_isNonceOk key needInsert cache =
     (if key \<in> set cache then (False, cache)
      else (True, if needInsert then List.insert key cache else cache))"

definition delCache_nonce :: "u256 \<Rightarrow> u256 list \<Rightarrow> u256 list" where
  "delCache_nonce key cache = (if key \<in> set cache then removeAll key cache else cache)"

definition delCache_txs :: "u256 list \<Rightarrow> u256 list \<Rightarrow> u256 list" where
  "delCache_txs nonces cache = fold removeAll (filter (\<lambda>key. key \<in> set cache) nonces) cache"

definition insertCache :: "u256 \<Rightarrow> u256 list \<Rightarrow> u256 list" where
  "insertCache key cache = List.insert key cache"

section \<open>TransactionNonceCheck\<close>

record tx_nonce_check =
  nc_cache :: "u256 list"
  m_blockNonceCache :: "(int \<times> u256 list option) list"
  m_startblk :: int
  m_endblk :: int
  m_maxBlockLimit :: nat
  nc_blockNumber :: int

definition isNonceOk :: "transaction \<Rightarrow> tx_nonce_check \<Rightarrow> bool" where
  "isNonceOk t nc = fst (common_isNonceOk (tx_nonce t) False (nc_cache nc))"

definition isBlockLimitOk :: "transaction \<Rightarrow> tx_nonce_check \<Rightarrow> bool" where
  "isBlockLimitOk t nc \<longleftrightarrow>
     \<not> (tx_blockLimit t = Invalid256 \<or> nc_blockNumber nc \<ge> uint (tx_blockLimit t) \<or>
        uint (tx_blockLimit t) > s64 (nc_blockNumber nc + int (m_maxBlockLimit nc)))"

definition nonce_ok :: "transaction \<Rightarrow> tx_nonce_check \<Rightarrow> bool" where
  "nonce_ok t nc \<longleftrightarrow> isBlockLimitOk t nc \<and> isNonceOk t nc"

definition getAllNonces :: "commit_env \<Rightarrow> block \<Rightarrow> u256 list" where
  "getAllNonces ce b = map (ce_txNonce ce) (transactions b)"

definition getNonceAndUpdateCache ::
  "'c crypto_api_scheme \<Rightarrow> commit_env \<Rightarrow> int \<Rightarrow> bool \<Rightarrow> blockchain \<times> tx_nonce_check \<Rightarrow>
   u256 list option \<times> blockchain \<times> tx_nonce_check" where
  "getNonceAndUpdateCache cr ce i update s =
     (let (c, nc) = s;
          (vec, c1) =
            (case map_of (m_blockNonceCache nc) i of
               Some v \<Rightarrow> (v, c)
             | None \<Rightarrow>
                 if number c = i
                 then (let (b, c') = getBlockByNumber cr i c in (map_option (getAllNonces ce) b, c'))
                 else (getNonces i c, c));
          nc1 = (if update \<and> length (m_blockNonceCache nc) < m_maxBlockLimit nc
                 then nc\<lparr>m_blockNonceCache := AList.update i vec (m_blockNonceCache nc)\<rparr> else nc)
      in (vec, c1, nc1))"

text \<open>The bodies of the two loops of \<^verbatim>\<open>updateCache\<close>.\<close>

definition erase_block ::
  "'c crypto_api_scheme \<Rightarrow> commit_env \<Rightarrow> int \<Rightarrow> blockchain \<times> tx_nonce_check \<Rightarrow> blockchain \<times> tx_nonce_check" where
  "erase_block cr ce i s =
     (let (vec, c, nc) = getNonceAndUpdateCache cr ce i False s;
          nc1 = (case vec of None \<Rightarrow> nc | Some ns \<Rightarrow> nc\<lparr>nc_cache := fold removeAll ns (nc_cache nc)\<rparr>)
      in (c, nc1\<lparr>m_blockNonceCache := AList.delete i (m_blockNonceCache nc1)\<rparr>))"

definition insert_block ::
  "'c crypto_api_scheme \<Rightarrow> commit_env \<Rightarrow> int \<Rightarrow> blockchain \<times> tx_nonce_check \<Rightarrow> (blockchain \<times> tx_nonce_check) option" where
  "insert_block cr ce i s =
     (let (vec, c, nc) = getNonceAndUpdateCache cr ce i True s in
      case vec of
        None \<Rightarrow> None
      | Some ns \<Rightarrow> Some (c, nc\<lparr>nc_cache := fold List.insert ns (nc_cache nc)\<rparr>))"

fun insert_blocks ::
  "'c crypto_api_scheme \<Rightarrow> commit_env \<Rightarrow> int list \<Rightarrow> blockchain \<times> tx_nonce_check \<Rightarrow> (blockchain \<times> tx_nonce_check) option" where
  "insert_blocks cr ce [] s = Some s"
| "insert_blocks cr ce (i # is) s = Option.bind (insert_block cr ce i s) (insert_blocks cr ce is)"

definition updateCache ::
  "'c crypto_api_scheme \<Rightarrow> commit_env \<Rightarrow> bool \<Rightarrow> blockchain \<Rightarrow> tx_nonce_check \<Rightarrow> (blockchain \<times> tx_nonce_check) option" where
  "updateCache cr ce rebuild c nc =
     (let lastnumber = number c;
          prestartblk = m_startblk nc;
          startblk = (if lastnumber > int (m_maxBlockLimit nc) then lastnumber - int (m_maxBlockLimit nc) else 0);
          nc1 = nc\<lparr>nc_blockNumber := lastnumber, m_endblk := lastnumber, m_startblk := startblk\<rparr>;
          preendblk = (if rebuild then 0 else m_endblk nc);
          (c2, nc2) = (if rebuild then (c, nc1\<lparr>nc_cache := []\<rparr>)
                       else fold (erase_block cr ce) [prestartblk..startblk - 1] (c, nc1))
      in insert_blocks cr ce [max (preendblk + 1) startblk..lastnumber] (c2, nc2))"

definition nonce_init ::
  "'c crypto_api_scheme \<Rightarrow> commit_env \<Rightarrow> blockchain \<Rightarrow> tx_nonce_check \<Rightarrow> (blockchain \<times> tx_nonce_check) option" where
  "nonce_init cr ce c nc = updateCache cr ce True c (nc\<lparr>m_startblk := 0, m_endblk := 0\<rparr>)"

text \<open>The object before \<^verbatim>\<open>init\<close> runs in the constructor.\<close>

definition newNonceCheck :: tx_nonce_check where
  "newNonceCheck = \<lparr>nc_cache = [], m_blockNonceCache = [], m_startblk = 0, m_endblk = 0,
     m_maxBlockLimit = 1000, nc_blockNumber = 0\<rparr>"

section \<open>Invariant\<close>

definition block_nonces :: "commit_env \<Rightarrow> blockchain \<Rightarrow> int \<Rightarrow> u256 list" where
  "block_nonces ce c i = (case block_at i c of None \<Rightarrow> [] | Some b \<Rightarrow> getAllNonces ce b)"

text \<open>The nonce table holds the nonces of every block, and no nonce is used in two blocks.\<close>

definition nonces_stored :: "commit_env \<Rightarrow> blockchain \<Rightarrow> bool" where
  "nonces_stored ce c \<longleftrightarrow> (\<forall>i. 0 \<le> i \<longrightarrow> i \<le> number c \<longrightarrow> getNonces i c = Some (block_nonces ce c i))"

definition nonces_unique :: "commit_env \<Rightarrow> blockchain \<Rightarrow> bool" where
  "nonces_unique ce c \<longleftrightarrow> (\<forall>i j. 0 \<le> i \<longrightarrow> i < j \<longrightarrow> j \<le> number c \<longrightarrow>
     set (block_nonces ce c i) \<inter> set (block_nonces ce c j) = {})"

definition nonce_chain_ok :: "'c crypto_api_scheme \<Rightarrow> commit_env \<Rightarrow> blockchain \<Rightarrow> bool" where
  "nonce_chain_ok cr ce c \<longleftrightarrow> chain_ok cr c \<and> nonces_stored ce c"

definition block_nonce_cache_ok :: "commit_env \<Rightarrow> blockchain \<Rightarrow> tx_nonce_check \<Rightarrow> bool" where
  "block_nonce_cache_ok ce c nc \<longleftrightarrow> (\<forall>i v. map_of (m_blockNonceCache nc) i = Some v \<longrightarrow>
     0 \<le> i \<and> i \<le> number c \<and> v = Some (block_nonces ce c i))"

definition window_nonces :: "commit_env \<Rightarrow> blockchain \<Rightarrow> int \<Rightarrow> int \<Rightarrow> u256 set" where
  "window_nonces ce c s e = (\<Union>i \<in> {max 1 s..e}. set (block_nonces ce c i))"

definition nonce_check_ok :: "commit_env \<Rightarrow> blockchain \<Rightarrow> tx_nonce_check \<Rightarrow> bool" where
  "nonce_check_ok ce c nc \<longleftrightarrow> 0 \<le> m_endblk nc \<and> m_endblk nc \<le> number c \<and> nc_blockNumber nc = m_endblk nc \<and>
     m_startblk nc = max 0 (m_endblk nc - int (m_maxBlockLimit nc)) \<and>
     set (nc_cache nc) = window_nonces ce c (m_startblk nc) (m_endblk nc) \<and> block_nonce_cache_ok ce c nc"

section \<open>Reading the nonces of a block\<close>

lemma getBlockByNumber_frame [simp]:
  "number (snd (getBlockByNumber cr i c)) = number c"
  "tb_number2hash (snd (getBlockByNumber cr i c)) = tb_number2hash c"
  "tb_hash2block (snd (getBlockByNumber cr i c)) = tb_hash2block c"
  by (simp_all add: getBlockByNumber_def getBlock_number_def)

lemma getBlockByNumber_nonces [simp]: "tb_nonces (snd (getBlockByNumber cr i c)) = tb_nonces c"
  by (auto simp: getBlockByNumber_def getBlock_number_def getBlock_def blockCache_add_def Let_def split: option.split)

text \<open>Two chains with the same blocks and nonces.\<close>

definition same_blocks :: "blockchain \<Rightarrow> blockchain \<Rightarrow> bool" where
  "same_blocks c c' \<longleftrightarrow> number c' = number c \<and> tb_number2hash c' = tb_number2hash c \<and>
     tb_hash2block c' = tb_hash2block c \<and> tb_nonces c' = tb_nonces c"

lemma same_blocks_refl [simp]: "same_blocks c c"
  by (simp add: same_blocks_def)

lemma same_blocks_trans: "same_blocks a b \<Longrightarrow> same_blocks b c \<Longrightarrow> same_blocks a c"
  by (simp add: same_blocks_def)

lemma same_blocks_reads:
  assumes "same_blocks c c'"
  shows "number c' = number c" "block_nonces ce c' = block_nonces ce c" "getNonces i c' = getNonces i c"
    "nonces_stored ce c' = nonces_stored ce c" "window_nonces ce c' = window_nonces ce c"
    "block_nonce_cache_ok ce c' nc = block_nonce_cache_ok ce c nc" "nonces_unique ce c' = nonces_unique ce c"
    "nonce_check_ok ce c' nc = nonce_check_ok ce c nc"
proof -
  show n: "number c' = number c" using assms by (simp add: same_blocks_def)
  have "block_at i c' = block_at i c" for i
    using assms block_at_cong [of c' c i] by (simp add: same_blocks_def)
  then show b: "block_nonces ce c' = block_nonces ce c" by (simp add: block_nonces_def fun_eq_iff)
  show g: "getNonces i c' = getNonces i c" for i using assms by (simp add: same_blocks_def getNonces_def)
  show "nonces_stored ce c' = nonces_stored ce c" by (simp add: nonces_stored_def n b g)
  show w: "window_nonces ce c' = window_nonces ce c" by (simp add: window_nonces_def b fun_eq_iff)
  show bc: "block_nonce_cache_ok ce c' nc = block_nonce_cache_ok ce c nc" by (simp add: block_nonce_cache_ok_def n b)
  show "nonces_unique ce c' = nonces_unique ce c" by (simp add: nonces_unique_def n b)
  show "nonce_check_ok ce c' nc = nonce_check_ok ce c nc" by (simp add: nonce_check_ok_def n w bc)
qed

lemma getNonceAndUpdateCache_ok:
  assumes "nonce_chain_ok cr ce c" "block_nonce_cache_ok ce c nc" "0 \<le> i" "i \<le> number c"
  obtains c' nc' where "getNonceAndUpdateCache cr ce i u (c, nc) = (Some (block_nonces ce c i), c', nc')"
    "same_blocks c c'" "nonce_chain_ok cr ce c'" "block_nonce_cache_ok ce c' nc'"
    "nc' = nc\<lparr>m_blockNonceCache := m_blockNonceCache nc'\<rparr>"
proof -
  let ?c1 = "snd (getBlockByNumber cr i c)"
  have same: "same_blocks c ?c1" by (simp add: same_blocks_def)
  have ok1: "nonce_chain_ok cr ce ?c1"
    using assms(1) by (simp add: nonce_chain_ok_def chain_ok_getBlockByNumber same_blocks_reads(4) [OF same])
  have b: "map_option (getAllNonces ce) (fst (getBlockByNumber cr i c)) = Some (block_nonces ce c i)"
  proof -
    have "block_at i c \<noteq> None"
      using assms(1,3,4) unfolding nonce_chain_ok_def chain_ok_def linked_def block_at_def
      by (auto split: option.splits)
    then show ?thesis
      using assms(1) getBlockByNumber_transparent [of cr c i] by (auto simp: nonce_chain_ok_def block_nonces_def)
  qed
  have g: "getNonces i c = Some (block_nonces ce c i)"
    using assms(1,3,4) by (simp add: nonce_chain_ok_def nonces_stored_def)
  have hit: "v = Some (block_nonces ce c i)" if "map_of (m_blockNonceCache nc) i = Some v" for v
    using that assms(2) by (simp add: block_nonce_cache_ok_def)
  have upd: "block_nonce_cache_ok ce c (nc\<lparr>m_blockNonceCache := AList.update i (Some (block_nonces ce c i)) (m_blockNonceCache nc)\<rparr>)"
    using assms(2-4) by (simp add: block_nonce_cache_ok_def update_conv')
  define c1 where "c1 = (if map_of (m_blockNonceCache nc) i = None \<and> number c = i then ?c1 else c)"
  define nc1 where "nc1 = (if u \<and> length (m_blockNonceCache nc) < m_maxBlockLimit nc
    then nc\<lparr>m_blockNonceCache := AList.update i (Some (block_nonces ce c i)) (m_blockNonceCache nc)\<rparr> else nc)"
  have "getNonceAndUpdateCache cr ce i u (c, nc) = (Some (block_nonces ce c i), c1, nc1)"
    using b g hit
    by (cases "map_of (m_blockNonceCache nc) i")
       (auto simp: getNonceAndUpdateCache_def c1_def nc1_def Let_def split_beta)
  moreover have "same_blocks c c1" "nonce_chain_ok cr ce c1" using same ok1 assms(1) by (simp_all add: c1_def)
  moreover from this(1) have "block_nonce_cache_ok ce c1 nc1"
    using upd assms(2) by (simp add: same_blocks_reads nc1_def)
  moreover have "nc1 = nc\<lparr>m_blockNonceCache := m_blockNonceCache nc1\<rparr>" by (simp add: nc1_def)
  ultimately show ?thesis using that by blast
qed

section \<open>The two loops\<close>

lemma set_fold_removeAll [simp]: "set (fold removeAll ns xs) = set xs - set ns"
  by (induction ns arbitrary: xs) auto

lemma set_fold_insert [simp]: "set (fold List.insert ns xs) = set xs \<union> set ns"
  by (induction ns arbitrary: xs) auto

lemma erase_blocks_ok:
  assumes "nonce_chain_ok cr ce c" "block_nonce_cache_ok ce c nc" "\<forall>i \<in> set is. 0 \<le> i \<and> i \<le> number c"
  obtains c' nc' where "fold (erase_block cr ce) is (c, nc) = (c', nc')" "same_blocks c c'" "nonce_chain_ok cr ce c'"
    "block_nonce_cache_ok ce c' nc'" "set (nc_cache nc') = set (nc_cache nc) - (\<Union>i \<in> set is. set (block_nonces ce c i))"
    "nc' = nc\<lparr>nc_cache := nc_cache nc', m_blockNonceCache := m_blockNonceCache nc'\<rparr>"
  using assms
proof (induction "is" arbitrary: c nc thesis)
  case Nil
  then show ?case by simp
next
  case (Cons i "is")
  obtain c1 nc1 where g: "getNonceAndUpdateCache cr ce i False (c, nc) = (Some (block_nonces ce c i), c1, nc1)"
    "same_blocks c c1" "nonce_chain_ok cr ce c1" "block_nonce_cache_ok ce c1 nc1"
    "nc1 = nc\<lparr>m_blockNonceCache := m_blockNonceCache nc1\<rparr>"
    using getNonceAndUpdateCache_ok [OF Cons.prems(2,3)] Cons.prems(4) by (metis list.set_intros(1))
  define nc2 where "nc2 = nc1\<lparr>nc_cache := fold removeAll (block_nonces ce c i) (nc_cache nc1),
    m_blockNonceCache := AList.delete i (m_blockNonceCache nc1)\<rparr>"
  have e: "erase_block cr ce i (c, nc) = (c1, nc2)" by (simp add: erase_block_def g(1) nc2_def)
  have "block_nonce_cache_ok ce c1 nc2" using g(4) by (auto simp: block_nonce_cache_ok_def nc2_def delete_conv' split: if_splits)
  moreover have "\<forall>j \<in> set is. 0 \<le> j \<and> j \<le> number c1" using Cons.prems(4) same_blocks_reads(1) [OF g(2)] by simp
  ultimately obtain c' nc' where r: "fold (erase_block cr ce) is (c1, nc2) = (c', nc')" "same_blocks c1 c'"
    "nonce_chain_ok cr ce c'" "block_nonce_cache_ok ce c' nc'"
    "set (nc_cache nc') = set (nc_cache nc2) - (\<Union>i \<in> set is. set (block_nonces ce c1 i))"
    "nc' = nc2\<lparr>nc_cache := nc_cache nc', m_blockNonceCache := m_blockNonceCache nc'\<rparr>"
    using Cons.IH [OF _ g(3)] by metis
  have "nc_cache nc1 = nc_cache nc" using g(5) by (metis tx_nonce_check.select_convs(1) tx_nonce_check.surjective tx_nonce_check.update_convs(2))
  then have "set (nc_cache nc') = set (nc_cache nc) - (\<Union>i \<in> set (i # is). set (block_nonces ce c i))"
    using r(5) by (auto simp: nc2_def same_blocks_reads(2) [OF g(2)])
  moreover have "nc' = nc\<lparr>nc_cache := nc_cache nc', m_blockNonceCache := m_blockNonceCache nc'\<rparr>"
    by (subst r(6), subst nc2_def, subst g(5)) simp
  ultimately show ?case
    using Cons.prems(1) [of c' nc'] e r same_blocks_trans [OF g(2)] by simp
qed

lemma insert_blocks_ok:
  assumes "nonce_chain_ok cr ce c" "block_nonce_cache_ok ce c nc" "\<forall>i \<in> set is. 0 \<le> i \<and> i \<le> number c"
  obtains c' nc' where "insert_blocks cr ce is (c, nc) = Some (c', nc')" "same_blocks c c'" "nonce_chain_ok cr ce c'"
    "block_nonce_cache_ok ce c' nc'" "set (nc_cache nc') = set (nc_cache nc) \<union> (\<Union>i \<in> set is. set (block_nonces ce c i))"
    "nc' = nc\<lparr>nc_cache := nc_cache nc', m_blockNonceCache := m_blockNonceCache nc'\<rparr>"
  using assms
proof (induction "is" arbitrary: c nc thesis)
  case Nil
  then show ?case by simp
next
  case (Cons i "is")
  obtain c1 nc1 where g: "getNonceAndUpdateCache cr ce i True (c, nc) = (Some (block_nonces ce c i), c1, nc1)"
    "same_blocks c c1" "nonce_chain_ok cr ce c1" "block_nonce_cache_ok ce c1 nc1"
    "nc1 = nc\<lparr>m_blockNonceCache := m_blockNonceCache nc1\<rparr>"
    using getNonceAndUpdateCache_ok [OF Cons.prems(2,3)] Cons.prems(4) by (metis list.set_intros(1))
  define nc2 where "nc2 = nc1\<lparr>nc_cache := fold List.insert (block_nonces ce c i) (nc_cache nc1)\<rparr>"
  have e: "insert_block cr ce i (c, nc) = Some (c1, nc2)" by (simp add: insert_block_def g(1) nc2_def)
  have "block_nonce_cache_ok ce c1 nc2" using g(4) by (simp add: block_nonce_cache_ok_def nc2_def)
  moreover have "\<forall>j \<in> set is. 0 \<le> j \<and> j \<le> number c1" using Cons.prems(4) same_blocks_reads(1) [OF g(2)] by simp
  ultimately obtain c' nc' where r: "insert_blocks cr ce is (c1, nc2) = Some (c', nc')" "same_blocks c1 c'"
    "nonce_chain_ok cr ce c'" "block_nonce_cache_ok ce c' nc'"
    "set (nc_cache nc') = set (nc_cache nc2) \<union> (\<Union>i \<in> set is. set (block_nonces ce c1 i))"
    "nc' = nc2\<lparr>nc_cache := nc_cache nc', m_blockNonceCache := m_blockNonceCache nc'\<rparr>"
    using Cons.IH [OF _ g(3)] by metis
  have "nc_cache nc1 = nc_cache nc" using g(5) by (metis tx_nonce_check.select_convs(1) tx_nonce_check.surjective tx_nonce_check.update_convs(2))
  then have "set (nc_cache nc') = set (nc_cache nc) \<union> (\<Union>i \<in> set (i # is). set (block_nonces ce c i))"
    using r(5) by (auto simp: nc2_def same_blocks_reads(2) [OF g(2)])
  moreover have "nc' = nc\<lparr>nc_cache := nc_cache nc', m_blockNonceCache := m_blockNonceCache nc'\<rparr>"
    by (subst r(6), subst nc2_def, subst g(5)) simp
  ultimately show ?case
    using Cons.prems(1) [of c' nc'] e r same_blocks_trans [OF g(2)] by simp
qed

section \<open>The window\<close>

lemma window_slides:
  assumes "nonces_unique ce c" "0 \<le> s" "s \<le> s'" "0 \<le> e" "e \<le> n" "s \<le> e" "s' \<le> n" "n \<le> number c"
  shows "(window_nonces ce c s e - (\<Union>i \<in> {s..s' - 1}. set (block_nonces ce c i))) \<union>
    (\<Union>i \<in> {max (e + 1) s'..n}. set (block_nonces ce c i)) = window_nonces ce c s' n"
proof (rule set_eqI)
  fix x
  have uniq: "i = j" if "x \<in> set (block_nonces ce c i)" "x \<in> set (block_nonces ce c j)" "0 \<le> i" "0 \<le> j"
    "i \<le> number c" "j \<le> number c" for i j
    using assms(1) that unfolding nonces_unique_def by (metis disjoint_iff linorder_neqE)
  show "x \<in> (window_nonces ce c s e - (\<Union>i \<in> {s..s' - 1}. set (block_nonces ce c i))) \<union>
    (\<Union>i \<in> {max (e + 1) s'..n}. set (block_nonces ce c i)) \<longleftrightarrow> x \<in> window_nonces ce c s' n" (is "?l \<longleftrightarrow> ?r")
  proof
    assume ?l
    then consider i where "i \<in> {max 1 s..e}" "x \<in> set (block_nonces ce c i)" "\<not> i \<in> {s..s' - 1}"
      | i where "i \<in> {max (e + 1) s'..n}" "x \<in> set (block_nonces ce c i)"
      by (auto simp: window_nonces_def)
    then show ?r using assms by cases (auto simp: window_nonces_def intro!: bexI)
  next
    assume ?r
    then obtain i where i: "max 1 s' \<le> i" "i \<le> n" "x \<in> set (block_nonces ce c i)" by (auto simp: window_nonces_def)
    have "x \<notin> set (block_nonces ce c j)" if "j \<in> {s..s' - 1}" for j
      using uniq [of i j] i that assms by auto
    with i assms show ?l by (cases "i \<le> e") (auto simp: window_nonces_def intro!: bexI [of _ i])
  qed
qed

text \<open>The first half of \<^verbatim>\<open>updateCache\<close>: what is left in the cache before the new blocks are read.\<close>

lemma expire_ok:
  assumes chain: "nonce_chain_ok cr ce c" "nonces_unique ce c" and ok: "rebuild \<or> nonce_check_ok ce c nc"
    and s': "s' = max 0 (number c - int (m_maxBlockLimit nc))" and bc: "block_nonce_cache_ok ce c nc1"
    and nc1: "nc_cache nc1 = nc_cache nc" and pre: "pre = (if rebuild then 0 else m_endblk nc)"
  obtains c2 nc2 where "(if rebuild then (c, nc1\<lparr>nc_cache := []\<rparr>)
      else fold (erase_block cr ce) [m_startblk nc..s' - 1] (c, nc1)) = (c2, nc2)"
    "same_blocks c c2" "nonce_chain_ok cr ce c2" "block_nonce_cache_ok ce c2 nc2"
    "nc2 = nc1\<lparr>nc_cache := nc_cache nc2, m_blockNonceCache := m_blockNonceCache nc2\<rparr>"
    "set (nc_cache nc2) \<union> (\<Union>i \<in> {max (pre + 1) s'..number c}. set (block_nonces ce c i)) = window_nonces ce c s' (number c)"
proof (cases rebuild)
  case True
  with that [of c "nc1\<lparr>nc_cache := []\<rparr>"] chain bc pre show ?thesis
    by (simp add: window_nonces_def block_nonce_cache_ok_def)
next
  case False
  then have k: "nonce_check_ok ce c nc" using ok by simp
  then have ks: "0 \<le> m_startblk nc" "m_startblk nc \<le> s'" "m_startblk nc \<le> m_endblk nc" "0 \<le> m_endblk nc"
    "m_endblk nc \<le> number c" "s' \<le> number c"
    using s' by (auto simp: nonce_check_ok_def)
  have "\<forall>i \<in> set [m_startblk nc..s' - 1]. 0 \<le> i \<and> i \<le> number c" using ks by auto
  then obtain c2 nc2 where e: "fold (erase_block cr ce) [m_startblk nc..s' - 1] (c, nc1) = (c2, nc2)" "same_blocks c c2"
    "nonce_chain_ok cr ce c2" "block_nonce_cache_ok ce c2 nc2"
    "set (nc_cache nc2) = set (nc_cache nc1) - (\<Union>i \<in> set [m_startblk nc..s' - 1]. set (block_nonces ce c i))"
    "nc2 = nc1\<lparr>nc_cache := nc_cache nc2, m_blockNonceCache := m_blockNonceCache nc2\<rparr>"
    using erase_blocks_ok [OF chain(1) bc] by blast
  have "set (nc_cache nc1) = window_nonces ce c (m_startblk nc) (m_endblk nc)"
    using k by (simp add: nonce_check_ok_def nc1)
  then have "set (nc_cache nc2) \<union> (\<Union>i \<in> {max (pre + 1) s'..number c}. set (block_nonces ce c i)) = window_nonces ce c s' (number c)"
    using e(5) window_slides [OF chain(2) ks(1,2,4,5,3,6) order_refl] False pre by (simp only: set_upto) simp
  with that [of c2 nc2] False e show ?thesis by simp
qed

lemma updateCache_ok:
  assumes chain: "nonce_chain_ok cr ce c" "nonces_unique ce c"
    and ok: "rebuild \<and> m_blockNonceCache nc = [] \<or> nonce_check_ok ce c nc"
  obtains c' nc' where "updateCache cr ce rebuild c nc = Some (c', nc')" "same_blocks c c'" "nonce_chain_ok cr ce c'"
    "nonce_check_ok ce c' nc'" "m_endblk nc' = number c" "m_maxBlockLimit nc' = m_maxBlockLimit nc"
proof -
  have n0: "0 \<le> number c" using chain by (simp add: nonce_chain_ok_def chain_ok_def linked_def)
  define s' where "s' = (if number c > int (m_maxBlockLimit nc) then number c - int (m_maxBlockLimit nc) else 0)"
  have s': "0 \<le> s'" "s' = max 0 (number c - int (m_maxBlockLimit nc))" using n0 by (auto simp: s'_def)
  define nc1 where "nc1 = nc\<lparr>nc_blockNumber := number c, m_endblk := number c, m_startblk := s'\<rparr>"
  define pre where "pre = (if rebuild then 0 else m_endblk nc)"
  have "block_nonce_cache_ok ce c nc1" "nc_cache nc1 = nc_cache nc"
    using ok by (auto simp: nonce_check_ok_def block_nonce_cache_ok_def nc1_def)
  then obtain c2 nc2 where m: "(if rebuild then (c, nc1\<lparr>nc_cache := []\<rparr>)
      else fold (erase_block cr ce) [m_startblk nc..s' - 1] (c, nc1)) = (c2, nc2)"
    and m2: "same_blocks c c2" "nonce_chain_ok cr ce c2" "block_nonce_cache_ok ce c2 nc2"
    "nc2 = nc1\<lparr>nc_cache := nc_cache nc2, m_blockNonceCache := m_blockNonceCache nc2\<rparr>"
    "set (nc_cache nc2) \<union> (\<Union>i \<in> {max (pre + 1) s'..number c}. set (block_nonces ce c i)) = window_nonces ce c s' (number c)"
    using expire_ok [OF chain _ s'(2) _ _ pre_def] ok by blast
  have "\<forall>i \<in> set [max (pre + 1) s'..number c]. 0 \<le> i \<and> i \<le> number c2"
    using s' same_blocks_reads(1) [OF m2(1)] by auto
  then obtain c' nc' where r: "insert_blocks cr ce [max (pre + 1) s'..number c] (c2, nc2) = Some (c', nc')" "same_blocks c2 c'"
    "nonce_chain_ok cr ce c'" "block_nonce_cache_ok ce c' nc'"
    "set (nc_cache nc') = set (nc_cache nc2) \<union> (\<Union>i \<in> set [max (pre + 1) s'..number c]. set (block_nonces ce c2 i))"
    "nc' = nc2\<lparr>nc_cache := nc_cache nc', m_blockNonceCache := m_blockNonceCache nc'\<rparr>"
    using insert_blocks_ok [OF m2(2,3)] by blast
  have same: "same_blocks c c'" using m2(1) r(2) by (rule same_blocks_trans)
  have f: "nc' = nc1\<lparr>nc_cache := nc_cache nc', m_blockNonceCache := m_blockNonceCache nc'\<rparr>"
    by (subst r(6), subst m2(4)) simp
  have g: "m_endblk nc' = number c" "m_maxBlockLimit nc' = m_maxBlockLimit nc" "m_startblk nc' = s'" "nc_blockNumber nc' = number c"
    by (subst f, simp add: nc1_def)+
  have "set (nc_cache nc') = window_nonces ce c s' (number c)"
    unfolding r(5) using m2(5) by (simp add: same_blocks_reads(2) [OF m2(1)])
  then have "nonce_check_ok ce c' nc'"
    using r(4) n0 s'(2) by (simp add: nonce_check_ok_def g same_blocks_reads [OF same])
  moreover have "updateCache cr ce rebuild c nc = Some (c', nc')"
    using r(1) m by (auto simp: updateCache_def Let_def s'_def [symmetric] nc1_def [symmetric] pre_def [symmetric] split: if_splits)
  ultimately show ?thesis using that same r(3) g by blast
qed

section \<open>Committing blocks\<close>

definition fresh_nonces :: "commit_env \<Rightarrow> block \<Rightarrow> blockchain \<Rightarrow> bool" where
  "fresh_nonces ce b c \<longleftrightarrow> (\<forall>i. 0 \<le> i \<longrightarrow> i \<le> number c \<longrightarrow> set (getAllNonces ce b) \<inter> set (block_nonces ce c i) = {})"

lemma tb_nonces_commitBlock:
  assumes "fst (commitBlock cr ce db b c) = COMMIT_OK"
  shows "tb_nonces (snd (commitBlock cr ce db b c)) = AList.update (number c + 1) (getAllNonces ce b) (tb_nonces c)"
proof -
  from assms obtain sys where "snd (commitBlock cr ce db b c) = blockCache_add cr b
        (writeHash2BlockHeader cr b (writeTxToBlock ce b (writeTotalTransactionCount ce b
           (writeNumber b (writeNumber2Hash cr b (writeHash2Block cr b c)))))
         \<lparr>tb_sys := sys, m_blockNumber := m_number (blockHeader b)\<rparr>)"
      "m_number (blockHeader b) = number c + 1" by (rule commitBlock_OK)
  then show ?thesis by (simp add: blockCache_add_def write_defs Let_def getAllNonces_def)
qed

lemma block_nonces_commitBlock:
  assumes "chain_ok cr c" "committable cr b c" "fst (commitBlock cr ce db b c) = COMMIT_OK"
  shows "block_nonces ce (snd (commitBlock cr ce db b c)) i =
    (if i = number c + 1 then getAllNonces ce b else block_nonces ce c i)"
proof -
  have n0: "0 \<le> number c" using assms(1) by (simp add: chain_ok_def linked_def)
  note t = commitBlock_tables [OF assms(3) n0]
  show ?thesis
    using block_at_commitBlock [OF assms(1,2), of i ce db] t
    by (cases "i \<le> number c") (auto simp: block_nonces_def block_at_def update_conv')
qed

lemma nonce_commit:
  assumes "nonce_chain_ok cr ce c" "nonces_unique ce c" "committable cr b c" "fresh_nonces ce b c"
  shows "nonce_chain_ok cr ce (snd (commitBlock cr ce db b c))" "nonces_unique ce (snd (commitBlock cr ce db b c))"
    "nonce_check_ok ce c nc \<Longrightarrow> nonce_check_ok ce (snd (commitBlock cr ce db b c)) nc"
proof -
  let ?c = "snd (commitBlock cr ce db b c)"
  have ok: "chain_ok cr c" and n0: "0 \<le> number c"
    using assms(1) by (auto simp: nonce_chain_ok_def chain_ok_def linked_def)
  have "nonce_chain_ok cr ce ?c \<and> nonces_unique ce ?c \<and> (nonce_check_ok ce c nc \<longrightarrow> nonce_check_ok ce ?c nc)"
  proof (cases "fst (commitBlock cr ce db b c) = COMMIT_OK")
    case True
    note n = commitBlock_tables(1) [OF True n0] and bn = block_nonces_commitBlock [OF ok assms(3) True]
    have "nonces_stored ce ?c"
      using assms(1) by (auto simp: nonce_chain_ok_def nonces_stored_def getNonces_def n bn tb_nonces_commitBlock [OF True] update_conv')
    moreover have "nonces_unique ce ?c"
      using assms(2,4) by (auto simp: nonces_unique_def fresh_nonces_def n bn)
    moreover have "window_nonces ce ?c x y = window_nonces ce c x y" if "y \<le> number c" for x y
      using that by (auto simp: window_nonces_def bn)
    ultimately show ?thesis
      using chain_ok_commitBlock [OF ok assms(3)] n
      by (auto simp: nonce_chain_ok_def nonce_check_ok_def block_nonce_cache_ok_def bn) fastforce+
  qed (use assms in \<open>simp add: commitBlock_error\<close>)
  then show "nonce_chain_ok cr ce ?c" "nonces_unique ce ?c" "nonce_check_ok ce c nc \<Longrightarrow> nonce_check_ok ce ?c nc"
    by blast+
qed

text \<open>
  The histories of the chain and the checker: the checker is made on some chain, blocks are
  committed (new ones, that repeat no nonce of an earlier block), and \<^verbatim>\<open>dropBlockTrans\<close> calls
  \<^verbatim>\<open>updateCache\<close> at any time.
\<close>

inductive nonce_reach :: "'c crypto_api_scheme \<Rightarrow> commit_env \<Rightarrow> blockchain \<Rightarrow> tx_nonce_check \<Rightarrow> bool"
  for cr :: "'c crypto_api_scheme" and ce where
  init: "nonce_chain_ok cr ce c \<Longrightarrow> nonces_unique ce c \<Longrightarrow> nonce_init cr ce c newNonceCheck = Some (c', nc') \<Longrightarrow>
    nonce_reach cr ce c' nc'"
| commit: "nonce_reach cr ce c nc \<Longrightarrow> committable cr b c \<Longrightarrow> fresh_nonces ce b c \<Longrightarrow>
    nonce_reach cr ce (snd (commitBlock cr ce db b c)) nc"
| update: "nonce_reach cr ce c nc \<Longrightarrow> updateCache cr ce False c nc = Some (c', nc') \<Longrightarrow> nonce_reach cr ce c' nc'"

lemma nonce_init_ok:
  assumes "nonce_chain_ok cr ce c" "nonces_unique ce c"
  obtains c' nc' where "nonce_init cr ce c newNonceCheck = Some (c', nc')" "same_blocks c c'" "nonce_chain_ok cr ce c'"
    "nonce_check_ok ce c' nc'" "m_endblk nc' = number c" "m_maxBlockLimit nc' = 1000"
proof -
  let ?nc = "newNonceCheck\<lparr>m_startblk := 0, m_endblk := 0\<rparr>"
  have "m_blockNonceCache ?nc = []" "m_maxBlockLimit ?nc = 1000" by (simp_all add: newNonceCheck_def)
  then show ?thesis
    using updateCache_ok [OF assms, of True ?nc] that unfolding nonce_init_def by metis
qed

lemma nonce_reach_inv:
  "nonce_reach cr ce c nc \<Longrightarrow>
     nonce_chain_ok cr ce c \<and> nonces_unique ce c \<and> nonce_check_ok ce c nc \<and> m_maxBlockLimit nc = 1000"
proof (induction rule: nonce_reach.induct)
  case (init c c' nc')
  from nonce_init_ok [OF init(1,2)] init(2,3) show ?case
    by (metis Pair_inject option.inject same_blocks_reads(7))
next
  case (commit c nc b db)
  then show ?case using nonce_commit by metis
next
  case (update c nc c' nc')
  then have "nonce_chain_ok cr ce c" "nonces_unique ce c" "nonce_check_ok ce c nc" "m_maxBlockLimit nc = 1000" by simp_all
  from updateCache_ok [OF this(1,2), of False nc] this update(2) show ?case
    by (metis Pair_inject option.inject same_blocks_reads(7))
qed

text \<open>A transaction of a committed block fails one of the two checks, at every later height.\<close>

lemma committed_nonce_not_ok:
  assumes "nonce_reach cr ce c nc" "m_endblk nc = number c" "block_at i c = Some b" "1 \<le> i"
    and "tx_nonce t \<in> set (getAllNonces ce b)" "uint (tx_blockLimit t) \<le> i - 1 + 1000"
  shows "\<not> nonce_ok t nc"
proof -
  have inv: "nonce_check_ok ce c nc" "m_maxBlockLimit nc = 1000" using nonce_reach_inv [OF assms(1)] by simp_all
  have "i \<le> number c" using assms(3) by (auto simp: block_at_def split: if_splits)
  show ?thesis
  proof (cases "m_startblk nc \<le> i")
    case True
    then have "tx_nonce t \<in> set (nc_cache nc)"
      using inv(1) assms \<open>i \<le> number c\<close> by (auto simp: nonce_check_ok_def window_nonces_def block_nonces_def intro!: bexI [of _ i])
    then show ?thesis by (simp add: nonce_ok_def isNonceOk_def common_isNonceOk_def)
  next
    case False
    then have "uint (tx_blockLimit t) \<le> nc_blockNumber nc"
      using inv assms(2,4,6) by (auto simp: nonce_check_ok_def max_def split: if_splits)
    then show ?thesis by (simp add: nonce_ok_def isBlockLimitOk_def)
  qed
qed

section \<open>Properties\<close>


definition demo_tx_block :: block where
  "demo_tx_block = (demo_block 1 1)\<lparr>transactions := [[1]]\<rparr>"

abbreviation demo_chain :: blockchain where
  "demo_chain \<equiv> genesis_chain demo_cr (demo_block 0 0) demo_sys"

lemma demo_chain_nonces: "nonce_chain_ok demo_cr ce demo_chain" "nonces_unique ce demo_chain"
  "block_nonces ce demo_chain i = []"
proof -
  show b: "block_nonces ce demo_chain i = []" for i
    by (auto simp: block_nonces_def block_at_def getAllNonces_def demo_block_def emptyBlock_def)
  show "nonce_chain_ok demo_cr ce demo_chain" "nonces_unique ce demo_chain"
    using chain_ok_demo by (auto simp: nonce_chain_ok_def nonces_stored_def nonces_unique_def b getNonces_def)
      (simp_all add: genesis_chain_def)
qed

lemma demo_tx_block_hash: "headerHash demo_cr demo_tx_block = 2"
  using demo_hashes(2) by (simp add: demo_tx_block_def headerHash_def)

lemma demo_nonce_reach:
  obtains c nc where "nonce_reach demo_cr demo_ce c nc" "number c = 1" "block_at 1 c = Some demo_tx_block" "m_endblk nc = 1"
proof -
  obtain c0 nc0 where c0: "nonce_init demo_cr demo_ce demo_chain newNonceCheck = Some (c0, nc0)" "same_blocks demo_chain c0"
    "nonce_chain_ok demo_cr demo_ce c0"
    using nonce_init_ok [OF demo_chain_nonces(1,2)] by blast
  have r0: "nonce_reach demo_cr demo_ce c0 nc0" using demo_chain_nonces(1,2) c0(1) by (rule nonce_reach.init)
  have n: "number c0 = 0" "tb_number2hash c0 = [(0, 1)]" "tb_hash2block c0 = [(1, demo_block 0 0)]"
    using c0(2) by (simp_all add: same_blocks_def demo_hashes)
  let ?r = "commitBlock demo_cr demo_ce (\<lambda>_ t. Some t) demo_tx_block c0"
  have ok: "fst ?r = COMMIT_OK"
    using n by (simp add: commitBlock_def isBlockShouldCommit_def numberHash_def Let_def)
      (simp add: demo_tx_block_def demo_block_def demo_header_def)
  have "committable demo_cr demo_tx_block c0" "fresh_nonces demo_ce demo_tx_block c0"
    using n demo_chain_nonces(3) [of demo_ce]
    by (simp_all add: committable_def demo_tx_block_hash fresh_nonces_def same_blocks_reads(2) [OF c0(2)])
  then have r1: "nonce_reach demo_cr demo_ce (snd ?r) nc0" using r0 by (intro nonce_reach.commit)
  note t = commitBlock_tables [OF ok, unfolded n demo_tx_block_hash, simplified]
  from nonce_reach_inv [OF r1] obtain c' nc' where u: "updateCache demo_cr demo_ce False (snd ?r) nc0 = Some (c', nc')"
    "same_blocks (snd ?r) c'" "m_endblk nc' = number (snd ?r)"
    using updateCache_ok [of demo_cr demo_ce "snd ?r" False nc0] by blast
  have "number c' = 1" "block_at 1 c' = Some demo_tx_block"
    using u(2) t by (simp_all add: same_blocks_def block_at_def)
  with that [of c' nc'] nonce_reach.update [OF r1 u(1)] u(3) t show ?thesis by simp
qed


end
