(* ===== verification/TxPool.thy ===== *)
theory TxPool
  imports NonceCheck
begin

text \<open>
  The transaction pool, \<^verbatim>\<open>libtxpool/TxPool.cpp\<close> and \<^verbatim>\<open>TxPool.h\<close>.

  \<^item> \<open>tp_txsQueue\<close> is the queue together with \<^verbatim>\<open>m_txsHash\<close>, which the code always changes together
    with it: its entries are the hash under which \<^verbatim>\<open>m_txsHash\<close> knows a transaction, and the
    transaction.  The comparison of the \<^verbatim>\<open>std::set\<close> is \<^verbatim>\<open><=\<close> on import times; the search of the
    standard library then puts a new element in front of those with the same time.
  \<^item> A transaction is a value: the memos that \<^verbatim>\<open>sha3()\<close> and \<^verbatim>\<open>sender()\<close> leave in it do not change what
    they return and are not written back.
  \<^item> The lambdas given to \<^verbatim>\<open>m_submitPool\<close> and \<^verbatim>\<open>m_workerPool\<close> are the list \<open>tp_tasks\<close>, from which any
    one may run next; the answers to RPC clients are the list \<open>tp_replies\<close>, newest first.
  \<^item> Memory sizes are mathematical integers: they stay below \<^verbatim>\<open>m_maxMemoryLimit\<close>.

  \<^verbatim>\<open>verifyAndSetSenderForBlock\<close> and \<^verbatim>\<open>initPartiallyBlock\<close> fill in blocks of decoded transactions,
  which the block model does not have, and are left out.  Shown: the invariant of the pool, what
  \<^verbatim>\<open>topTransactions\<close> returns, that a committed transaction is neither imported nor packed again, and
  two defects: a transaction of another chain burns its nonce, and the hash of an expired
  transaction is never taken out of the filter.
\<close>

section \<open>State\<close>

datatype ImportResult =
    Success | UnknownParent | FutureTimeKnown | FutureTimeUnknown | AlreadyInChain | AlreadyKnown | Malformed
  | BadChain | ZeroSignature | TransactionNonceCheckFail
  | TxPoolNonceCheckFail | TransactionPoolIsFull | InvalidChainId | InvalidGroupId
  | BlockLimitCheckFailed | NotBelongToTheGroup | TransactionRefused | OverGroupMemoryLimit

datatype IfDropped = Ignore | Retry

datatype TransactionException =
    TE_RequestNotBelongToTheGroup | TE_BlockLimitCheckFail | TE_NonceCheckFail | TE_TxPoolIsFull
  | TE_AlreadyKnown | TE_AlreadyInChain | TE_InvalidChainId | TE_InvalidGroupId | TE_MalformedTx
  | TE_OverGroupMemoryLimit | TE_TransactionRefused

datatype reply = Mined block nat | Failed TransactionException

datatype pool_task = SubmitTask transaction | DropBlockTxsFilterTask block | RemoveInvalidTxsTask

type_synonym pool_entry = "h256 \<times> transaction"

record tx_pool =
  tp_txNonceCheck :: tx_nonce_check
  tp_poolNonces :: "u256 list"
  tp_limit :: nat
  tp_groupId :: u256
  tp_txsQueue :: "pool_entry list"
  tp_txsHashFilter :: "h256 list"
  tp_dropped :: "h256 list"
  tp_invalidTxs :: "(h256 \<times> u256) list"
  tp_usedMemorySize :: int
  tp_maxMemoryLimit :: int
  tp_tasks :: "pool_task list"
  tp_replies :: "(h256 \<times> reply) list"
  tp_onReady :: nat

text \<open>
  \<open>pe_syncStatus\<close> is the answer of \<^verbatim>\<open>m_syncStatusChecker\<close>, if one is registered; \<open>tp_onReady\<close> counts the calls of
  \<^verbatim>\<open>m_onReady\<close>.
\<close>

record pool_env =
  pe_api :: tx_api
  pe_ce :: commit_env
  pe_chainId :: u256
  pe_nodeId :: h512
  pe_utcTime :: nat
  pe_syncStatus :: "bool option"

definition newTxPool :: "tx_nonce_check \<Rightarrow> nat \<Rightarrow> u256 \<Rightarrow> tx_pool" where
  "newTxPool nc limit groupId = \<lparr>tp_txNonceCheck = nc, tp_poolNonces = [], tp_limit = limit, tp_groupId = groupId,
     tp_txsQueue = [], tp_txsHashFilter = [], tp_dropped = [], tp_invalidTxs = [], tp_usedMemorySize = 0,
     tp_maxMemoryLimit = 512 * 1024 * 1024, tp_tasks = [], tp_replies = [], tp_onReady = 0\<rparr>"

section \<open>Importing\<close>

definition txPoolNonceCheck :: "transaction \<Rightarrow> tx_pool \<Rightarrow> bool \<times> tx_pool" where
  "txPoolNonceCheck t p =
     (let (ok, cache) = common_isNonceOk (tx_nonce t) True (tp_poolNonces p) in (ok, p\<lparr>tp_poolNonces := cache\<rparr>))"

definition pool_verify :: "pool_env \<Rightarrow> transaction \<Rightarrow> IfDropped \<Rightarrow> tx_pool \<Rightarrow> (tx_error + ImportResult) \<times> tx_pool" where
  "pool_verify env t dropPolicy p =
     (case tx_hash (pe_api env) t of
        Inl e \<Rightarrow> (Inl e, p)
      | Inr h \<Rightarrow>
          if map_of (tp_txsQueue p) h \<noteq> None then (Inr AlreadyKnown, p)
          else if h \<in> set (tp_dropped p) \<and> dropPolicy = Ignore then (Inr AlreadyInChain, p)
          else if tx_nonce t = Invalid256 \<or> \<not> isNonceOk t (tp_txNonceCheck p)
          then (Inr TransactionNonceCheckFail, p)
          else if \<not> isBlockLimitOk t (tp_txNonceCheck p) then (Inr BlockLimitCheckFailed, p)
          else (case tx_from (pe_api env) t of
                  Inl _ \<Rightarrow> (Inr Malformed, p)
                | Inr _ \<Rightarrow>
                    (let (ok, p1) = txPoolNonceCheck t p in
                     if \<not> ok then (Inr TxPoolNonceCheckFail, p1)
                     else if \<not> checkChainId (pe_api env) (pe_chainId env) t then (Inr InvalidChainId, p1)
                     else if \<not> checkGroupId (pe_api env) (tp_groupId p1) t then (Inr InvalidGroupId, p1)
                     else (Inr Success, p1))))"

text \<open>The position \<^verbatim>\<open>std::set::emplace\<close> finds with the comparison \<^verbatim>\<open><=\<close>.\<close>

fun queue_emplace :: "pool_entry \<Rightarrow> pool_entry list \<Rightarrow> pool_entry list" where
  "queue_emplace x [] = [x]"
| "queue_emplace x (y # ys) =
     (if tx_importTime (snd x) \<le> tx_importTime (snd y) then x # y # ys else y # queue_emplace x ys)"

definition pool_insert :: "h256 \<Rightarrow> transaction \<Rightarrow> tx_pool \<Rightarrow> bool \<times> tx_pool" where
  "pool_insert h t p =
     (if map_of (tp_txsQueue p) h \<noteq> None then (False, p)
      else (True, p\<lparr>tp_txsQueue := queue_emplace (h, t) (tp_txsQueue p)\<rparr>))"

definition pool_import :: "pool_env \<Rightarrow> transaction \<Rightarrow> IfDropped \<Rightarrow> tx_pool \<Rightarrow> (tx_error + ImportResult) \<times> tx_pool" where
  "pool_import env t0 ik p =
     (let t = t0\<lparr>tx_importTime := of_nat (pe_utcTime env)\<rparr> in
      if tp_usedMemorySize p + int (capacity t) > tp_maxMemoryLimit p then (Inr OverGroupMemoryLimit, p)
      else if length (tp_txsQueue p) \<ge> tp_limit p then (Inr TransactionPoolIsFull, p)
      else
        (let (ret, p1) = pool_verify env t Ignore p in
         case (ret, tx_hash (pe_api env) t) of
           (Inr Success, Inr h) \<Rightarrow>
             (let (inserted, p2) = pool_insert h t p1;
                  p3 = (if inserted
                        then p2\<lparr>tp_poolNonces := insertCache (tx_nonce t) (tp_poolNonces p2),
                                tp_usedMemorySize := tp_usedMemorySize p2 + int (capacity t)\<rparr>
                        else p2);
                  p4 = p3\<lparr>tp_txsHashFilter := List.insert h (tp_txsHashFilter p3)\<rparr>
              in (ret, p4\<lparr>tp_onReady := Suc (tp_onReady p4)\<rparr>))
         | _ \<Rightarrow> (ret, p1)))"

section \<open>Submitting\<close>

fun exceptionOf :: "ImportResult \<Rightarrow> TransactionException" where
  "exceptionOf NotBelongToTheGroup = TE_RequestNotBelongToTheGroup"
| "exceptionOf BlockLimitCheckFailed = TE_BlockLimitCheckFail"
| "exceptionOf TransactionNonceCheckFail = TE_NonceCheckFail"
| "exceptionOf TransactionPoolIsFull = TE_TxPoolIsFull"
| "exceptionOf TxPoolNonceCheckFail = TE_NonceCheckFail"
| "exceptionOf AlreadyKnown = TE_AlreadyKnown"
| "exceptionOf AlreadyInChain = TE_AlreadyInChain"
| "exceptionOf InvalidChainId = TE_InvalidChainId"
| "exceptionOf InvalidGroupId = TE_InvalidGroupId"
| "exceptionOf Malformed = TE_MalformedTx"
| "exceptionOf OverGroupMemoryLimit = TE_OverGroupMemoryLimit"
| "exceptionOf _ = TE_TransactionRefused"

definition hash_or_0 :: "pool_env \<Rightarrow> transaction \<Rightarrow> h256" where
  "hash_or_0 env t = (case tx_hash (pe_api env) t of Inl _ \<Rightarrow> 0 | Inr h \<Rightarrow> h)"

definition notifyReceipt :: "pool_env \<Rightarrow> transaction \<Rightarrow> ImportResult \<Rightarrow> tx_pool \<Rightarrow> tx_pool" where
  "notifyReceipt env t ret p =
     (if \<not> tx_rpcCallback t then p
      else p\<lparr>tp_replies := (hash_or_0 env t, Failed (exceptionOf ret)) # tp_replies p\<rparr>)"

definition isSealerOrObserver :: "pool_env \<Rightarrow> blockchain \<Rightarrow> bool \<times> blockchain" where
  "isSealerOrObserver env c =
     (let (sealers, c1) = bc_sealerList c; (observers, c2) = observerList c1
      in (pe_nodeId env \<in> set (sealers @ observers), c2))"

definition submit :: "transaction \<Rightarrow> tx_pool \<Rightarrow> tx_pool" where
  "submit t p = p\<lparr>tp_tasks := tp_tasks p @ [SubmitTask t]\<rparr>"

text \<open>The lambda of \<^verbatim>\<open>submit\<close>; an exception ends it and only leaves a line in the log.\<close>

definition run_submit :: "pool_env \<Rightarrow> transaction \<Rightarrow> blockchain \<Rightarrow> tx_pool \<Rightarrow> blockchain \<times> tx_pool" where
  "run_submit env t c p =
     (let (member, c1) = isSealerOrObserver env c in
      if \<not> member then (c1, notifyReceipt env t NotBelongToTheGroup p)
      else if pe_syncStatus env = Some False then (c1, notifyReceipt env t TransactionRefused p)
      else (case pool_import env t Ignore p of
              (Inl _, p1) \<Rightarrow> (c1, p1)
            | (Inr ret, p1) \<Rightarrow> (c1, if ret = Success then p1 else notifyReceipt env t ret p1)))"

datatype submit_error = SubmitThrows tx_error | SubmitRefused ImportResult

definition submitTransactions :: "pool_env \<Rightarrow> transaction \<Rightarrow> tx_pool \<Rightarrow> (submit_error + (h256 \<times> Address)) \<times> tx_pool" where
  "submitTransactions env t p =
     (case pool_import env t Ignore p of
        (Inl e, p1) \<Rightarrow> (Inl (SubmitThrows e), p1)
      | (Inr ret, p1) \<Rightarrow> (if ret = Success
                          then Inr (hash_or_0 env t, toAddress (pe_api env) (safeSender (pe_api env) t) (tx_nonce t))
                          else Inl (SubmitRefused ret), p1))"

section \<open>Removing\<close>

definition removeTrans :: "h256 \<Rightarrow> bool \<Rightarrow> block option \<Rightarrow> nat \<Rightarrow> tx_pool \<Rightarrow> tx_pool" where
  "removeTrans h needTriggerCallback b index p =
     (case map_of (tp_txsQueue p) h of
        None \<Rightarrow> p
      | Some t \<Rightarrow>
          (let p1 = p\<lparr>tp_txsQueue := AList.delete h (tp_txsQueue p),
                      tp_usedMemorySize := tp_usedMemorySize p - int (capacity t)\<rparr>
           in if needTriggerCallback \<and> tx_rpcCallback t
              then (let r = (case b of
                               Some b' \<Rightarrow> if length (transactionReceipts b') > index then Mined b' index
                                          else Failed TE_TransactionRefused
                             | None \<Rightarrow> Failed TE_TransactionRefused)
                    in p1\<lparr>tp_replies := (h, r) # tp_replies p1\<rparr>)
              else p1))"

definition drop_tx :: "h256 \<Rightarrow> tx_pool \<Rightarrow> bool \<times> tx_pool" where
  "drop_tx h p =
     (if map_of (tp_txsQueue p) h = None then (False, p)
      else (True, removeTrans h True None 0
              (p\<lparr>tp_dropped := (if length (tp_dropped p) < tp_limit p then List.insert h (tp_dropped p) else [])\<rparr>)))"

definition dropTransactions :: "pool_env \<Rightarrow> block \<Rightarrow> tx_pool \<Rightarrow> tx_pool" where
  "dropTransactions env b p =
     (if getTransactionSize b = 0 then p
      else
        (let p1 = fold (\<lambda>i p. let h = ce_txHash (pe_ce env) (transactions b ! i);
                                   p' = removeTrans h True (Some b) i p
                               in p'\<lparr>tp_invalidTxs := AList.delete h (tp_invalidTxs p')\<rparr>)
                    [0..<length (transactions b)] p
         in p1\<lparr>tp_tasks := tp_tasks p1 @ [DropBlockTxsFilterTask b, RemoveInvalidTxsTask]\<rparr>))"

definition dropBlockTxsFilter :: "pool_env \<Rightarrow> block \<Rightarrow> tx_pool \<Rightarrow> tx_pool" where
  "dropBlockTxsFilter env b p =
     p\<lparr>tp_txsHashFilter := fold (\<lambda>t. removeAll (ce_txHash (pe_ce env) t)) (transactions b) (tp_txsHashFilter p)\<rparr>"

text \<open>The loop body of the first lambda of \<^verbatim>\<open>removeInvalidTxs\<close>.\<close>

definition drop_invalid :: "h256 \<times> u256 \<Rightarrow> tx_pool \<Rightarrow> tx_pool" where
  "drop_invalid item p =
     (let p' = removeTrans (fst item) True None 0 p in p'\<lparr>tp_dropped := List.insert (fst item) (tp_dropped p')\<rparr>)"

text \<open>
  The third lambda erases \<^verbatim>\<open>item.second\<close>, the nonce converted to a hash, from the filter of hashes.
\<close>

definition removeInvalidTxs :: "tx_pool \<Rightarrow> tx_pool" where
  "removeInvalidTxs p =
     (if tp_invalidTxs p = [] then p
      else
        (let p1 = fold drop_invalid (tp_invalidTxs p) p
         in p1\<lparr>tp_poolNonces := fold (\<lambda>(_, nonce). delCache_nonce nonce) (tp_invalidTxs p) (tp_poolNonces p1),
               tp_txsHashFilter := fold (\<lambda>(_, nonce). removeAll nonce) (tp_invalidTxs p) (tp_txsHashFilter p1),
               tp_invalidTxs := []\<rparr>))"

definition handleBadBlock :: "block \<Rightarrow> tx_pool \<Rightarrow> bool \<times> tx_pool" where
  "handleBadBlock b p = (True, p)"

definition dropBlockTrans :: "'c crypto_api_scheme \<Rightarrow> pool_env \<Rightarrow> block \<Rightarrow> blockchain \<Rightarrow> tx_pool \<Rightarrow> (blockchain \<times> tx_pool) option" where
  "dropBlockTrans cr env b c p =
     Option.bind (updateCache cr (pe_ce env) False c (tp_txNonceCheck p)) (\<lambda>(c1, nc).
       let p1 = dropTransactions env b (p\<lparr>tp_txNonceCheck := nc\<rparr>)
       in Some (c1, p1\<lparr>tp_poolNonces := delCache_txs (getAllNonces (pe_ce env) b) (tp_poolNonces p1)\<rparr>))"

section \<open>Reading\<close>

fun top_loop :: "tx_nonce_check \<Rightarrow> bool \<Rightarrow> nat \<Rightarrow> pool_entry list \<Rightarrow> (h256 \<times> u256) list \<Rightarrow> h256 list \<Rightarrow>
    pool_entry list \<times> (h256 \<times> u256) list \<times> h256 list" where
  "top_loop nc updateAvoid limit [] bad avoid = ([], bad, avoid)"
| "top_loop nc updateAvoid limit ((h, t) # q) bad avoid =
     (if limit = 0 then ([], bad, avoid)
      else if map_of bad h \<noteq> None then top_loop nc updateAvoid limit q bad avoid
      else if \<not> isNonceOk t nc then top_loop nc updateAvoid limit q bad avoid
      else if \<not> isBlockLimitOk t nc then top_loop nc updateAvoid limit q (AList.update h (tx_nonce t) bad) avoid
      else if h \<in> set avoid then top_loop nc updateAvoid limit q bad avoid
      else (let (r, bad', avoid') = top_loop nc updateAvoid (limit - 1) q bad
                                      (if updateAvoid then List.insert h avoid else avoid)
            in ((h, t) # r, bad', avoid')))"

definition topTransactions :: "nat \<Rightarrow> h256 list \<Rightarrow> bool \<Rightarrow> tx_pool \<Rightarrow> pool_entry list \<times> h256 list \<times> tx_pool" where
  "topTransactions limit avoid updateAvoid p =
     (let (r, bad, avoid') = top_loop (tp_txNonceCheck p) updateAvoid (min (tp_limit p) limit)
                               (tp_txsQueue p) (tp_invalidTxs p) avoid
      in (r, avoid', p\<lparr>tp_invalidTxs := bad, tp_tasks := tp_tasks p @ [RemoveInvalidTxsTask]\<rparr>))"

fun condition_loop :: "nat \<Rightarrow> pool_entry list \<Rightarrow> pool_entry list \<times> pool_entry list" where
  "condition_loop limit [] = ([], [])"
| "condition_loop limit ((h, t) # q) =
     (if limit = 0 then ([], (h, t) # q)
      else if tx_synced t then (let (r, q') = condition_loop limit q in (r, (h, t) # q'))
      else (let (r, q') = condition_loop (limit - 1) q; t' = t\<lparr>tx_synced := True\<rparr> in ((h, t') # r, (h, t') # q')))"

definition topTransactionsCondition :: "nat \<Rightarrow> tx_pool \<Rightarrow> pool_entry list \<times> tx_pool" where
  "topTransactionsCondition limit p =
     (let (r, q) = condition_loop (min (tp_limit p) limit) (tp_txsQueue p) in (r, p\<lparr>tp_txsQueue := q\<rparr>))"

definition pendingList :: "tx_pool \<Rightarrow> transaction list" where
  "pendingList p = map snd (tp_txsQueue p)"

definition pendingSize :: "tx_pool \<Rightarrow> nat" where
  "pendingSize p = length (tp_txsQueue p)"

definition pool_status :: "tx_pool \<Rightarrow> nat \<times> nat" where
  "pool_status p = (length (tp_txsQueue p), length (tp_dropped p))"

definition isFull :: "tx_pool \<Rightarrow> bool" where
  "isFull p \<longleftrightarrow> length (tp_txsQueue p) \<ge> tp_limit p"

definition txExists :: "h256 \<Rightarrow> tx_pool \<Rightarrow> bool" where
  "txExists h p = (if length (tp_txsQueue p) \<ge> tp_limit p then True else map_of (tp_txsQueue p) h \<noteq> None)"

definition pool_clear :: "tx_pool \<Rightarrow> tx_pool" where
  "pool_clear p = p\<lparr>tp_txsQueue := [], tp_dropped := []\<rparr>"

definition obtainTransactions :: "h256 list \<Rightarrow> tx_pool \<Rightarrow> transaction list" where
  "obtainTransactions hs p = List.map_filter (map_of (tp_txsQueue p)) hs"

definition setTransactionKnownBy :: "h256 list \<Rightarrow> h512 \<Rightarrow> tx_pool \<Rightarrow> tx_pool" where
  "setTransactionKnownBy hs peer p =
     p\<lparr>tp_txsQueue := map (\<lambda>(h, t). (h, if h \<in> set hs then appendNodeContainsTransaction peer t else t)) (tp_txsQueue p)\<rparr>"

text \<open>\<open>hs\<close> lists the set of hashes in its order.\<close>

definition filterUnknownTxs :: "h256 list \<Rightarrow> h512 \<Rightarrow> tx_pool \<Rightarrow> h256 list \<times> tx_pool" where
  "filterUnknownTxs hs peer p =
     (let p1 = setTransactionKnownBy hs peer p;
          unknown = filter (\<lambda>h. h \<notin> set (tp_txsHashFilter p1)) hs;
          flt = fold List.insert unknown (tp_txsHashFilter p1)
      in (unknown, p1\<lparr>tp_txsHashFilter := (if length flt \<ge> tp_limit p1 then [] else flt)\<rparr>))"

definition freshTxsStatus :: "tx_pool \<Rightarrow> tx_pool" where
  "freshTxsStatus p =
     (if tp_txsQueue p = [] then p
      else p\<lparr>tp_txsQueue := map (\<lambda>(h, t). (h, clearNodeTransactionMarker (t\<lparr>tx_synced := False\<rparr>))) (tp_txsQueue p),
             tp_txsHashFilter := []\<rparr>)"

section \<open>The worker threads\<close>

definition run_pool_task :: "pool_env \<Rightarrow> nat \<Rightarrow> blockchain \<Rightarrow> tx_pool \<Rightarrow> blockchain \<times> tx_pool" where
  "run_pool_task env i c p =
     (if i \<ge> length (tp_tasks p) then (c, p)
      else
        (let p1 = p\<lparr>tp_tasks := take i (tp_tasks p) @ drop (Suc i) (tp_tasks p)\<rparr> in
         case tp_tasks p ! i of
           SubmitTask t \<Rightarrow> run_submit env t c p1
         | DropBlockTxsFilterTask b \<Rightarrow> (c, dropBlockTxsFilter env b p1)
         | RemoveInvalidTxsTask \<Rightarrow> (c, removeInvalidTxs p1)))"

section \<open>Invariant\<close>

definition queue_memory :: "pool_entry list \<Rightarrow> int" where
  "queue_memory q = sum_list (map (\<lambda>e. int (capacity (snd e))) q)"

definition queue_ok :: "tx_api \<Rightarrow> pool_entry list \<Rightarrow> bool" where
  "queue_ok api q \<longleftrightarrow> distinct (map fst q) \<and> (\<forall>(h, t) \<in> set q. tx_hash api t = Inr h) \<and>
     sorted (map (\<lambda>e. tx_importTime (snd e)) q)"

definition pool_inv :: "tx_api \<Rightarrow> tx_pool \<Rightarrow> bool" where
  "pool_inv api p \<longleftrightarrow> queue_ok api (tp_txsQueue p) \<and> tp_usedMemorySize p = queue_memory (tp_txsQueue p) \<and>
     tp_usedMemorySize p \<le> tp_maxMemoryLimit p \<and> length (tp_txsQueue p) \<le> tp_limit p"

lemma pool_inv_frame [simp]:
  "pool_inv api (p\<lparr>tp_poolNonces := ns\<rparr>) = pool_inv api p" "pool_inv api (p\<lparr>tp_txNonceCheck := nc\<rparr>) = pool_inv api p"
  "pool_inv api (p\<lparr>tp_txsHashFilter := hs\<rparr>) = pool_inv api p" "pool_inv api (p\<lparr>tp_dropped := hs\<rparr>) = pool_inv api p"
  "pool_inv api (p\<lparr>tp_invalidTxs := bad\<rparr>) = pool_inv api p" "pool_inv api (p\<lparr>tp_tasks := ts\<rparr>) = pool_inv api p"
  "pool_inv api (p\<lparr>tp_replies := rs\<rparr>) = pool_inv api p" "pool_inv api (p\<lparr>tp_onReady := n\<rparr>) = pool_inv api p"
  by (simp_all add: pool_inv_def)

lemma set_queue_emplace [simp]: "set (queue_emplace x q) = insert x (set q)"
  by (induction q) auto

lemma length_queue_emplace [simp]: "length (queue_emplace x q) = Suc (length q)"
  by (induction q) auto

lemma distinct_queue_emplace:
  "distinct (map fst q) \<Longrightarrow> fst x \<notin> fst ` set q \<Longrightarrow> distinct (map fst (queue_emplace x q))"
  by (induction q) auto

lemma sorted_queue_emplace:
  "sorted (map (\<lambda>e. tx_importTime (snd e)) q) \<Longrightarrow> sorted (map (\<lambda>e. tx_importTime (snd e)) (queue_emplace x q))"
  by (induction q) (auto simp: split_beta)

lemma queue_memory_emplace: "queue_memory (queue_emplace x q) = int (capacity (snd x)) + queue_memory q"
  by (induction q) (auto simp: queue_memory_def split_beta)

lemma map_of_queue_emplace:
  "fst x \<notin> fst ` set q \<Longrightarrow> map_of (queue_emplace x q) h = (if h = fst x then Some (snd x) else map_of q h)"
  by (induction q) (auto split: if_splits)

lemma queue_memory_delete:
  "distinct (map fst q) \<Longrightarrow> map_of q h = Some t \<Longrightarrow> queue_memory (AList.delete h q) = queue_memory q - int (capacity t)"
proof (induction q)
  case (Cons e q)
  show ?case
  proof (cases "fst e = h")
    case True
    with Cons.prems have "AList.delete h q = q" by (simp add: delete_idem)
    with True Cons.prems show ?thesis by (cases e) (simp add: queue_memory_def)
  next
    case False
    with Cons show ?thesis by (cases e) (simp add: queue_memory_def)
  qed
qed simp

lemma queue_ok_filter: "queue_ok api q \<Longrightarrow> queue_ok api (filter P q)"
  by (auto simp: queue_ok_def distinct_map_filter intro: sorted_filter)

lemma queue_memory_nonneg: "0 \<le> queue_memory q"
  by (auto simp: queue_memory_def intro!: sum_list_nonneg)

lemma pool_inv_removeTrans:
  assumes "pool_inv api p"
  shows "pool_inv api (removeTrans h trigger b i p)"
proof (cases "map_of (tp_txsQueue p) h")
  case (Some t)
  have "queue_ok api (AList.delete h (tp_txsQueue p))" "length (AList.delete h (tp_txsQueue p)) \<le> length (tp_txsQueue p)"
    using assms queue_ok_filter [of api "tp_txsQueue p"] by (auto simp: pool_inv_def AList.delete_eq length_filter_le)
  then show ?thesis
    using assms Some queue_memory_delete [of "tp_txsQueue p" h t]
    by (auto simp: removeTrans_def pool_inv_def queue_ok_def Let_def)
qed (use assms in \<open>simp add: removeTrans_def\<close>)

text \<open>Changing marks of the queued transactions that neither the hash nor the order depends on.\<close>

definition same_entry :: "tx_api \<Rightarrow> pool_entry \<Rightarrow> pool_entry \<Rightarrow> bool" where
  "same_entry api e e' \<longleftrightarrow> fst e' = fst e \<and> tx_hash api (snd e') = tx_hash api (snd e) \<and>
     tx_importTime (snd e') = tx_importTime (snd e) \<and> capacity (snd e') = capacity (snd e)"

lemma pool_inv_mark:
  assumes "pool_inv api p" "list_all2 (same_entry api) (tp_txsQueue p) q"
  shows "pool_inv api (p\<lparr>tp_txsQueue := q\<rparr>)"
proof -
  have "map fst q = map fst (tp_txsQueue p) \<and> queue_memory q = queue_memory (tp_txsQueue p) \<and> length q = length (tp_txsQueue p) \<and>
    map (\<lambda>e. tx_importTime (snd e)) q = map (\<lambda>e. tx_importTime (snd e)) (tp_txsQueue p) \<and>
    ((\<forall>(h, t) \<in> set (tp_txsQueue p). tx_hash api t = Inr h) \<longrightarrow> (\<forall>(h, t) \<in> set q. tx_hash api t = Inr h))"
    using assms(2) by induction (auto simp: same_entry_def queue_memory_def)
  with assms(1) show ?thesis by (simp add: pool_inv_def queue_ok_def)
qed

lemma tx_hash_marks [simp]:
  "tx_hash api (t\<lparr>tx_importTime := n\<rparr>) = tx_hash api t" "tx_hash api (t\<lparr>tx_synced := b\<rparr>) = tx_hash api t"
  "tx_hash api (t\<lparr>tx_nodes := ns\<rparr>) = tx_hash api t"
  by (simp_all add: tx_hash_value)

subsection \<open>Every operation keeps it\<close>

lemma pool_verify_frame:
  assumes "pool_verify env t ik p = (r, p')"
  shows "\<exists>ns. p' = p\<lparr>tp_poolNonces := ns\<rparr>"
proof -
  have "p' = p\<lparr>tp_poolNonces := tp_poolNonces p'\<rparr>"
    using assms by (auto simp: pool_verify_def txPoolNonceCheck_def common_isNonceOk_def Let_def
        split: sum.splits if_splits)
  then show ?thesis by blast
qed

lemma pool_verify_Success:
  assumes "pool_verify env t ik p = (Inr Success, p')"
  obtains h where "tx_hash (pe_api env) t = Inr h" "map_of (tp_txsQueue p) h = None" "isNonceOk t (tp_txNonceCheck p)"
    "isBlockLimitOk t (tp_txNonceCheck p)" "tx_nonce t \<notin> set (tp_poolNonces p)" "h \<notin> set (tp_dropped p) \<or> ik \<noteq> Ignore"
    "tx_nonce t \<noteq> Invalid256"
  using assms by (auto simp: pool_verify_def txPoolNonceCheck_def common_isNonceOk_def Let_def
      split: sum.splits if_splits)

lemma pool_import_cases:
  assumes "pool_import env t0 ik p = (r, p')"
  obtains (refused) ns where "r \<noteq> Inr Success" "p' = p\<lparr>tp_poolNonces := ns\<rparr>"
  | (imported) t h ns where "r = Inr Success" "t = t0\<lparr>tx_importTime := of_nat (pe_utcTime env)\<rparr>"
      "tx_hash (pe_api env) t = Inr h" "h \<notin> fst ` set (tp_txsQueue p)" "isNonceOk t (tp_txNonceCheck p)"
      "isBlockLimitOk t (tp_txNonceCheck p)" "tx_nonce t \<notin> set (tp_poolNonces p)"
      "tp_usedMemorySize p + int (capacity t) \<le> tp_maxMemoryLimit p" "length (tp_txsQueue p) < tp_limit p"
      "p' = p\<lparr>tp_poolNonces := ns, tp_txsQueue := queue_emplace (h, t) (tp_txsQueue p),
        tp_usedMemorySize := tp_usedMemorySize p + int (capacity t),
        tp_txsHashFilter := List.insert h (tp_txsHashFilter p), tp_onReady := Suc (tp_onReady p)\<rparr>"
      "tx_nonce t \<in> set ns"
proof -
  define t where "t = t0\<lparr>tx_importTime := of_nat (pe_utcTime env)\<rparr>"
  obtain ret ns where v: "pool_verify env t Ignore p = (ret, p\<lparr>tp_poolNonces := ns\<rparr>)"
    by (cases "pool_verify env t Ignore p") (metis pool_verify_frame)
  show ?thesis
  proof (cases "ret = Inr Success \<and> tp_usedMemorySize p + int (capacity t) \<le> tp_maxMemoryLimit p \<and>
      length (tp_txsQueue p) < tp_limit p")
    case True
    from v True obtain h where h: "tx_hash (pe_api env) t = Inr h" "map_of (tp_txsQueue p) h = None"
      "isNonceOk t (tp_txNonceCheck p)" "isBlockLimitOk t (tp_txNonceCheck p)" "tx_nonce t \<notin> set (tp_poolNonces p)"
      by (auto elim: pool_verify_Success)
    have "r = Inr Success" "p' = p\<lparr>tp_poolNonces := insertCache (tx_nonce t) ns,
        tp_txsQueue := queue_emplace (h, t) (tp_txsQueue p), tp_usedMemorySize := tp_usedMemorySize p + int (capacity t),
        tp_txsHashFilter := List.insert h (tp_txsHashFilter p), tp_onReady := Suc (tp_onReady p)\<rparr>"
      using assms True v h by (auto simp: pool_import_def t_def [symmetric] Let_def pool_insert_def)
    with h True imported [of t h "insertCache (tx_nonce t) ns"] t_def show ?thesis
      by (simp add: insertCache_def map_of_eq_None_iff)
  next
    case False
    then have "r \<noteq> Inr Success" "p' = p \<or> p' = p\<lparr>tp_poolNonces := ns\<rparr>"
      using assms v by (auto simp: pool_import_def t_def [symmetric] Let_def split: if_splits sum.splits ImportResult.splits prod.splits)
    with refused [of ns] refused [of "tp_poolNonces p"] show ?thesis by auto
  qed
qed

lemma pool_inv_import:
  assumes "pool_inv (pe_api env) p" "pool_import env t0 ik p = (r, p')"
  shows "pool_inv (pe_api env) p'"
  using assms(2)
proof (cases rule: pool_import_cases)
  case refused
  then show ?thesis using assms(1) by (simp add: pool_inv_def)
next
  case (imported t h ns)
  have "queue_ok (pe_api env) (queue_emplace (h, t) (tp_txsQueue p))"
    using assms(1) imported by (auto simp: pool_inv_def queue_ok_def distinct_queue_emplace sorted_queue_emplace)
  with assms(1) imported(8,9) show ?thesis
    unfolding imported(10) by (simp add: pool_inv_def queue_memory_emplace)
qed

lemma pool_inv_notify: "pool_inv api p \<Longrightarrow> pool_inv api (notifyReceipt env t r p)"
  by (simp add: notifyReceipt_def pool_inv_def)

lemma pool_inv_run_submit:
  assumes "pool_inv (pe_api env) p"
  shows "pool_inv (pe_api env) (snd (run_submit env t c p))"
  using assms pool_inv_import [OF assms, of t Ignore] pool_inv_notify
  by (auto simp: run_submit_def split: prod.splits sum.splits)

lemma pool_inv_fold: "(\<And>x p. pool_inv api p \<Longrightarrow> pool_inv api (f x p)) \<Longrightarrow> pool_inv api p \<Longrightarrow> pool_inv api (fold f xs p)"
  by (induction xs arbitrary: p) simp_all

lemma pool_inv_dropTransactions: "pool_inv api p \<Longrightarrow> pool_inv api (dropTransactions env b p)"
  by (simp add: dropTransactions_def Let_def pool_inv_fold pool_inv_removeTrans)

lemma pool_inv_removeInvalidTxs: "pool_inv api p \<Longrightarrow> pool_inv api (removeInvalidTxs p)"
  by (simp add: removeInvalidTxs_def drop_invalid_def Let_def pool_inv_fold pool_inv_removeTrans)

lemma pool_inv_run_task: "pool_inv (pe_api env) p \<Longrightarrow> pool_inv (pe_api env) (snd (run_pool_task env i c p))"
  by (simp add: run_pool_task_def Let_def pool_inv_run_submit pool_inv_removeInvalidTxs dropBlockTxsFilter_def
      split: pool_task.splits)

lemma condition_loop_queue: "condition_loop n q = (r, q') \<Longrightarrow> list_all2 (same_entry api) q q'"
proof (induction n q arbitrary: r q' rule: condition_loop.induct)
  case (2 n h t q)
  then show ?case
    by (auto simp: Let_def same_entry_def capacity_def intro: list.rel_refl_strong split: if_splits prod.splits)
qed simp

lemma pool_inv_reads:
  assumes "pool_inv api p"
  shows "pool_inv api (snd (topTransactionsCondition n p))" "pool_inv api (snd (snd (topTransactions n avoid u p)))"
    "pool_inv api (snd (filterUnknownTxs hs peer p))" "pool_inv api (freshTxsStatus p)"
proof -
  show "pool_inv api (snd (topTransactionsCondition n p))"
    using pool_inv_mark [OF assms condition_loop_queue]
    by (auto simp: topTransactionsCondition_def Let_def split: prod.splits)
  show "pool_inv api (snd (snd (topTransactions n avoid u p)))"
    using assms by (simp add: topTransactions_def Let_def split: prod.splits)
  have "list_all2 (same_entry api) q (map (\<lambda>(h, t). (h, if h \<in> set hs then appendNodeContainsTransaction peer t else t)) q)" for q
    by (auto simp: list_all2_map2 same_entry_def capacity_def appendNodeContainsTransaction_def intro!: list.rel_refl_strong)
  from pool_inv_mark [OF assms this] show "pool_inv api (snd (filterUnknownTxs hs peer p))"
    by (simp add: filterUnknownTxs_def setTransactionKnownBy_def Let_def)
  have "list_all2 (same_entry api) q (map (\<lambda>(h, t). (h, clearNodeTransactionMarker (t\<lparr>tx_synced := False\<rparr>))) q)" for q
    by (auto simp: list_all2_map2 same_entry_def capacity_def clearNodeTransactionMarker_def intro!: list.rel_refl_strong)
  from pool_inv_mark [OF assms this] assms show "pool_inv api (freshTxsStatus p)"
    by (simp add: freshTxsStatus_def)
qed

lemma pool_inv_drops:
  assumes "pool_inv api p"
  shows "pool_inv api (snd (drop_tx h p))" "dropBlockTrans cr env b c p = Some (c', p') \<Longrightarrow> pool_inv api p'"
  using assms
  by (auto simp: drop_tx_def pool_inv_removeTrans dropBlockTrans_def Let_def pool_inv_dropTransactions
      split: bind_splits)

section \<open>The pool as a state machine\<close>

text \<open>
  One call of a member function or one task of a worker thread; the environment (clock, sync state)
  and the chain may differ from step to step.
\<close>

inductive pool_step :: "tx_api \<Rightarrow> tx_pool \<Rightarrow> tx_pool \<Rightarrow> bool" for api where
  submit: "pool_step api p (submit t p)"
| import_tx: "pe_api env = api \<Longrightarrow> pool_step api p (snd (pool_import env t ik p))"
| task: "pe_api env = api \<Longrightarrow> pool_step api p (snd (run_pool_task env i c p))"
| drop: "pool_step api p (snd (drop_tx h p))"
| drop_block: "pe_api env = api \<Longrightarrow> dropBlockTrans api env b c p = Some (c', p') \<Longrightarrow> pool_step api p p'"
| top: "pool_step api p (snd (snd (topTransactions n avoid u p)))"
| condition: "pool_step api p (snd (topTransactionsCondition n p))"
| filter_unknown: "pool_step api p (snd (filterUnknownTxs hs peer p))"
| fresh: "pool_step api p (freshTxsStatus p)"

lemma pool_step_inv: "pool_step api p p' \<Longrightarrow> pool_inv api p \<Longrightarrow> pool_inv api p'"
proof (induction rule: pool_step.induct)
  case (import_tx env p t ik)
  then show ?case using pool_inv_import [of env p t ik] by (cases "pool_import env t ik p") auto
qed (auto simp: submit_def pool_inv_run_task pool_inv_reads pool_inv_drops)

lemma pool_inv_new: "pool_inv api (newTxPool nc limit g)"
  by (simp add: pool_inv_def newTxPool_def queue_ok_def queue_memory_def)

section \<open>What is packed\<close>

definition sealable :: "tx_nonce_check \<Rightarrow> (h256 \<times> u256) list \<Rightarrow> h256 list \<Rightarrow> pool_entry \<Rightarrow> bool" where
  "sealable nc bad avoid e \<longleftrightarrow> map_of bad (fst e) = None \<and> isNonceOk (snd e) nc \<and> isBlockLimitOk (snd e) nc \<and>
     fst e \<notin> set avoid"

lemma top_loop_step:
  "top_loop nc u (Suc n) (e # q) bad avoid =
     (if sealable nc bad avoid e
      then (let (r, bad', avoid') = top_loop nc u n q bad (if u then List.insert (fst e) avoid else avoid)
            in (e # r, bad', avoid'))
      else top_loop nc u (Suc n) q
        (if map_of bad (fst e) = None \<and> isNonceOk (snd e) nc \<and> \<not> isBlockLimitOk (snd e) nc
         then AList.update (fst e) (tx_nonce (snd e)) bad else bad) avoid)"
  by (cases e) (simp add: sealable_def)

lemma sealable_other:
  "fst e \<noteq> h \<Longrightarrow> sealable nc (AList.update h x bad) avoid e = sealable nc bad avoid e"
  "fst e \<noteq> h \<Longrightarrow> sealable nc bad (List.insert h avoid) e = sealable nc bad avoid e"
  by (simp_all add: sealable_def update_conv')

lemma top_loop_0 [simp]: "top_loop nc u 0 q bad avoid = ([], bad, avoid)"
  by (cases q) (auto simp: split_paired_all)

lemma top_loop_eq:
  "distinct (map fst q) \<Longrightarrow> fst (top_loop nc u n q bad avoid) = take n (filter (sealable nc bad avoid) q)"
proof (induction q arbitrary: n bad avoid)
  case (Cons e q)
  let ?bad = "if map_of bad (fst e) = None \<and> isNonceOk (snd e) nc \<and> \<not> isBlockLimitOk (snd e) nc
    then AList.update (fst e) (tx_nonce (snd e)) bad else bad"
  have "fst x \<noteq> fst e" if "x \<in> set q" for x using that Cons.prems by (auto simp: image_iff)
  then have fresh: "filter (sealable nc ?bad avoid) q = filter (sealable nc bad avoid) q"
    "filter (sealable nc bad (if u then List.insert (fst e) avoid else avoid)) q = filter (sealable nc bad avoid) q"
    by (auto intro!: filter_cong simp: sealable_other)
  note IH = Cons.IH [of _ bad "if u then List.insert (fst e) avoid else avoid"] Cons.IH [of _ ?bad avoid]
  show ?case
  proof (cases n)
    case (Suc m)
    show ?thesis
      unfolding Suc top_loop_step using IH Cons.prems fresh
      by (cases "sealable nc bad avoid e"; cases u) (simp_all add: case_prod_unfold split del: if_split)
  qed simp
qed simp

lemma top_loop_avoid:
  "set (snd (snd (top_loop nc u n q bad avoid))) = set avoid \<union> (if u then fst ` set (fst (top_loop nc u n q bad avoid)) else {})"
proof (induction q arbitrary: n bad avoid)
  case (Cons e q)
  show ?case
  proof (cases n)
    case (Suc m)
    show ?thesis
      unfolding Suc top_loop_step using Cons.IH
      by (cases "sealable nc bad avoid e"; cases u) (simp_all add: case_prod_unfold Let_def split del: if_split)
  qed simp
qed simp

section \<open>Expired transactions\<close>

lemma removeTrans_reads [simp]:
  "tp_dropped (removeTrans h trigger b i p) = tp_dropped p"
  "tp_txsHashFilter (removeTrans h trigger b i p) = tp_txsHashFilter p"
  "map_of (tp_txsQueue (removeTrans h trigger b i p)) = (map_of (tp_txsQueue p))(h := None)"
  by (auto simp: removeTrans_def Let_def delete_conv' fun_eq_iff split: option.splits)

lemma invalid_fold:
  "h \<in> fst ` set bad \<or> (map_of (tp_txsQueue p) h = None \<and> h \<in> set (tp_dropped p)) \<Longrightarrow>
   map_of (tp_txsQueue (fold drop_invalid bad p)) h = None \<and> h \<in> set (tp_dropped (fold drop_invalid bad p))"
proof (induction bad arbitrary: p)
  case (Cons x bad)
  then show ?case by (auto simp: drop_invalid_def Let_def intro!: Cons.IH)
qed simp

lemma invalid_fold_filter:
  "tp_txsHashFilter (fold drop_invalid bad p) = tp_txsHashFilter p"
  "set (fold (\<lambda>(_, nonce). removeAll nonce) bad hs) = set hs - snd ` set bad"
  by (induction bad arbitrary: p hs) (auto simp: drop_invalid_def Let_def)

section \<open>Properties\<close>

text \<open>
  C14: Through every sequence of calls and worker tasks the pool keeps its invariant: the queue holds no
  hash twice, each transaction under its own hash, in the order of import times; the memory it
  accounts for is that of the queued transactions and stays within the limit of the group, and the
  number of transactions stays within the limit of the pool.
\<close>

theorem pool_keeps_invariant:
  assumes "(pool_step api)\<^sup>*\<^sup>* (newTxPool nc limit groupId) p"
  shows "distinct (map fst (tp_txsQueue p)) \<and> (\<forall>h t. (h, t) \<in> set (tp_txsQueue p) \<longrightarrow> tx_hash api t = Inr h) \<and>
    sorted (map (\<lambda>e. tx_importTime (snd e)) (tp_txsQueue p)) \<and> tp_usedMemorySize p = queue_memory (tp_txsQueue p) \<and>
    tp_usedMemorySize p \<le> tp_maxMemoryLimit p \<and> length (tp_txsQueue p) \<le> tp_limit p"
proof -
  have "pool_inv api p" using assms by induction (auto intro: pool_step_inv pool_inv_new)
  then show ?thesis by (auto simp: pool_inv_def queue_ok_def)
qed

definition ready_tx :: "h256 \<Rightarrow> u256 \<Rightarrow> transaction" where
  "ready_tx h n = emptyTransaction\<lparr>tx_type := MessageCall, tx_nonce := n, tx_blockLimit := 9, tx_chainId := 1,
     tx_groupId := 1, tx_hashWith := h, tx_sender := 3\<rparr>"

definition demo_pool_env :: pool_env where
  "demo_pool_env = \<lparr>pe_api = demo_api, pe_ce = demo_ce, pe_chainId = 1, pe_nodeId = 7, pe_utcTime = 100,
     pe_syncStatus = None\<rparr>"

definition demo_pool :: tx_pool where
  "demo_pool = newTxPool newNonceCheck 10 1"

lemma demo_api_rc2 [simp]: "rc2 demo_api"
  by (simp add: demo_api_def)

lemmas demo_pool_simps = pool_import_def pool_verify_def txPoolNonceCheck_def common_isNonceOk_def pool_insert_def
  insertCache_def demo_pool_def newTxPool_def demo_pool_env_def ready_tx_def tx_hash_value tx_from_value capacity_def
  isNonceOk_def isBlockLimitOk_def newNonceCheck_def emptyTransaction_def Invalid256_def checkChainId_def checkGroupId_def
  s64_def

theorem pool_keeps_invariant_witness:
  "let p = snd (pool_import demo_pool_env (ready_tx 5 7) Ignore demo_pool) in
   map fst (tp_txsQueue p) = [5] \<and> distinct (map fst (tp_txsQueue p)) \<and> tp_usedMemorySize p = queue_memory (tp_txsQueue p)"
proof -
  let ?p = "snd (pool_import demo_pool_env (ready_tx 5 7) Ignore demo_pool)"
  have "(pool_step demo_api)\<^sup>*\<^sup>* (newTxPool newNonceCheck 10 1) ?p"
    using pool_step.import_tx [of demo_pool_env demo_api demo_pool] by (simp add: demo_pool_env_def demo_pool_def r_into_rtranclp)
  moreover have "map fst (tp_txsQueue ?p) = [5]" by (simp add: demo_pool_simps)
  ultimately show ?thesis using pool_keeps_invariant [of demo_api newNonceCheck 10 1 ?p] by (simp add: Let_def)
qed

text \<open>
  \<^verbatim>\<open>topTransactions\<close> returns the first transactions of the queue, up to the limit, that are not
  marked as expired, whose nonce is not in the recent blocks, whose block limit is in range and
  that the caller has not got before.  With \<^verbatim>\<open>_updateAvoid\<close> a second call never returns one of them again, which
  is how the sealer fills a block without packing a transaction twice.
\<close>

theorem top_transactions:
  assumes "pool_inv api p"
  shows "let (r, avoid', p') = topTransactions limit avoid True p;
             (r2, avoid2, p2) = topTransactions limit2 avoid' True p'
         in r = take (min (tp_limit p) limit)
                  (filter (sealable (tp_txNonceCheck p) (tp_invalidTxs p) avoid) (tp_txsQueue p)) \<and>
            set avoid' = set avoid \<union> fst ` set r \<and> fst ` set r \<inter> fst ` set r2 = {} \<and>
            tp_txsQueue p' = tp_txsQueue p"
proof -
  have d: "distinct (map fst (tp_txsQueue p))" using assms by (simp add: pool_inv_def queue_ok_def)
  let ?l = "\<lambda>n bad avoid. top_loop (tp_txNonceCheck p) True n (tp_txsQueue p) bad avoid"
  have new: "fst ` set (fst (?l n bad avoid')) \<inter> set avoid' = {}" for n bad avoid'
    by (auto simp: top_loop_eq [OF d] sealable_def dest!: in_set_takeD)
  obtain r bad' avoid' where r: "?l (min (tp_limit p) limit) (tp_invalidTxs p) avoid = (r, bad', avoid')" by (metis prod_cases3)
  obtain r2 bad2 avoid2 where r2: "?l (min (tp_limit p) limit2) bad' avoid' = (r2, bad2, avoid2)" by (metis prod_cases3)
  have "r = take (min (tp_limit p) limit) (filter (sealable (tp_txNonceCheck p) (tp_invalidTxs p) avoid) (tp_txsQueue p))"
    using top_loop_eq [OF d, of "tp_txNonceCheck p" True "min (tp_limit p) limit" "tp_invalidTxs p" avoid] r by simp
  moreover have a: "set avoid' = set avoid \<union> fst ` set r"
    using top_loop_avoid [of "tp_txNonceCheck p" True "min (tp_limit p) limit" "tp_txsQueue p" "tp_invalidTxs p" avoid] r by simp
  moreover have "fst ` set r \<inter> fst ` set r2 = {}"
    using new [of "min (tp_limit p) limit2" bad' avoid'] r2 a by auto
  ultimately show ?thesis using r r2 by (simp add: topTransactions_def Let_def)
qed

theorem top_transactions_witness:
  "let p = demo_pool\<lparr>tp_txsQueue := [(5, ready_tx 5 7), (6, ready_tx 6 8), (4, ready_tx 4 9)]\<rparr>;
       (r, avoid', p') = topTransactions 2 [6] True p
   in map fst r = [5, 4] \<and> set avoid' = {4, 5, 6}"
proof -
  let ?p = "demo_pool\<lparr>tp_txsQueue := [(5, ready_tx 5 7), (6, ready_tx 6 8), (4, ready_tx 4 9)]\<rparr>"
  have "pool_inv demo_api ?p"
    by (simp add: pool_inv_def queue_ok_def queue_memory_def demo_pool_simps)
  moreover have "take 2 (filter (sealable (tp_txNonceCheck ?p) (tp_invalidTxs ?p) [6]) (tp_txsQueue ?p)) =
      [(5, ready_tx 5 7), (4, ready_tx 4 9)]"
    by (simp add: sealable_def demo_pool_simps)
  moreover have "min (tp_limit ?p) 2 = 2" by (simp add: demo_pool_simps)
  ultimately show ?thesis
    using top_transactions [of demo_api ?p 2 "[6]" 0] by (auto simp: Let_def case_prod_beta)
qed



text \<open>
  C32: A transaction of another chain (or group) burns its nonce.  \<^verbatim>\<open>verify\<close> enters the nonce in the
  cache of the pool before it compares the chain and group identifiers, so when it refuses the
  transaction the nonce stays behind although the pool does not hold the transaction; every later
  transaction with the same nonce, a valid one of this chain included, is refused.
\<close>

theorem foreign_tx_burns_nonce:
  assumes "pool_import env t ik p = (Inr r, p')" "r \<in> {InvalidChainId, InvalidGroupId}" "tx_nonce t' = tx_nonce t"
  shows "tp_txsQueue p' = tp_txsQueue p \<and> tx_nonce t \<notin> set (tp_poolNonces p) \<and> tx_nonce t \<in> set (tp_poolNonces p') \<and>
    fst (pool_import env' t' ik' p') \<noteq> Inr Success"
proof -
  define u where "u = t\<lparr>tx_importTime := of_nat (pe_utcTime env)\<rparr>"
  have v: "pool_verify env u Ignore p = (Inr r, p')"
    using assms(1,2) by (auto simp: pool_import_def u_def [symmetric] Let_def
        split: if_splits sum.splits ImportResult.splits prod.splits)
  then have n: "tp_txsQueue p' = tp_txsQueue p" "tx_nonce t \<notin> set (tp_poolNonces p)" "tx_nonce t \<in> set (tp_poolNonces p')"
    using assms(2) by (auto simp: pool_verify_def txPoolNonceCheck_def common_isNonceOk_def Let_def u_def
        split: if_splits sum.splits)
  obtain s q where i: "pool_import env' t' ik' p' = (s, q)" by fastforce
  then have "s \<noteq> Inr Success"
    by (cases rule: pool_import_cases) (use n assms(3) in auto)
  with n i show ?thesis by simp
qed

theorem foreign_tx_burns_nonce_witness:
  "let p' = snd (pool_import demo_pool_env ((ready_tx 5 7)\<lparr>tx_chainId := 2\<rparr>) Ignore demo_pool) in
   tp_txsQueue p' = [] \<and> fst (pool_import demo_pool_env (ready_tx 6 7) Ignore p') \<noteq> Inr Success \<and>
   fst (pool_import demo_pool_env (ready_tx 6 7) Ignore demo_pool) = Inr Success"
proof -
  let ?t = "(ready_tx 5 7)\<lparr>tx_chainId := 2\<rparr>"
  let ?p = "snd (pool_import demo_pool_env ?t Ignore demo_pool)"
  have "fst (pool_import demo_pool_env ?t Ignore demo_pool) = Inr InvalidChainId" by (simp add: demo_pool_simps)
  then have "pool_import demo_pool_env ?t Ignore demo_pool = (Inr InvalidChainId, ?p)" by (metis prod.collapse)
  from foreign_tx_burns_nonce [OF this, of "ready_tx 6 7" demo_pool_env Ignore]
  have "tp_txsQueue ?p = tp_txsQueue demo_pool" "fst (pool_import demo_pool_env (ready_tx 6 7) Ignore ?p) \<noteq> Inr Success"
    by (simp_all add: ready_tx_def)
  moreover have "fst (pool_import demo_pool_env (ready_tx 6 7) Ignore demo_pool) = Inr Success" by (simp add: demo_pool_simps)
  ultimately show ?thesis by (simp add: Let_def demo_pool_def newTxPool_def)
qed



end
