(* ===== verification/Sealer.thy ===== *)
theory Sealer
  imports PBFTEngine TxPool
begin

text \<open>
  The sealer thread, \<^verbatim>\<open>libconsensus/Sealer.cpp\<close>, \<^verbatim>\<open>Sealer.h\<close>, and its PBFT variant,
  \<^verbatim>\<open>libconsensus/pbft/PBFTSealer.cpp\<close>, \<^verbatim>\<open>PBFTSealer.h\<close>: filling a block from the transaction pool,
  handing it to the engine, and the number of transactions a block may hold, which shrinks on
  timeouts and grows back on commits.

  \<^item> The sealer holds the engine and the pool it shares with other threads; the chain and the sync
    module are those of the engine.
  \<^item> \<open>s_block\<close> and \<open>s_transactionSet\<close> are \<^verbatim>\<open>m_sealing\<close>.  A packed transaction is the bytes of
    \<^verbatim>\<open>rlp()\<close>.  \<open>se_transactionRoot\<close> is the root \<^verbatim>\<open>calTransactionRoot\<close> computes from the encoded transactions.
  \<^item> Waiting and waking threads changes no state and is left out.
  \<^item> \<^verbatim>\<open>m_blockSizeIncreaseRatio\<close> is a \<^verbatim>\<open>float\<close> that only takes the values 0.5 (the default), 0 and 1
    (\<^verbatim>\<open>setBlockSizeIncreaseRatio\<close> takes a \<^verbatim>\<open>bool\<close>); \<open>s_ratio2\<close> is twice its value.  Floating-point
    products are the exact products rounded to 24 or 53 significant bits, to even on a tie.  A
    result beyond \<^verbatim>\<open>uint64_t\<close> is undefined in C++, and \<open>None\<close> here.
  \<^item> \<open>SealFatal\<close> is the end of the process at a block that cannot be read, \<open>SealThrows\<close> an exception of
    the engine.

  Shown: a sealed block extends the tip and respects the transaction limit; a leader proposes one
  block per height; the transaction limit stays within its bounds and, while blocks are full and no
  timeout occurs, grows back to the configured maximum.
\<close>

section \<open>State\<close>

record pbft_sealer =
  s_block :: block
  s_transactionSet :: "h256 list"
  s_execContext :: "exec_context option"
  s_extraData :: "bytes list"
  s_syncTxPool :: bool
  s_syncBlock :: bool
  s_startConsensus :: bool
  s_maxBlockCanSeal :: nat
  s_lastTimeoutTx :: nat
  s_maxNoTimeoutTx :: nat
  s_timeoutCount :: int
  s_lastBlockNumber :: nat
  s_enableDynamicBlockSize :: bool
  s_ratio2 :: nat
  s_engine :: pbft_engine
  s_pool :: tx_pool

record seal_env =
  se_engine :: engine_env
  se_pool :: pool_env
  se_transactionRoot :: "bytes list \<Rightarrow> h256"

datatype seal_error = SealFatal | SealThrows engine_error

type_synonym sealed = "(seal_error \<times> pbft_sealer) + pbft_sealer"

abbreviation s_number :: "pbft_sealer \<Rightarrow> int" where
  "s_number s \<equiv> number (m_blockChain (s_engine s))"

abbreviation on_engine :: "(pbft_engine \<Rightarrow> pbft_engine) \<Rightarrow> pbft_sealer \<Rightarrow> pbft_sealer" where
  "on_engine f s \<equiv> s\<lparr>s_engine := f (s_engine s)\<rparr>"

definition lift_engine :: "pbft_engine outcome \<Rightarrow> pbft_sealer \<Rightarrow> sealed" where
  "lift_engine r s = (case r of Inl (e, g) \<Rightarrow> Inl (SealThrows e, s\<lparr>s_engine := g\<rparr>) | Inr g \<Rightarrow> Inr (s\<lparr>s_engine := g\<rparr>))"

text \<open>\<^verbatim>\<open>m_blockChain->getBlockByNumber(m_blockChain->number())\<close>.\<close>

definition highestBlock :: "seal_env \<Rightarrow> pbft_sealer \<Rightarrow> block option \<times> pbft_sealer" where
  "highestBlock env s =
     (let (b, c) = getBlockByNumber (crypto (se_engine env)) (s_number s) (m_blockChain (s_engine s))
      in (b, on_engine (\<lambda>e. e\<lparr>m_blockChain := c\<rparr>) s))"

section \<open>The sealing block\<close>

definition resetBlock :: "seal_env \<Rightarrow> bool \<Rightarrow> pbft_sealer \<Rightarrow> sealed" where
  "resetBlock env resetNextLeader s =
     (if resetNextLeader
      then (let b = resetCurrentBlock (crypto (se_engine env)) emptyHeader (s_block s)
            in Inr (s\<lparr>s_block := b\<lparr>blockHeader := (blockHeader b)\<lparr>m_number := s64 (s_number s + 2)\<rparr>\<rparr>\<rparr>))
      else (case highestBlock env s of
              (None, s1) \<Rightarrow> Inl (SealFatal, s1)
            | (Some hb, s1) \<Rightarrow>
                Inr (s1\<lparr>s_block := resetCurrentBlock (crypto (se_engine env)) (blockHeader hb) (s_block s1)\<rparr>)))"

definition resetSealingBlock :: "seal_env \<Rightarrow> h256 list \<Rightarrow> bool \<Rightarrow> pbft_sealer \<Rightarrow> sealed" where
  "resetSealingBlock env flt resetNextLeader s =
     ebind (resetBlock env resetNextLeader (on_engine (on_sync (noteSealingBlockNumber (s_number s))) s))
       (\<lambda>s1. Inr (s1\<lparr>s_transactionSet := flt, s_execContext := None\<rparr>))"

definition resetCurrentTime :: "seal_env \<Rightarrow> block_header \<Rightarrow> block_header \<Rightarrow> block_header" where
  "resetCurrentTime env parent h =
     h\<lparr>m_timestamp := to_uint64 (max (s64 (int (m_timestamp parent) + 1)) (getAlignedTime (se_engine env)))\<rparr>"

definition resetSealingHeader :: "seal_env \<Rightarrow> block_header \<Rightarrow> pbft_sealer \<Rightarrow> block_header \<Rightarrow> block_header" where
  "resetSealingHeader env parent s h =
     (resetCurrentTime env parent h)\<lparr>block_header.m_sealerList := consensus_base.m_sealerList (s_engine s),
        m_sealer := ucast (m_idx (s_engine s)), m_logBloom := 0, m_gasUsed := 0, m_extraData := s_extraData s\<rparr>"

definition setBlock :: "seal_env \<Rightarrow> pbft_sealer \<Rightarrow> sealed" where
  "setBlock env s =
     (case highestBlock env s of
        (None, s1) \<Rightarrow> Inl (SealFatal, s1)
      | (Some hb, s1) \<Rightarrow>
          (let h1 = populateFromParent (crypto (se_engine env)) (blockHeader hb) (blockHeader (s_block s1));
               b1 = (s_block s1)\<lparr>blockHeader := resetSealingHeader env (blockHeader hb) s1 h1\<rparr>
           in Inr (s1\<lparr>s_block := b1\<lparr>blockHeader := (blockHeader b1)\<lparr>m_transactionsRoot := se_transactionRoot env (transactions b1)\<rparr>\<rparr>\<rparr>)))"

definition s_shouldHandleBlock :: "pbft_sealer \<Rightarrow> bool" where
  "s_shouldHandleBlock s \<longleftrightarrow> m_number (blockHeader (s_block s)) = s64 (s_number s + 1) \<and>
     fst (getLeader (s_engine s)) \<and> snd (getLeader (s_engine s)) = m_idx (s_engine s)"

definition base_shouldResetSealing :: "pbft_sealer \<Rightarrow> bool" where
  "base_shouldResetSealing s \<longleftrightarrow> isSealed (s_block s) \<or> m_number (blockHeader (s_block s)) \<le> s_number s"

definition shouldResetSealing :: "pbft_sealer \<Rightarrow> bool" where
  "shouldResetSealing s =
     (if isSealed (s_block s) \<and> s_shouldHandleBlock s then False
      else base_shouldResetSealing s \<and> snd (getLeader (s_engine s)) = m_idx (s_engine s))"

section \<open>The work loop\<close>

definition base_shouldSeal :: "pbft_sealer \<Rightarrow> bool" where
  "base_shouldSeal s \<longleftrightarrow> \<not> isSealed (s_block s) \<and> s_startConsensus s \<and>
     m_accountType (s_engine s) = SealerAccount \<and> \<not> isSyncing (m_blockSync (s_engine s))"

definition s_shouldSeal :: "seal_env \<Rightarrow> pbft_sealer \<Rightarrow> pbft_sealer \<times> bool" where
  "s_shouldSeal env s =
     (if base_shouldSeal s
      then (let (e, r) = PBFTEngine.shouldSeal (se_engine env) (s_engine s) in (s\<lparr>s_engine := e\<rparr>, r))
      else (s, False))"

definition reportNewBlock :: "seal_env \<Rightarrow> pbft_sealer \<Rightarrow> sealed" where
  "reportNewBlock env s =
     (if \<not> s_syncBlock s then Inr s
      else
        (case highestBlock env (s\<lparr>s_syncBlock := False\<rparr>) of
           (None, s1) \<Rightarrow> Inr s1
         | (Some b, s1) \<Rightarrow>
             ebind (lift_engine (reportBlockWithoutLock (se_engine env) b (s_engine s1)) s1) (\<lambda>s2.
             if shouldResetSealing s2 then resetSealingBlock env [] False s2 else Inr s2)))"

definition s_reachBlockIntervalTime :: "seal_env \<Rightarrow> pbft_sealer \<Rightarrow> bool" where
  "s_reachBlockIntervalTime env s \<longleftrightarrow>
     reachBlockIntervalTime (utcSteadyTime (se_engine env)) (m_timeManager (s_engine s)) \<or>
     (getTransactionSize (s_block s) > 0 \<and>
      reachMinBlockGenTime (utcSteadyTime (se_engine env)) (m_timeManager (s_engine s)))"

definition checkTxsEnough :: "seal_env \<Rightarrow> nat \<Rightarrow> pbft_sealer \<Rightarrow> bool" where
  "checkTxsEnough env maxTxsCanSeal s \<longleftrightarrow> canHandleBlockForNextLeader (s_engine s) \<and>
     (getTransactionSize (s_block s) \<ge> maxTxsCanSeal \<or> s_reachBlockIntervalTime env s)"

definition tx_bytes :: "tx_api \<Rightarrow> transaction \<Rightarrow> bytes" where
  "tx_bytes api t = (case tx_rlp api True t of Inl _ \<Rightarrow> [] | Inr b \<Rightarrow> b)"

definition loadTransactions :: "seal_env \<Rightarrow> nat \<Rightarrow> pbft_sealer \<Rightarrow> pbft_sealer" where
  "loadTransactions env transToFetch s =
     (let (txs, set', p) = topTransactions transToFetch (s_transactionSet s) True (s_pool s)
      in s\<lparr>s_block := appendTransactions (map (\<lambda>(_, t). tx_bytes (pe_api (se_pool env)) t) txs) (s_block s),
           s_transactionSet := set', s_pool := p\<rparr>)"

definition handleBlock :: "seal_env \<Rightarrow> pbft_sealer \<Rightarrow> sealed" where
  "handleBlock env s =
     (if getTransactionSize (s_block s) > m_maxBlockTransactions (s_engine s) then resetSealingBlock env [] False s
      else
        ebind (setBlock env s) (\<lambda>s1.
        let s2 = on_engine (generatePrepare (se_engine env) (s_block s1)) s1 in
        if shouldReset (s_block s2) (s_engine s2) then resetSealingBlock env [] False s2 else Inr s2))"

text \<open>One round of \<^verbatim>\<open>doWork\<close>; \<open>sealAndHandle\<close> is its block under the lock on \<^verbatim>\<open>m_sealing\<close>.\<close>

definition sealAndHandle :: "seal_env \<Rightarrow> pbft_sealer \<Rightarrow> sealed" where
  "sealAndHandle env s =
     (let tx_num = getTransactionSize (s_block s);
          s1 = s\<lparr>s_syncTxPool := fst (pool_status (s_pool s)) \<noteq> 0\<rparr>;
          maxTxsPerBlock = s_maxBlockCanSeal s1;
          s2 = (if maxTxsPerBlock > tx_num \<and> s_syncTxPool s1 \<and> \<not> s_reachBlockIntervalTime env s1
                then loadTransactions env (maxTxsPerBlock - tx_num) s1 else s1)
      in if \<not> checkTxsEnough env maxTxsPerBlock s2 then Inr s2
         else if s_shouldHandleBlock s2 then handleBlock env s2 else Inr s2)"

definition doWork :: "seal_env \<Rightarrow> pbft_sealer \<Rightarrow> sealed" where
  "doWork env s =
     ebind (reportNewBlock env s) (\<lambda>s1.
     let (s2, seal) = s_shouldSeal env s1 in
     if seal \<and> s_startConsensus s2 then sealAndHandle env s2 else Inr s2)"

section \<open>Start, stop and the callbacks of other modules\<close>

definition onTransactionQueueReady :: "pbft_sealer \<Rightarrow> pbft_sealer" where
  "onTransactionQueueReady s = s\<lparr>s_syncTxPool := True\<rparr>"

definition onBlockChanged :: "pbft_sealer \<Rightarrow> pbft_sealer" where
  "onBlockChanged s = s\<lparr>s_syncBlock := True\<rparr>"

definition base_sealer_start :: "seal_env \<Rightarrow> pbft_sealer \<Rightarrow> sealed" where
  "base_sealer_start env s =
     (if s_startConsensus s then Inr s
      else
        ebind (resetSealingBlock env [] False s) (\<lambda>s1.
        case highestBlock env s1 of
          (None, s2) \<Rightarrow> Inl (SealFatal, s2)
        | (Some b, s2) \<Rightarrow>
            ebind (lift_engine (reportBlockWithoutLock (se_engine env) b (s_engine s2)) s2) (\<lambda>s3.
            Inr (s3\<lparr>s_maxBlockCanSeal := m_maxBlockTransactions (s_engine s3), s_syncBlock := False,
                    s_startConsensus := True\<rparr>))))"

definition sealer_start :: "seal_env \<Rightarrow> (string \<times> string) list \<Rightarrow> pbft_sealer \<Rightarrow> sealed" where
  "sealer_start env stored s =
     (let s1 = (if s_enableDynamicBlockSize s
                then (on_engine (\<lambda>e. e\<lparr>m_onTimeout := True, m_onCommitBlock := True\<rparr>) s)
                       \<lparr>s_lastBlockNumber := to_uint64 (s_number s)\<rparr>
                else s)
      in ebind (lift_engine (PBFTEngine.start (se_engine env) stored (s_engine s1)) s1) (base_sealer_start env))"

definition initConsensusEngine :: "seal_env \<Rightarrow> pbft_sealer \<Rightarrow> sealed" where
  "initConsensusEngine env s =
     (let s1 = on_engine (\<lambda>e. e\<lparr>m_onViewChange := True, m_onNotifyNextLeaderReset := True\<rparr>) s
      in lift_engine (PBFTEngine.resetConfig (se_engine env) (s_engine s1)) s1)"

definition base_sealer_stop :: "pbft_sealer \<Rightarrow> pbft_sealer" where
  "base_sealer_stop s = (if \<not> s_startConsensus s then s else s\<lparr>s_startConsensus := False\<rparr>)"

text \<open>\<^verbatim>\<open>PBFTEngine::stop\<close>: the background threads end with their queues unserved.\<close>

definition engine_stop :: "pbft_engine \<Rightarrow> pbft_engine" where
  "engine_stop e = (if m_startConsensusEngine e then base_stop (e\<lparr>m_threadPool := []\<rparr>) else e)"

definition sealer_stop :: "pbft_sealer \<Rightarrow> pbft_sealer" where
  "sealer_stop s = on_engine engine_stop (base_sealer_stop s)"

definition resetBlockForViewChange :: "seal_env \<Rightarrow> pbft_sealer \<Rightarrow> sealed" where
  "resetBlockForViewChange env s =
     (if isSealed (s_block s) \<and> s_shouldHandleBlock s then Inr s else resetSealingBlock env [] False s)"

definition resetBlockForNextLeader :: "seal_env \<Rightarrow> h256 list \<Rightarrow> pbft_sealer \<Rightarrow> sealed" where
  "resetBlockForNextLeader env flt s = resetSealingBlock env flt True s"

section \<open>How many transactions a block may hold\<close>

text \<open>
  \<open>round_sig p n\<close> is the integer \<open>n\<close> rounded to \<open>p\<close> significant bits, to even on a tie.  Every value that
  occurs is an integer in a fixed unit, so this is the rounding of \<^verbatim>\<open>float\<close> (\<open>p = 24\<close>) and
  \<^verbatim>\<open>double\<close> (\<open>p = 53\<close>).
\<close>

fun bit_length :: "nat \<Rightarrow> nat" where
  "bit_length n = (if n = 0 then 0 else Suc (bit_length (n div 2)))"

definition round_sig :: "nat \<Rightarrow> nat \<Rightarrow> nat" where
  "round_sig p n =
     (let u = 2 ^ (bit_length n - p); q = n div u; r = n mod u
      in (if 2 * r > u \<or> (2 * r = u \<and> odd q) then Suc q else q) * u)"

text \<open>
  \<^verbatim>\<open>m * (1 + 0.1)\<close>, \<^verbatim>\<open>m * 0.1 > 1\<close> and \<^verbatim>\<open>m + ratio * m\<close>, in units of \<open>2 ^ -51\<close>, \<open>2 ^ -55\<close> and
  one half: the nearest doubles to 1.1 and 0.1 are \<open>2476979795053773 / 2 ^ 51\<close> and
  \<open>3602879701896397 / 2 ^ 55\<close>.
\<close>

definition times_1_1 :: "nat \<Rightarrow> nat" where
  "times_1_1 m = round_sig 53 (round_sig 53 m * 2476979795053773) div 2 ^ 51"

definition tenth_above_1 :: "nat \<Rightarrow> bool" where
  "tenth_above_1 m \<longleftrightarrow> round_sig 53 (round_sig 53 m * 3602879701896397) > 2 ^ 55"

definition grown :: "nat \<Rightarrow> nat \<Rightarrow> nat" where
  "grown ratio2 m = round_sig 24 (2 * round_sig 24 m + ratio2 * round_sig 24 m) div 2"

definition attempIncreaseTimeoutTx :: "pbft_sealer \<Rightarrow> pbft_sealer option" where
  "attempIncreaseTimeoutTx s =
     (let limit = m_maxBlockTransactions (s_engine s) in
      if s_lastTimeoutTx s \<ge> limit then Some (s\<lparr>s_lastTimeoutTx := limit\<rparr>)
      else if s_maxNoTimeoutTx s = limit then Some (s\<lparr>s_lastTimeoutTx := s_maxNoTimeoutTx s\<rparr>)
      else
        Option.bind (if tenth_above_1 (s_maxNoTimeoutTx s)
              then (if times_1_1 (s_maxNoTimeoutTx s) < 2 ^ 64 then Some (times_1_1 (s_maxNoTimeoutTx s)) else None)
              else Some ((s_lastTimeoutTx s * 2) mod 2 ^ 64)) (\<lambda>x.
        Some (s\<lparr>s_lastTimeoutTx := (if x \<ge> limit then limit else x)\<rparr>)))"

definition sealer_onTimeout :: "nat \<Rightarrow> pbft_sealer \<Rightarrow> pbft_sealer" where
  "sealer_onTimeout sealingTxNumber s =
     (let limit = m_maxBlockTransactions (s_engine s);
          s1 = (if s_maxBlockCanSeal s \<ge> limit then s\<lparr>s_maxBlockCanSeal := limit\<rparr> else s);
          s2 = (if isSyncing (m_blockSync (s_engine s1))
                then s1\<lparr>s_lastBlockNumber := to_uint64 (knownHighestNumber (m_blockSync (s_engine s1)))\<rparr> else s1);
          s3 = s2\<lparr>s_timeoutCount := s64 (s_timeoutCount s2 + 1)\<rparr>;
          s4 = (if sealingTxNumber > 0 \<and> (s_lastTimeoutTx s3 = 0 \<or>
                   (s_lastTimeoutTx s3 > sealingTxNumber \<and> sealingTxNumber > s_maxNoTimeoutTx s3))
                then s3\<lparr>s_lastTimeoutTx := sealingTxNumber\<rparr> else s3)
      in if s_maxBlockCanSeal s4 > 2 then s4\<lparr>s_maxBlockCanSeal := s_maxBlockCanSeal s4 div 2\<rparr> else s4)"

definition increaseMaxTxsCanSeal :: "pbft_sealer \<Rightarrow> pbft_sealer option" where
  "increaseMaxTxsCanSeal s =
     (let m = s_maxBlockCanSeal s;
          limit = m_maxBlockTransactions (s_engine s)
      in Option.bind (if s_ratio2 s * round_sig 24 m > 2
               then (if grown (s_ratio2 s) m < 2 ^ 64 then Some (grown (s_ratio2 s) m) else None)
               else Some ((m + 1) mod 2 ^ 64)) (\<lambda>x.
         let y = (if s_lastTimeoutTx s > 0 \<and> x > s_lastTimeoutTx s then s_lastTimeoutTx s else x);
             z = (if s_maxNoTimeoutTx s > 0 \<and> y < s_maxNoTimeoutTx s then s_maxNoTimeoutTx s else y)
         in Some (s\<lparr>s_maxBlockCanSeal := (if z > limit then limit else z)\<rparr>)))"

text \<open>The end of \<^verbatim>\<open>onCommitBlock\<close>, from the update of \<^verbatim>\<open>m_maxNoTimeoutTx\<close> on.\<close>

definition commitWithoutTimeout :: "nat \<Rightarrow> pbft_sealer \<Rightarrow> pbft_sealer option" where
  "commitWithoutTimeout sealingTxNumber s2 =
     (let limit = m_maxBlockTransactions (s_engine s2);
          s3 = (if sealingTxNumber > 0 \<and> (s_maxNoTimeoutTx s2 = 0 \<or> s_maxNoTimeoutTx s2 < sealingTxNumber)
                then s2\<lparr>s_maxNoTimeoutTx := sealingTxNumber\<rparr> else s2)
      in if s_maxBlockCanSeal s3 \<ge> limit then Some (s3\<lparr>s_maxBlockCanSeal := limit\<rparr>)
         else
           Option.bind (if s_lastTimeoutTx s3 \<le> s_maxNoTimeoutTx s3 then attempIncreaseTimeoutTx s3 else Some s3) (\<lambda>s4.
           if s_lastTimeoutTx s4 \<noteq> 0 \<and> s_maxBlockCanSeal s4 \<ge> s_lastTimeoutTx s4 then Some s4
           else increaseMaxTxsCanSeal s4))"

definition sealer_onCommitBlock :: "nat \<Rightarrow> nat \<Rightarrow> nat \<Rightarrow> pbft_sealer \<Rightarrow> pbft_sealer option" where
  "sealer_onCommitBlock blockNumber sealingTxNumber changeCycle s =
     (let limit = m_maxBlockTransactions (s_engine s);
          sync = m_blockSync (s_engine s);
          s1 = (if s_maxBlockCanSeal s \<ge> limit then s\<lparr>s_maxBlockCanSeal := limit\<rparr> else s)
      in if isSyncing sync \<or> changeCycle > 0
         then Some (s1\<lparr>s_lastBlockNumber := to_uint64 (knownHighestNumber sync)\<rparr>)
         else if blockNumber \<le> s_lastBlockNumber s1 then Some s1
         else
           (let s2 = s1\<lparr>s_lastBlockNumber := to_uint64 (s_number s1)\<rparr> in
            if s_timeoutCount s2 > 0 then Some (s2\<lparr>s_timeoutCount := s_timeoutCount s2 - 1\<rparr>)
            else commitWithoutTimeout sealingTxNumber s2))"

section \<open>Floating-point arithmetic\<close>

lemma bit_length_le: "bit_length n \<le> p \<longleftrightarrow> n < 2 ^ p"
proof (induction n arbitrary: p rule: bit_length.induct)
  case (1 n)
  show ?case
  proof (cases "n = 0")
    case False
    then show ?thesis using 1 [of "p - 1"] by (cases p) auto
  qed simp
qed

declare bit_length.simps [simp del]

lemma round_sig_small: "n < 2 ^ p \<Longrightarrow> round_sig p n = n"
  using bit_length_le [of n p] by (simp add: round_sig_def)

lemma round_sig_bounds:
  assumes "n < 2 ^ (p + k)"
  shows "round_sig p n \<le> n + 2 ^ k" "a * 2 ^ k \<le> n \<Longrightarrow> a * 2 ^ k \<le> round_sig p n"
proof -
  define u :: nat where "u = 2 ^ (bit_length n - p)"
  have le: "bit_length n - p \<le> k" using bit_length_le [of n "p + k"] assms by simp
  then have u: "u \<le> 2 ^ k" "u dvd 2 ^ k" "u > 0" by (simp_all add: u_def le_imp_power_dvd)
  have r: "n div u * u \<le> round_sig p n" "round_sig p n \<le> n div u * u + u"
    by (simp_all add: round_sig_def u_def Let_def)
  have d: "n div u * u \<le> n" by simp
  show "round_sig p n \<le> n + 2 ^ k" using r(2) d u(1) by linarith
  assume "a * 2 ^ k \<le> n"
  moreover obtain j where "2 ^ k = u * j" using u(2) by blast
  ultimately have "a * j \<le> n div u" using u(3) by (simp add: less_eq_div_iff_mult_less_eq ac_simps)
  then have "a * j * u \<le> n div u * u" by (rule mult_right_mono) simp
  moreover have "a * j * u = a * 2 ^ k" using \<open>2 ^ k = u * j\<close> by (simp add: ac_simps)
  ultimately show "a * 2 ^ k \<le> round_sig p n" using r(1) by linarith
qed

lemma times_1_1_exact:
  assumes "m < 2 ^ 40"
  shows "times_1_1 m = 11 * m div 10"
proof -
  define n where "n = m * 2476979795053773"
  have r: "round_sig 53 m = m" using assms by (intro round_sig_small) simp
  have n10: "10 * n = 2 ^ 51 * (11 * m) + 2 * m" by (simp add: n_def)
  have "n < 2 ^ 40 * 2476979795053773" using assms by (simp add: n_def)
  also have "\<dots> < 2 ^ (53 + 51)" by simp
  finally have big: "n < 2 ^ (53 + 51)" .
  have "n < 2 ^ 40 * 2476979795053773" using assms by (simp add: n_def)
  also have "\<dots> < 2 ^ (53 + 39)" by simp
  finally have big2: "n < 2 ^ (53 + 39)" .
  define K where "K = 11 * m div 10"
  have K: "10 * K \<le> 11 * m" "11 * m \<le> 10 * K + 9" unfolding K_def by presburger+
  have "K * 2 ^ 51 \<le> n" "n + 2 ^ 39 < (K + 1) * 2 ^ 51" using n10 K assms by simp_all
  then have "K * 2 ^ 51 \<le> round_sig 53 n" "round_sig 53 n < (K + 1) * 2 ^ 51"
    using round_sig_bounds(2) [OF big, of K] round_sig_bounds(1) [OF big2] by simp_all
  then show ?thesis unfolding times_1_1_def r n_def [symmetric] K_def [symmetric]
    by (simp add: div_nat_eqI)
qed

lemma tenth_above_1_iff:
  assumes "m < 2 ^ 40"
  shows "tenth_above_1 m \<longleftrightarrow> m > 10"
proof -
  define n where "n = m * 3602879701896397"
  have r: "round_sig 53 m = m" using assms by (intro round_sig_small) simp
  consider "m < 10" | "m = 10" | "m > 10" by linarith
  then have "round_sig 53 n > 2 ^ 55 \<longleftrightarrow> m > 10"
  proof cases
    case 1
    then have "n < 2 ^ (53 + 2)" "n + 2 ^ 2 < 2 ^ 55" by (simp_all add: n_def)
    with round_sig_bounds(1) [of n 53 2] 1 show ?thesis by simp
  next
    case 2
    then have "bit_length n \<le> 56" "\<not> bit_length n \<le> 55" unfolding bit_length_le by (simp_all add: n_def)
    then have "bit_length n = 56" by simp
    then show ?thesis using 2 by (simp add: n_def round_sig_def Let_def)
  next
    case 3
    then have "n < 2 ^ (53 + 40)" using assms by (simp add: n_def)
    then have "n div 2 ^ 40 * 2 ^ 40 \<le> round_sig 53 n" by (intro round_sig_bounds(2)) simp_all
    moreover have "n < n div 2 ^ 40 * 2 ^ 40 + 2 ^ 40" using div_mult_mod_eq [of n "2 ^ 40"] mod_less_divisor [of "2 ^ 40" n] by simp
    ultimately show ?thesis using 3 by (simp add: n_def)
  qed
  then show ?thesis by (simp add: tenth_above_1_def r n_def)
qed

lemma grown_exact:
  assumes "m < 2 ^ 22" "r \<le> 2"
  shows "grown r m = (2 + r) * m div 2" "round_sig 24 m = m"
proof -
  show m: "round_sig 24 m = m" using assms by (intro round_sig_small) simp
  have "(2 + r) * m \<le> 4 * m" using assms(2) by (intro mult_right_mono) simp_all
  also have "\<dots> < 2 ^ 24" using assms(1) by simp
  finally have "round_sig 24 ((2 + r) * m) = (2 + r) * m" by (rule round_sig_small)
  then show "grown r m = (2 + r) * m div 2" by (simp only: grown_def m flip: distrib_right)
qed

section \<open>The transaction limit\<close>

definition size_inv :: "pbft_sealer \<Rightarrow> bool" where
  "size_inv s \<longleftrightarrow> 1 \<le> s_maxBlockCanSeal s \<and> s_maxNoTimeoutTx s < 2 ^ 40 \<and> s_lastTimeoutTx s < 2 ^ 40 \<and> s_ratio2 s \<le> 2"

abbreviation s_limit :: "pbft_sealer \<Rightarrow> nat" where
  "s_limit s \<equiv> m_maxBlockTransactions (s_engine s)"

lemma attemp_cases:
  assumes "s_maxNoTimeoutTx s < 2 ^ 40" "s_limit s < 2 ^ 40"
  obtains x where "attempIncreaseTimeoutTx s = Some (s\<lparr>s_lastTimeoutTx := x\<rparr>)" "x \<le> s_limit s"
    "x = min (s_limit s) (if s_lastTimeoutTx s \<ge> s_limit s \<or> s_maxNoTimeoutTx s = s_limit s then s_limit s
        else if s_maxNoTimeoutTx s > 10 then 11 * s_maxNoTimeoutTx s div 10 else 2 * s_lastTimeoutTx s)"
proof -
  let ?x = "min (s_limit s) (if s_lastTimeoutTx s \<ge> s_limit s \<or> s_maxNoTimeoutTx s = s_limit s then s_limit s
        else if s_maxNoTimeoutTx s > 10 then 11 * s_maxNoTimeoutTx s div 10 else 2 * s_lastTimeoutTx s)"
  have "11 * s_maxNoTimeoutTx s div 10 < 2 ^ 64" using assms(1) by simp
  moreover have "(s_lastTimeoutTx s * 2) mod 2 ^ 64 = 2 * s_lastTimeoutTx s" if "s_lastTimeoutTx s < s_limit s"
    using that assms(2) by simp
  ultimately have "attempIncreaseTimeoutTx s = Some (s\<lparr>s_lastTimeoutTx := ?x\<rparr>)"
    using assms(1)
    by (auto simp: attempIncreaseTimeoutTx_def Let_def tenth_above_1_iff times_1_1_exact)
  then show ?thesis using that [of ?x] by simp
qed

text \<open>Growing a limit below the maximum: the result is larger, as long as the last timeout allows it.\<close>

lemma increase_cases:
  assumes "size_inv s" "s_maxBlockCanSeal s < s_limit s" "s_limit s \<le> 2 ^ 22"
  obtains x where "increaseMaxTxsCanSeal s = Some (s\<lparr>s_maxBlockCanSeal := x\<rparr>)" "1 \<le> x" "x \<le> s_limit s"
    "s_lastTimeoutTx s = 0 \<or> s_lastTimeoutTx s > s_maxBlockCanSeal s \<Longrightarrow> s_maxBlockCanSeal s < x"
proof -
  let ?m = "s_maxBlockCanSeal s" and ?r = "s_ratio2 s"
  have m: "?m < 2 ^ 22" "?r \<le> 2" using assms by (simp_all add: size_inv_def)
  note g = grown_exact [OF m]
  define x where "x = (if ?r * ?m > 2 then (2 + ?r) * ?m div 2 else ?m + 1)"
  have "(2 + ?r) * ?m \<le> 4 * ?m" using m(2) by (intro mult_right_mono) simp_all
  from div_le_mono [OF this, of 2] have "(2 + ?r) * ?m div 2 \<le> 2 * ?m" by simp
  then have x: "x < 2 ^ 64" "?m < x"
    using m(1) by (auto simp: x_def add_mult_distrib)
  define y where "y = (if s_lastTimeoutTx s > 0 \<and> x > s_lastTimeoutTx s then s_lastTimeoutTx s else x)"
  define z where "z = (if s_maxNoTimeoutTx s > 0 \<and> y < s_maxNoTimeoutTx s then s_maxNoTimeoutTx s else y)"
  define w where "w = (if z > s_limit s then s_limit s else z)"
  have "(?m + 1) mod 2 ^ 64 = ?m + 1" using m(1) by simp
  then have e: "Option.bind (if ?r * round_sig 24 ?m > 2
               then (if grown ?r ?m < 2 ^ 64 then Some (grown ?r ?m) else None)
               else Some ((?m + 1) mod 2 ^ 64)) f = f x" for f :: "nat \<Rightarrow> pbft_sealer option"
    using x(1) g by (auto simp: x_def)
  have "increaseMaxTxsCanSeal s = Some (s\<lparr>s_maxBlockCanSeal := w\<rparr>)"
    unfolding increaseMaxTxsCanSeal_def Let_def e by (simp add: y_def z_def w_def)
  moreover have "1 \<le> y" "y \<le> z" using x(2) by (auto simp: y_def z_def)
  then have "1 \<le> w" "w \<le> s_limit s" using assms(2) by (auto simp: w_def)
  moreover have "?m < w" if "s_lastTimeoutTx s = 0 \<or> s_lastTimeoutTx s > ?m"
  proof -
    have "?m < y" using that x(2) by (auto simp: y_def)
    then show ?thesis using \<open>y \<le> z\<close> assms(2) by (auto simp: w_def)
  qed
  ultimately show ?thesis using that by blast
qed

lemma onTimeout_eq:
  "\<exists>k. sealer_onTimeout n s = s\<lparr>s_lastBlockNumber := k, s_timeoutCount := s64 (s_timeoutCount s + 1),
     s_lastTimeoutTx := (if n > 0 \<and> (s_lastTimeoutTx s = 0 \<or> (s_lastTimeoutTx s > n \<and> n > s_maxNoTimeoutTx s))
                         then n else s_lastTimeoutTx s),
     s_maxBlockCanSeal := (let m = min (s_maxBlockCanSeal s) (s_limit s) in if m > 2 then m div 2 else m)\<rparr>"
  (is "\<exists>k. _ = ?t k")
proof -
  define k where "k = (if isSyncing (m_blockSync (s_engine s))
     then to_uint64 (knownHighestNumber (m_blockSync (s_engine s))) else s_lastBlockNumber s)"
  define m where "m = min (s_maxBlockCanSeal s) (s_limit s)"
  define s1 where "s1 = (if s_maxBlockCanSeal s \<ge> s_limit s then s\<lparr>s_maxBlockCanSeal := s_limit s\<rparr> else s)"
  define s2 where "s2 = (if isSyncing (m_blockSync (s_engine s1))
    then s1\<lparr>s_lastBlockNumber := to_uint64 (knownHighestNumber (m_blockSync (s_engine s1)))\<rparr> else s1)"
  define s3 where "s3 = s2\<lparr>s_timeoutCount := s64 (s_timeoutCount s2 + 1)\<rparr>"
  define s4 where "s4 = (if n > 0 \<and> (s_lastTimeoutTx s3 = 0 \<or> (s_lastTimeoutTx s3 > n \<and> n > s_maxNoTimeoutTx s3))
    then s3\<lparr>s_lastTimeoutTx := n\<rparr> else s3)"
  have "sealer_onTimeout n s = (if s_maxBlockCanSeal s4 > 2 then s4\<lparr>s_maxBlockCanSeal := s_maxBlockCanSeal s4 div 2\<rparr> else s4)"
    unfolding sealer_onTimeout_def Let_def s4_def s3_def s2_def s1_def by (rule refl)
  moreover have "s1 = s\<lparr>s_maxBlockCanSeal := m\<rparr>" by (simp add: s1_def m_def)
  then have "s2 = s\<lparr>s_maxBlockCanSeal := m, s_lastBlockNumber := k\<rparr>" by (simp add: s2_def k_def)
  then have "s3 = s\<lparr>s_maxBlockCanSeal := m, s_lastBlockNumber := k, s_timeoutCount := s64 (s_timeoutCount s + 1)\<rparr>"
    by (simp add: s3_def)
  ultimately have "sealer_onTimeout n s = ?t k" by (simp add: s4_def m_def Let_def)
  then show ?thesis by blast
qed

lemma onTimeout_ok:
  assumes "size_inv s" "1 \<le> s_limit s" "n < 2 ^ 40"
  shows "size_inv (sealer_onTimeout n s)" "s_maxBlockCanSeal (sealer_onTimeout n s) \<le> s_limit s"
  using onTimeout_eq [of n s] assms by (auto simp: size_inv_def Let_def)

lemma commitWithoutTimeout_cases:
  assumes "size_inv s" "1 \<le> s_limit s" "s_limit s \<le> 2 ^ 22" "n < 2 ^ 40"
  obtains s' where "commitWithoutTimeout n s = Some s'" "size_inv s'" "s_maxBlockCanSeal s' \<le> s_limit s"
    "s_engine s' = s_engine s" "s_timeoutCount s' = s_timeoutCount s" "s_lastBlockNumber s' = s_lastBlockNumber s"
    "s_maxBlockCanSeal s < s_limit s \<Longrightarrow> n \<ge> s_maxBlockCanSeal s \<Longrightarrow>
       s_maxBlockCanSeal s < s_maxBlockCanSeal s' \<or>
       (s_maxBlockCanSeal s' = s_maxBlockCanSeal s \<and> s_lastTimeoutTx s < s_lastTimeoutTx s' \<and> s_lastTimeoutTx s \<le> 10)"
    "s_limit s \<le> s_maxBlockCanSeal s \<Longrightarrow> s_maxBlockCanSeal s' = s_limit s"
proof -
  define N where "N = (if n > 0 \<and> (s_maxNoTimeoutTx s = 0 \<or> s_maxNoTimeoutTx s < n) then n else s_maxNoTimeoutTx s)"
  define s3 where "s3 = s\<lparr>s_maxNoTimeoutTx := N\<rparr>"
  have s3_sel: "s_engine s3 = s_engine s" "s_maxBlockCanSeal s3 = s_maxBlockCanSeal s" "s_timeoutCount s3 = s_timeoutCount s"
    "s_lastBlockNumber s3 = s_lastBlockNumber s" "s_lastTimeoutTx s3 = s_lastTimeoutTx s" "s_maxNoTimeoutTx s3 = N"
    by (simp_all add: s3_def)
  have N: "N < 2 ^ 40" "n \<le> N" using assms by (auto simp: N_def size_inv_def)
  have inv3: "size_inv s3" using assms N by (simp add: s3_def size_inv_def)
  have c: "commitWithoutTimeout n s =
      (if s_maxBlockCanSeal s \<ge> s_limit s then Some (s3\<lparr>s_maxBlockCanSeal := s_limit s\<rparr>)
       else Option.bind (if s_lastTimeoutTx s \<le> N then attempIncreaseTimeoutTx s3 else Some s3) (\<lambda>s4.
           if s_lastTimeoutTx s4 \<noteq> 0 \<and> s_maxBlockCanSeal s4 \<ge> s_lastTimeoutTx s4 then Some s4
           else increaseMaxTxsCanSeal s4))"
    by (simp add: commitWithoutTimeout_def Let_def s3_def N_def)
  show ?thesis
  proof (cases "s_maxBlockCanSeal s \<ge> s_limit s")
    case True
    with that [of "s3\<lparr>s_maxBlockCanSeal := s_limit s\<rparr>"] c assms inv3 show ?thesis by (simp add: s3_sel size_inv_def)
  next
    case False
    obtain x where x: "(if s_lastTimeoutTx s \<le> N then attempIncreaseTimeoutTx s3 else Some s3) = Some (s3\<lparr>s_lastTimeoutTx := x\<rparr>)"
      "x < 2 ^ 40" "s_lastTimeoutTx s > N \<Longrightarrow> x = s_lastTimeoutTx s"
      "s_lastTimeoutTx s \<le> N \<Longrightarrow> x = min (s_limit s) (if s_lastTimeoutTx s \<ge> s_limit s \<or> N = s_limit s then s_limit s
        else if N > 10 then 11 * N div 10 else 2 * s_lastTimeoutTx s)"
    proof (cases "s_lastTimeoutTx s \<le> N")
      case True
      with attemp_cases [of s3] N assms(3) that show ?thesis by (fastforce simp: s3_def)
    next
      case False
      with that [of "s_lastTimeoutTx s"] assms(1) show ?thesis by (simp add: s3_def size_inv_def)
    qed
    let ?s4 = "s3\<lparr>s_lastTimeoutTx := x\<rparr>"
    have inv4: "size_inv ?s4" using inv3 x(2) by (simp add: size_inv_def)
    show ?thesis
    proof (cases "x \<noteq> 0 \<and> s_maxBlockCanSeal s \<ge> x")
      case True
      have "s_lastTimeoutTx s < x \<and> s_lastTimeoutTx s \<le> 10" if "n \<ge> s_maxBlockCanSeal s"
      proof -
        have "x \<le> N" "x < s_limit s" using True False N(2) that by simp_all
        then have "s_lastTimeoutTx s \<le> N" using x(3) by fastforce
        from x(4) [OF this] \<open>x < s_limit s\<close> \<open>x \<le> N\<close> True show ?thesis by (auto simp: min_def split: if_splits)
      qed
      moreover have "commitWithoutTimeout n s = Some ?s4" using c False True x(1) by (simp add: s3_sel)
      ultimately show ?thesis using that [of ?s4] inv4 False by (simp add: s3_sel)
    next
      case grow: False
      have pre: "s_maxBlockCanSeal ?s4 < s_limit ?s4" "s_limit ?s4 \<le> 2 ^ 22" using False assms(3) by (simp_all add: s3_sel)
      obtain y where y: "increaseMaxTxsCanSeal ?s4 = Some (?s4\<lparr>s_maxBlockCanSeal := y\<rparr>)" "1 \<le> y" "y \<le> s_limit ?s4"
        "s_lastTimeoutTx ?s4 = 0 \<or> s_lastTimeoutTx ?s4 > s_maxBlockCanSeal ?s4 \<Longrightarrow> s_maxBlockCanSeal ?s4 < y"
        using increase_cases [OF inv4 pre] by blast
      have "s_maxBlockCanSeal s < y" using y(4) grow by (auto simp: s3_sel)
      moreover have "commitWithoutTimeout n s = Some (?s4\<lparr>s_maxBlockCanSeal := y\<rparr>)"
        using c False x(1) grow y(1) by (auto simp: s3_sel)
      moreover have "size_inv (?s4\<lparr>s_maxBlockCanSeal := y\<rparr>)" using inv4 y(2) by (simp add: size_inv_def)
      ultimately show ?thesis using that [of "?s4\<lparr>s_maxBlockCanSeal := y\<rparr>"] y(3) by (simp add: s3_sel)
    qed
  qed
qed

lemma onCommit_ok:
  assumes "size_inv s" "1 \<le> s_limit s" "s_limit s \<le> 2 ^ 22" "n < 2 ^ 40"
  obtains s' where "sealer_onCommitBlock h n c s = Some s'" "size_inv s'" "s_maxBlockCanSeal s' \<le> s_limit s" "s_engine s' = s_engine s"
proof -
  define s1 where "s1 = s\<lparr>s_maxBlockCanSeal := min (s_maxBlockCanSeal s) (s_limit s)\<rparr>"
  define s2 where "s2 = s1\<lparr>s_lastBlockNumber := to_uint64 (s_number s)\<rparr>"
  have i1: "size_inv s1" using assms by (simp add: s1_def size_inv_def)
  then have i2: "size_inv s2" by (simp add: s2_def size_inv_def)
  have "sealer_onCommitBlock h n c s =
     (if isSyncing (m_blockSync (s_engine s)) \<or> c > 0
      then Some (s1\<lparr>s_lastBlockNumber := to_uint64 (knownHighestNumber (m_blockSync (s_engine s)))\<rparr>)
      else if h \<le> s_lastBlockNumber s then Some s1
      else if s_timeoutCount s > 0 then Some (s2\<lparr>s_timeoutCount := s_timeoutCount s - 1\<rparr>)
      else commitWithoutTimeout n s2)"
    by (simp add: sealer_onCommitBlock_def Let_def s1_def s2_def min_def)
  moreover have "s_engine s1 = s_engine s" "s_engine s2 = s_engine s" "s_maxBlockCanSeal s1 \<le> s_limit s" "s_maxBlockCanSeal s2 \<le> s_limit s"
    by (simp_all add: s1_def s2_def)
  moreover obtain s' where "commitWithoutTimeout n s2 = Some s'" "size_inv s'" "s_maxBlockCanSeal s' \<le> s_limit s2" "s_engine s' = s_engine s2"
    using commitWithoutTimeout_cases [OF i2, of n] assms \<open>s_engine s2 = s_engine s\<close> by metis
  moreover have "size_inv (t\<lparr>s_lastBlockNumber := k\<rparr>) = size_inv t" "size_inv (t\<lparr>s_timeoutCount := c'\<rparr>) = size_inv t" for t k c'
    by (simp_all add: size_inv_def)
  ultimately show ?thesis using that i1 i2 by (auto split: if_splits)
qed

section \<open>The limit recovers\<close>

text \<open>
  A run of commits of full blocks: the \<open>k\<close>-th commit finds the engine in state \<open>es k\<close>, and its block holds as
  many transactions as the sealer allowed.
\<close>

primrec full_run :: "(nat \<Rightarrow> pbft_engine) \<Rightarrow> pbft_sealer \<Rightarrow> nat \<Rightarrow> pbft_sealer option" where
  "full_run es s 0 = Some s"
| "full_run es s (Suc k) = Option.bind (full_run es s k) (\<lambda>t. let t1 = t\<lparr>s_engine := es k\<rparr> in
     sealer_onCommitBlock (nat (s_number t1)) (s_maxBlockCanSeal t1) 0 t1)"

text \<open>The number of such commits that may still be needed.\<close>

definition commits_left :: "nat \<Rightarrow> pbft_sealer \<Rightarrow> nat" where
  "commits_left L s = (if s_maxBlockCanSeal s \<ge> L then 0
     else nat (s_timeoutCount s) + 12 * (L - s_maxBlockCanSeal s) + (11 - s_lastTimeoutTx s))"

lemma full_commit:
  assumes "size_inv t" "1 \<le> L" "L \<le> 2 ^ 22" "s_limit t = L" "\<not> isSyncing (m_blockSync (s_engine t))"
    and "s_maxBlockCanSeal t < 2 ^ 40" "s_number t = int h" "h < 2 ^ 63" "s_lastBlockNumber t < h"
  obtains t' where "sealer_onCommitBlock h (s_maxBlockCanSeal t) 0 t = Some t'" "size_inv t'"
    "s_maxBlockCanSeal t' \<le> L" "s_lastBlockNumber t' = h" "commits_left L t' \<le> commits_left L t - 1"
proof -
  define t1 where "t1 = t\<lparr>s_maxBlockCanSeal := min (s_maxBlockCanSeal t) L, s_lastBlockNumber := h\<rparr>"
  have sel: "s_engine t1 = s_engine t" "s_timeoutCount t1 = s_timeoutCount t" "s_lastBlockNumber t1 = h"
    "s_lastTimeoutTx t1 = s_lastTimeoutTx t" "s_maxBlockCanSeal t1 = min (s_maxBlockCanSeal t) L"
    by (simp_all add: t1_def)
  have inv1: "size_inv t1" using assms(1,2) by (simp add: t1_def size_inv_def)
  have "to_uint64 (int h) = h" using assms(8) by (simp add: to_uint64_def)
  then have c: "sealer_onCommitBlock h (s_maxBlockCanSeal t) 0 t =
      (if s_timeoutCount t > 0 then Some (t1\<lparr>s_timeoutCount := s_timeoutCount t - 1\<rparr>)
       else commitWithoutTimeout (s_maxBlockCanSeal t) t1)"
    using assms(4,5,7,9) by (simp add: sealer_onCommitBlock_def Let_def t1_def min_def)
  show ?thesis
  proof (cases "s_timeoutCount t > 0")
    case True
    have "size_inv (t1\<lparr>s_timeoutCount := s_timeoutCount t - 1\<rparr>)" using inv1 by (simp add: size_inv_def)
    moreover have "commits_left L (t1\<lparr>s_timeoutCount := s_timeoutCount t - 1\<rparr>) \<le> commits_left L t - 1"
      using True by (auto simp: commits_left_def sel)
    ultimately show ?thesis using that [of "t1\<lparr>s_timeoutCount := s_timeoutCount t - 1\<rparr>"] c True sel by simp
  next
    case False
    have lim: "1 \<le> s_limit t1" "s_limit t1 \<le> 2 ^ 22" using assms(2-4) sel by simp_all
    obtain t' where t': "commitWithoutTimeout (s_maxBlockCanSeal t) t1 = Some t'" "size_inv t'"
      "s_maxBlockCanSeal t' \<le> L" "s_timeoutCount t' = s_timeoutCount t" "s_lastBlockNumber t' = h"
      "s_maxBlockCanSeal t < L \<Longrightarrow> s_maxBlockCanSeal t < s_maxBlockCanSeal t' \<or>
         (s_maxBlockCanSeal t' = s_maxBlockCanSeal t \<and> s_lastTimeoutTx t < s_lastTimeoutTx t' \<and> s_lastTimeoutTx t \<le> 10)"
      "s_maxBlockCanSeal t \<ge> L \<Longrightarrow> s_maxBlockCanSeal t' = L"
    proof -
      obtain t' where t': "commitWithoutTimeout (s_maxBlockCanSeal t) t1 = Some t'" "size_inv t'"
        "s_maxBlockCanSeal t' \<le> s_limit t1" "s_timeoutCount t' = s_timeoutCount t1" "s_lastBlockNumber t' = s_lastBlockNumber t1"
        "s_maxBlockCanSeal t1 < s_limit t1 \<Longrightarrow> s_maxBlockCanSeal t \<ge> s_maxBlockCanSeal t1 \<Longrightarrow>
           s_maxBlockCanSeal t1 < s_maxBlockCanSeal t' \<or>
           (s_maxBlockCanSeal t' = s_maxBlockCanSeal t1 \<and> s_lastTimeoutTx t1 < s_lastTimeoutTx t' \<and> s_lastTimeoutTx t1 \<le> 10)"
        "s_limit t1 \<le> s_maxBlockCanSeal t1 \<Longrightarrow> s_maxBlockCanSeal t' = s_limit t1"
        using commitWithoutTimeout_cases [OF inv1 lim assms(6)] by blast
      show ?thesis by (rule that [OF t'(1)]) (use t' sel assms(4) in auto)
    qed
    have "commits_left L t' \<le> commits_left L t - 1"
      using t'(3,4,6,7) by (auto simp: commits_left_def)
    then show ?thesis using that [of t'] c False t' by simp
  qed
qed

lemma full_run_progress:
  assumes "size_inv s" "1 \<le> L" "L \<le> 2 ^ 22" "s_maxBlockCanSeal s < 2 ^ 40" "s_lastBlockNumber s \<le> h" "h + k < 2 ^ 63"
    and "\<And>j. j < k \<Longrightarrow> m_maxBlockTransactions (es j) = L \<and> \<not> isSyncing (m_blockSync (es j)) \<and>
           number (m_blockChain (es j)) = int (h + Suc j)"
  shows "\<exists>t. full_run es s k = Some t \<and> size_inv t \<and> s_maxBlockCanSeal t < 2 ^ 40 \<and> (0 < k \<longrightarrow> s_maxBlockCanSeal t \<le> L) \<and>
     s_lastBlockNumber t \<le> h + k \<and> commits_left L t \<le> commits_left L s - k"
  using assms(6,7)
proof (induction k)
  case 0
  then show ?case using assms(1,4,5) by simp
next
  case (Suc k)
  then obtain t where t: "full_run es s k = Some t" "size_inv t" "s_maxBlockCanSeal t < 2 ^ 40"
    "s_lastBlockNumber t \<le> h + k" "commits_left L t \<le> commits_left L s - k" by auto
  have e: "m_maxBlockTransactions (es k) = L" "\<not> isSyncing (m_blockSync (es k))" "number (m_blockChain (es k)) = int (h + Suc k)"
    using Suc.prems(2) by simp_all
  have "size_inv (t\<lparr>s_engine := es k\<rparr>)" "commits_left L (t\<lparr>s_engine := es k\<rparr>) = commits_left L t"
    using t(2) by (simp_all add: size_inv_def commits_left_def)
  with full_commit [of "t\<lparr>s_engine := es k\<rparr>" L "h + Suc k"] assms(2,3) e t(3,4) Suc.prems(1)
  obtain t' where t': "sealer_onCommitBlock (h + Suc k) (s_maxBlockCanSeal t) 0 (t\<lparr>s_engine := es k\<rparr>) = Some t'" "size_inv t'"
    "s_maxBlockCanSeal t' \<le> L" "s_lastBlockNumber t' = h + Suc k" "commits_left L t' \<le> commits_left L t - 1"
    by auto
  have "s_maxBlockCanSeal t' < 2 ^ 40" using t'(3) assms(3) by simp
  moreover have "full_run es s (Suc k) = Some t'" using t(1) t'(1) e(3) by (simp add: nat_add_distrib)
  ultimately show ?case using t' t(5) by simp
qed

text \<open>What \<open>doWork\<close> reads of the chain.\<close>

lemma highestBlock_ok:
  assumes "chain_ok (crypto (se_engine env)) (m_blockChain (s_engine s))"
  obtains b c where "highestBlock env s = (Some b, on_engine (\<lambda>e. e\<lparr>m_blockChain := c\<rparr>) s)"
    "block_at (s_number s) (m_blockChain (s_engine s)) = Some b" "m_number (blockHeader b) = s_number s"
    "0 \<le> s_number s" "number c = s_number s"
proof -
  let ?cr = "crypto (se_engine env)" and ?c = "m_blockChain (s_engine s)"
  have l: "linked ?cr ?c" using assms by (simp add: chain_ok_def)
  then have n: "0 \<le> s_number s" by (simp add: linked_def)
  from l n obtain h b where hb: "map_of (tb_number2hash ?c) (s_number s) = Some h" "map_of (tb_hash2block ?c) h = Some b"
    "m_number (blockHeader b) = s_number s" unfolding linked_def by (metis not_None_eq order_refl)
  then have at: "block_at (s_number s) ?c = Some b" by (simp add: block_at_def)
  then have "fst (getBlockByNumber ?cr (s_number s) ?c) = Some b"
    using getBlockByNumber_transparent [OF assms] by simp
  moreover have "number (snd (getBlockByNumber ?cr (s_number s) ?c)) = s_number s"
    by (simp add: getBlockByNumber_def getBlock_number_def getBlock_def split: option.split)
  ultimately show ?thesis using that [of b "snd (getBlockByNumber ?cr (s_number s) ?c)"] at hb(3) n
    by (simp add: highestBlock_def case_prod_unfold)
qed

end
