(* ===== verification/SealerProps.thy ===== *)
theory SealerProps
  imports Sealer Example
begin

text \<open>
  Properties of the sealer thread: the blocks it proposes extend the tip and pass the checks of the engine, a leader
  proposes one block per height, and the number of transactions a block may hold stays in its bounds
  and grows back to the configured maximum.
\<close>

definition solo_pool :: tx_pool where
  "solo_pool = demo_pool"

definition solo_seal_env :: seal_env where
  "solo_seal_env = \<lparr>se_engine = solo_env, se_pool = demo_pool_env, se_transactionRoot = (\<lambda>_. 5)\<rparr>"

definition solo_node :: "int \<Rightarrow> pbft_engine" where
  "solo_node n = solo_ready\<lparr>m_blockChain := (genesis_chain solo_crypto solo_genesis demo_sys)\<lparr>m_blockNumber := n\<rparr>\<rparr>"

definition solo_sealer :: "nat \<Rightarrow> pbft_sealer" where
  "solo_sealer m = \<lparr>s_block = solo_block, s_transactionSet = [], s_execContext = None, s_extraData = [],
     s_syncTxPool = False, s_syncBlock = False, s_startConsensus = True, s_maxBlockCanSeal = m,
     s_lastTimeoutTx = 0, s_maxNoTimeoutTx = 0, s_timeoutCount = 0, s_lastBlockNumber = 0,
     s_enableDynamicBlockSize = True, s_ratio2 = 1, s_engine = solo_node 0, s_pool = solo_pool\<rparr>"

lemma solo_sealer_sel [simp]:
  "s_block (solo_sealer m) = solo_block" "s_maxBlockCanSeal (solo_sealer m) = m" "s_lastTimeoutTx (solo_sealer m) = 0"
  "s_maxNoTimeoutTx (solo_sealer m) = 0" "s_timeoutCount (solo_sealer m) = 0" "s_lastBlockNumber (solo_sealer m) = 0"
  "s_ratio2 (solo_sealer m) = 1" "s_engine (solo_sealer m) = solo_node 0" "\<not> s_syncBlock (solo_sealer m)"
  by (simp_all add: solo_sealer_def)

section \<open>Proposed blocks\<close>


lemma solo_node_sel [simp]:
  "m_maxBlockTransactions (solo_node n) = 1000" "m_blockSync (solo_node n) = m_blockSync solo_ready"
  "m_idx (solo_node n) = 0" "getLeader (solo_node n) = getLeader solo_ready"
  "m_blockChain (solo_node 0) = genesis_chain solo_crypto solo_genesis demo_sys"
  by (simp_all add: solo_node_def getLeader_def) (simp add: genesis_chain_def)

lemma solo_leader: "getLeader solo_ready = (True, 0)"
  by (simp add: getLeader_def Invalid256_def) (simp add: solo_ready_def solo_engine_def)

lemma solo_chain_ok: "chain_ok solo_crypto (genesis_chain solo_crypto solo_genesis demo_sys)"
  by (rule chain_ok_genesis) (simp_all add: headerHash_def solo_hash)


text \<open>
  C17: A leader proposes one block per height.  While its block for the next height is sealed and it is still the leader,
  a round of \<^verbatim>\<open>doWork\<close> leaves the block as it is and the engine proposes and signs nothing, also when it is woken by the report of a block
  the engine knows already; the callback for a view change keeps the block too.
\<close>

theorem leader_proposes_once:
  assumes "isSealed (s_block s)" "s_shouldHandleBlock s" "chain_ok (crypto (se_engine env)) (m_blockChain (s_engine s))"
    and "s_syncBlock s \<Longrightarrow> s_number s \<noteq> 0 \<and> s_number s \<le> m_number (m_highestBlock (s_engine s))"
  shows "(\<exists>s' c. doWork env s = Inr s' \<and> s_block s' = s_block s \<and> s_engine s' = (s_engine s)\<lparr>m_blockChain := c\<rparr>) \<and>
    resetBlockForViewChange env s = Inr s"
proof -
  define s0 where "s0 = s\<lparr>s_syncBlock := False\<rparr>"
  have e0: "s_engine s0 = s_engine s" by (simp add: s0_def)
  obtain b c where b: "highestBlock env s0 = (Some b, on_engine (\<lambda>e. e\<lparr>m_blockChain := c\<rparr>) s0)"
    "m_number (blockHeader b) = s_number s0" "number c = s_number s0"
    using highestBlock_ok [of env s0] assms(3) unfolding e0 by metis
  let ?s1 = "on_engine (\<lambda>e. e\<lparr>m_blockChain := c\<rparr>) s0"
  have "\<not> shouldResetSealing ?s1"
    using assms(1,2) b(3) by (simp add: s0_def shouldResetSealing_def s_shouldHandleBlock_def getLeader_def split: if_splits)
  then have "reportNewBlock env s = Inr (if s_syncBlock s then ?s1 else s)"
    using assms(4) b by (auto simp: s0_def reportNewBlock_def reportBlockWithoutLock_def lift_engine_def)
  then have "doWork env s = Inr (if s_syncBlock s then ?s1 else s)"
    using assms(1) by (simp add: s0_def doWork_def s_shouldSeal_def base_shouldSeal_def)
  moreover have "\<exists>c. s_engine (if s_syncBlock s then ?s1 else s) = (s_engine s)\<lparr>m_blockChain := c\<rparr>"
    by (cases "s_syncBlock s") (auto simp: s0_def intro: exI [of _ "m_blockChain (s_engine s)"])
  ultimately show ?thesis using assms(1,2) by (auto simp: s0_def resetBlockForViewChange_def)
qed

theorem leader_proposes_once_witness:
  "\<exists>s'. doWork solo_seal_env (solo_sealer 1000) = Inr s' \<and> s_block s' = solo_block"
proof -
  have "isSealed solo_block" by (simp add: isSealed_def solo_block_def solo_header_def Invalid256_def)
  moreover have "s_shouldHandleBlock (solo_sealer 1000)"
    using solo_leader by (simp add: s_shouldHandleBlock_def is_s64_def solo_block_def)
  ultimately show ?thesis
    using leader_proposes_once [of "solo_sealer 1000" solo_seal_env] solo_chain_ok by (auto simp: solo_seal_env_def)
qed

section \<open>The transaction limit\<close>

text \<open>
  C19: The number of transactions a block may hold stays within its bounds.  With a limit of the engine between 1 and
  \<open>2 ^ 22\<close>, both callbacks leave the sealer with a limit between 1 and the engine's, whatever counts below \<open>2 ^ 40\<close>
  they are given: the floating-point computations of \<^verbatim>\<open>onCommitBlock\<close> stay in the range of
  \<^verbatim>\<open>uint64_t\<close>, and a timeout never brings the limit to 0.
\<close>

theorem block_size_bounds:
  assumes "size_inv s" "1 \<le> s_limit s" "s_limit s \<le> 2 ^ 22" "n < 2 ^ 40"
  shows "size_inv (sealer_onTimeout n s) \<and> s_maxBlockCanSeal (sealer_onTimeout n s) \<in> {1..s_limit s} \<and>
    (\<exists>s'. sealer_onCommitBlock h n c s = Some s' \<and> size_inv s' \<and> s_maxBlockCanSeal s' \<in> {1..s_limit s})"
proof -
  obtain s' where "sealer_onCommitBlock h n c s = Some s'" "size_inv s'" "s_maxBlockCanSeal s' \<le> s_limit s"
    using onCommit_ok [OF assms] by blast
  then show ?thesis using onTimeout_ok [OF assms(1,2,4)] by (auto simp: size_inv_def)
qed

theorem block_size_bounds_witness:
  "s_maxBlockCanSeal (sealer_onTimeout 900 (solo_sealer 5000)) \<in> {1..1000}"
  using block_size_bounds [of "solo_sealer 5000" 900] by (simp add: size_inv_def)

text \<open>
  C18: The limit recovers.  When no timeout occurs and blocks are full, the number of transactions a block may hold is back at
  the engine's maximum \<open>L\<close> after at most \<open>12 L\<close> commits more than there were timeouts, from any state of the
  counters, and stays there.
\<close>

theorem block_size_recovers:
  assumes "size_inv s" "1 \<le> L" "L \<le> 2 ^ 22" "s_maxBlockCanSeal s < 2 ^ 40" "s_lastBlockNumber s \<le> h" "h + k < 2 ^ 63"
    and "\<And>j. j < k \<Longrightarrow> m_maxBlockTransactions (es j) = L \<and> \<not> isSyncing (m_blockSync (es j)) \<and>
           number (m_blockChain (es j)) = int (h + Suc j)"
    and "nat (s_timeoutCount s) + 12 * L \<le> k"
  shows "\<exists>t. full_run es s k = Some t \<and> s_maxBlockCanSeal t = L"
proof -
  have "k > 0" using assms(2,8) by linarith
  with full_run_progress [OF assms(1-7)] obtain t where t: "full_run es s k = Some t" "s_maxBlockCanSeal t \<le> L"
    "size_inv t" "commits_left L t \<le> commits_left L s - k" by auto
  have "1 \<le> s_maxBlockCanSeal s" using assms(1) by (simp add: size_inv_def)
  then have "commits_left L s \<le> k" using assms(8) by (auto simp: commits_left_def)
  then have "s_maxBlockCanSeal t \<ge> L" using t(4) by (auto simp: commits_left_def split: if_splits)
  then show ?thesis using t by auto
qed

theorem block_size_recovers_witness:
  "\<exists>t. full_run (\<lambda>k. solo_node (int (Suc k))) (solo_sealer 1) 12000 = Some t \<and> s_maxBlockCanSeal t = 1000"
  using block_size_recovers [of "solo_sealer 1" 1000 0 12000 "\<lambda>k. solo_node (int (Suc k))"]
  by (simp add: size_inv_def isSyncing_def solo_node_def number_def)
end
