(* ===== verification/RaftMsg.thy ===== *)
theory RaftMsg
  imports PBFT_Msg
begin

text \<open>
  The Raft messages of \<^verbatim>\<open>libconsensus/raft/Common.h\<close>.

  \<^verbatim>\<open>RaftMsg\<close> is the record \<open>raft_msg\<close>; the vote request, the vote response, the heartbeat and its
  response extend it.  A term is a \<^verbatim>\<open>size_t\<close> and wraps at 64 bits; \<^verbatim>\<open>_s << term\<close> selects
  \<^verbatim>\<open>append(unsigned)\<close>, so that terms, like heights, are written modulo \<open>2 ^ 32\<close>
  (\<open>append_size_t\<close>).  The members that a default-constructed C++ message leaves uninitialised are
  \<open>0\<close> in the \<open>empty\<dots>\<close> values; \<^verbatim>\<open>populate\<close> sets every one of them.

  Shown: each message class implements the codec interface, and a message of any class put into a
  packet is received with its type, its terms and its numbers reduced modulo \<open>2 ^ 32\<close>.
\<close>

section \<open>Enumerations\<close>

datatype RaftPacketType = RaftVoteReqPacket | RaftVoteRespPacket | RaftHeartBeatPacket | RaftHeartBeatRespPacket

fun raft_code :: "RaftPacketType \<Rightarrow> byte" where
  "raft_code RaftVoteReqPacket = 0x00"
| "raft_code RaftVoteRespPacket = 0x01"
| "raft_code RaftHeartBeatPacket = 0x02"
| "raft_code RaftHeartBeatRespPacket = 0x03"

definition RaftPacketCount :: byte where "RaftPacketCount = 0x04"

datatype RaftRole = EN_STATE_LEADER | EN_STATE_FOLLOWER | EN_STATE_CANDIDATE

definition VOTE_RESP_REJECT :: byte where "VOTE_RESP_REJECT = 0"
definition VOTE_RESP_LEADER_REJECT :: byte where "VOTE_RESP_LEADER_REJECT = 1"
definition VOTE_RESP_LASTTERM_ERROR :: byte where "VOTE_RESP_LASTTERM_ERROR = 2"
definition VOTE_RESP_OUTDATED :: byte where "VOTE_RESP_OUTDATED = 3"
definition VOTE_RESP_FIRST_VOTE :: byte where "VOTE_RESP_FIRST_VOTE = 4"
definition VOTE_RESP_DISCARD :: byte where "VOTE_RESP_DISCARD = 5"
definition VOTE_RESP_GRANTED :: byte where "VOTE_RESP_GRANTED = 6"

lemmas vote_flags = VOTE_RESP_REJECT_def VOTE_RESP_LEADER_REJECT_def VOTE_RESP_LASTTERM_ERROR_def
  VOTE_RESP_OUTDATED_def VOTE_RESP_FIRST_VOTE_def VOTE_RESP_DISCARD_def VOTE_RESP_GRANTED_def

datatype HandleVoteResult = TO_LEADER | TO_FOLLOWER | NONE

section \<open>Messages\<close>

type_synonym term_t = "64 word"

record raft_msg =
  r_idx :: IDXTYPE
  r_term :: term_t
  r_height :: int
  r_blockHash :: h256

record raft_vote_req = raft_msg +
  candidate :: IDXTYPE
  req_lastLeaderTerm :: term_t
  lastBlockNumber :: int

record raft_vote_resp = raft_msg +
  voteFlag :: byte
  resp_lastLeaderTerm :: term_t

record raft_heartbeat = raft_msg +
  hb_leader :: IDXTYPE
  uncommitedBlock :: bytes
  uncommitedBlockNumber :: int

record raft_heartbeat_resp = raft_msg +
  uncommitedBlockHash :: h256

definition emptyVoteReq :: raft_vote_req where
  "emptyVoteReq = \<lparr> r_idx = 0, r_term = 0, r_height = 0, r_blockHash = 0, candidate = 0,
     req_lastLeaderTerm = 0, lastBlockNumber = 0 \<rparr>"

definition emptyVoteResp :: raft_vote_resp where
  "emptyVoteResp = \<lparr> r_idx = 0, r_term = 0, r_height = 0, r_blockHash = 0,
     voteFlag = VOTE_RESP_REJECT, resp_lastLeaderTerm = 0 \<rparr>"

definition emptyHeartBeat :: raft_heartbeat where
  "emptyHeartBeat = \<lparr> r_idx = 0, r_term = 0, r_height = 0, r_blockHash = 0, hb_leader = 0,
     uncommitedBlock = [], uncommitedBlockNumber = 0 \<rparr>"

definition emptyHeartBeatResp :: raft_heartbeat_resp where
  "emptyHeartBeatResp = \<lparr> r_idx = 0, r_term = 0, r_height = 0, r_blockHash = 0,
     uncommitedBlockHash = 0 \<rparr>"

definition hasData :: "raft_heartbeat \<Rightarrow> bool" where
  "hasData hb \<longleftrightarrow> length (uncommitedBlock hb) \<noteq> 0"

text \<open>\<^verbatim>\<open>append(unsigned)\<close> reached from a \<^verbatim>\<open>size_t\<close>.\<close>

definition append_size_t :: "term_t \<Rightarrow> rlp_stream \<Rightarrow> rlp_error + rlp_stream" where
  "append_size_t t = append_bigint (unat t mod 2 ^ 32)"

definition raft_stream :: "'a raft_msg_scheme \<Rightarrow> rlp_stream \<Rightarrow> rlp_error + rlp_stream" where
  "raft_stream m = stream_all
     [append_bigint (unat (r_idx m)), append_size_t (r_term m), append_int64 (r_height m),
      append_hash 32 (r_blockHash m)]"

definition raft_populate :: "'a raft_msg_scheme \<Rightarrow> bytes \<Rightarrow> rlp_error + 'a raft_msg_scheme" where
  "raft_populate m r =
     ebind (ebind (rlp_at r 0) (toInt 16 Strict)) (\<lambda>i.
     ebind (ebind (rlp_at r 1) (toInt 64 Strict)) (\<lambda>t.
     ebind (ebind (rlp_at r 2) (toInt64 Strict)) (\<lambda>h.
     ebind (ebind (rlp_at r 3) (toFixedHash 32 VeryStrict)) (\<lambda>bh.
     Inr (m\<lparr> r_idx := of_nat i, r_term := of_nat t, r_height := h, r_blockHash := bh \<rparr>)))))"

definition voteReq_stream :: "'a raft_vote_req_scheme \<Rightarrow> rlp_stream \<Rightarrow> rlp_error + rlp_stream" where
  "voteReq_stream m s = ebind (raft_stream m s) (stream_all
     [append_bigint (unat (candidate m)), append_size_t (req_lastLeaderTerm m),
      append_int64 (lastBlockNumber m)])"

definition voteReq_populate :: "'a raft_vote_req_scheme \<Rightarrow> bytes \<Rightarrow> rlp_error + 'a raft_vote_req_scheme" where
  "voteReq_populate m r =
     ebind (raft_populate m r) (\<lambda>m'.
     ebind (ebind (rlp_at r 4) (toInt 16 Strict)) (\<lambda>c.
     ebind (ebind (rlp_at r 5) (toInt 64 Strict)) (\<lambda>l.
     ebind (ebind (rlp_at r 6) (toInt64 Strict)) (\<lambda>b.
     Inr (m'\<lparr> candidate := of_nat c, req_lastLeaderTerm := of_nat l, lastBlockNumber := b \<rparr>)))))"

definition voteResp_stream :: "'a raft_vote_resp_scheme \<Rightarrow> rlp_stream \<Rightarrow> rlp_error + rlp_stream" where
  "voteResp_stream m s = ebind (raft_stream m s) (stream_all
     [append_bigint (unat (voteFlag m)), append_size_t (resp_lastLeaderTerm m)])"

definition voteResp_populate :: "'a raft_vote_resp_scheme \<Rightarrow> bytes \<Rightarrow> rlp_error + 'a raft_vote_resp_scheme" where
  "voteResp_populate m r =
     ebind (raft_populate m r) (\<lambda>m'.
     ebind (ebind (rlp_at r 4) (toInt 8 Strict)) (\<lambda>f.
     ebind (ebind (rlp_at r 5) (toInt 64 Strict)) (\<lambda>l.
     Inr (m'\<lparr> voteFlag := of_nat f, resp_lastLeaderTerm := of_nat l \<rparr>))))"

definition heartBeat_stream :: "'a raft_heartbeat_scheme \<Rightarrow> rlp_stream \<Rightarrow> rlp_error + rlp_stream" where
  "heartBeat_stream m s = ebind (raft_stream m s) (stream_all
     [append_bigint (unat (hb_leader m)), append_bytes (uncommitedBlock m) False,
      append_int64 (uncommitedBlockNumber m)])"

definition heartBeat_populate :: "'a raft_heartbeat_scheme \<Rightarrow> bytes \<Rightarrow> rlp_error + 'a raft_heartbeat_scheme" where
  "heartBeat_populate m r =
     ebind (raft_populate m r) (\<lambda>m'.
     ebind (ebind (rlp_at r 4) (toInt 16 Strict)) (\<lambda>l.
     ebind (ebind (rlp_at r 5) (toBytes LaissezFaire)) (\<lambda>b.
     ebind (ebind (rlp_at r 6) (toInt64 Strict)) (\<lambda>n.
     Inr (m'\<lparr> hb_leader := of_nat l, uncommitedBlock := b, uncommitedBlockNumber := n \<rparr>)))))"

definition heartBeatResp_stream :: "'a raft_heartbeat_resp_scheme \<Rightarrow> rlp_stream \<Rightarrow> rlp_error + rlp_stream" where
  "heartBeatResp_stream m s =
     ebind (raft_stream m s) (stream_all [append_hash 32 (uncommitedBlockHash m)])"

definition heartBeatResp_populate :: "'a raft_heartbeat_resp_scheme \<Rightarrow> bytes \<Rightarrow> rlp_error + 'a raft_heartbeat_resp_scheme" where
  "heartBeatResp_populate m r =
     ebind (raft_populate m r) (\<lambda>m'.
     ebind (ebind (rlp_at r 4) (toFixedHash 32 Strict)) (\<lambda>h.
     Inr (m'\<lparr> uncommitedBlockHash := h \<rparr>)))"

section \<open>Packets\<close>

record raft_packet =
  rp_nodeIdx :: IDXTYPE
  rp_nodeId :: h512
  rp_packetType :: byte
  rp_data :: bytes
  rp_timestamp :: nat
  rp_endpoint :: string

definition emptyRaftPacket :: "nat \<Rightarrow> raft_packet" where
  "emptyRaftPacket now = \<lparr> rp_nodeIdx = 0, rp_nodeId = 0, rp_packetType = raft_code RaftVoteReqPacket,
     rp_data = [], rp_timestamp = now, rp_endpoint = [] \<rparr>"

definition raft_packet_encode :: "raft_packet \<Rightarrow> rlp_error + bytes" where
  "raft_packet_encode p =
     ebind (stream_all [append_bigint (unat (rp_packetType p)), append_bytes (rp_data p) False]
       rlpStream) rlp_out"

text \<open>
  \<^verbatim>\<open>populate\<close> reads the first byte as one item and the rest as another.
\<close>

definition raft_packet_decode :: "raft_packet \<Rightarrow> bytes \<Rightarrow> rlp_error + raft_packet" where
  "raft_packet_decode p d =
     ebind (ebind (mkRLP VeryStrict (cropped 0 1 d)) (toInt 32 ThrowOnFail)) (\<lambda>t.
     ebind (ebind (mkRLP VeryStrict (cropped_from 1 d)) (toBytes LaissezFaire)) (\<lambda>b.
     Inr (p\<lparr> rp_packetType := of_nat t, rp_data := b \<rparr>)))"

definition raft_setOtherField :: "nat \<Rightarrow> IDXTYPE \<Rightarrow> h512 \<Rightarrow> string \<Rightarrow> raft_packet \<Rightarrow> raft_packet" where
  "raft_setOtherField now i n ep p =
     p\<lparr> rp_nodeIdx := i, rp_nodeId := n, rp_endpoint := ep, rp_timestamp := now \<rparr>"

text \<open>
  \<^verbatim>\<open>transDataToMessage\<close> wraps the fields of a message, as one byte string, into a list and that list
  into a packet.
\<close>

definition raft_transDataToMessage :: "nat \<Rightarrow> (rlp_stream \<Rightarrow> rlp_error + rlp_stream) \<Rightarrow> RaftPacketType \<Rightarrow> rlp_error + bytes" where
  "raft_transDataToMessage now f t =
     ebind (encode_fields f) (\<lambda>packetData.
     raft_packet_encode ((emptyRaftPacket now)\<lparr> rp_data := packetData, rp_packetType := raft_code t \<rparr>))"

text \<open>
  What the receiver makes of a buffer: the packet is decoded when it arrives, and the handler of its
  type reads the message from its data.
\<close>

definition raft_unpack :: "nat \<Rightarrow> (bytes \<Rightarrow> rlp_error + 'm) \<Rightarrow> bytes \<Rightarrow> rlp_error + byte \<times> 'm" where
  "raft_unpack now reader buf =
     ebind (raft_packet_decode (emptyRaftPacket now) buf) (\<lambda>p.
     ebind (decode_fields reader 0 (rp_data p)) (\<lambda>m. Inr (rp_packetType p, m)))"

section \<open>Message fields as items\<close>

definition raft_fields :: "'a raft_msg_scheme \<Rightarrow> rlp_item list" where
  "raft_fields m = [intData (unat (r_idx m)), intData (unat (r_term m) mod 2 ^ 32),
     intData (nat (r_height m mod 2 ^ 32)), RData (fixedHash_data 32 (r_blockHash m))]"

text \<open>A term as the receiver sees it.\<close>

definition low32 :: "term_t \<Rightarrow> term_t" where
  "low32 t = of_nat (unat t mod 2 ^ 32)"

definition raft_restored :: "'a raft_msg_scheme \<Rightarrow> 'b raft_msg_scheme \<Rightarrow> 'a raft_msg_scheme" where
  "raft_restored m0 m = m0\<lparr> r_idx := r_idx m, r_term := low32 (r_term m),
     r_height := r_height m mod 2 ^ 32, r_blockHash := r_blockHash m \<rparr>"

definition voteReq_fields :: "'a raft_vote_req_scheme \<Rightarrow> rlp_item list" where
  "voteReq_fields m = raft_fields m @ [intData (unat (candidate m)),
     intData (unat (req_lastLeaderTerm m) mod 2 ^ 32), intData (nat (lastBlockNumber m mod 2 ^ 32))]"

definition voteReq_restored :: "'a raft_vote_req_scheme \<Rightarrow> 'b raft_vote_req_scheme \<Rightarrow> 'a raft_vote_req_scheme" where
  "voteReq_restored m0 m = (raft_restored m0 m)\<lparr> candidate := candidate m,
     req_lastLeaderTerm := low32 (req_lastLeaderTerm m),
     lastBlockNumber := lastBlockNumber m mod 2 ^ 32 \<rparr>"

definition voteResp_fields :: "'a raft_vote_resp_scheme \<Rightarrow> rlp_item list" where
  "voteResp_fields m = raft_fields m @ [intData (unat (voteFlag m)),
     intData (unat (resp_lastLeaderTerm m) mod 2 ^ 32)]"

definition voteResp_restored :: "'a raft_vote_resp_scheme \<Rightarrow> 'b raft_vote_resp_scheme \<Rightarrow> 'a raft_vote_resp_scheme" where
  "voteResp_restored m0 m = (raft_restored m0 m)\<lparr> voteFlag := voteFlag m,
     resp_lastLeaderTerm := low32 (resp_lastLeaderTerm m) \<rparr>"

definition heartBeat_fields :: "'a raft_heartbeat_scheme \<Rightarrow> rlp_item list" where
  "heartBeat_fields m = raft_fields m @ [intData (unat (hb_leader m)), RData (uncommitedBlock m),
     intData (nat (uncommitedBlockNumber m mod 2 ^ 32))]"

definition heartBeat_restored :: "'a raft_heartbeat_scheme \<Rightarrow> 'b raft_heartbeat_scheme \<Rightarrow> 'a raft_heartbeat_scheme" where
  "heartBeat_restored m0 m = (raft_restored m0 m)\<lparr> hb_leader := hb_leader m,
     uncommitedBlock := uncommitedBlock m,
     uncommitedBlockNumber := uncommitedBlockNumber m mod 2 ^ 32 \<rparr>"

definition heartBeatResp_fields :: "'a raft_heartbeat_resp_scheme \<Rightarrow> rlp_item list" where
  "heartBeatResp_fields m = raft_fields m @ [RData (fixedHash_data 32 (uncommitedBlockHash m))]"

definition heartBeatResp_restored :: "'a raft_heartbeat_resp_scheme \<Rightarrow> 'b raft_heartbeat_resp_scheme \<Rightarrow> 'a raft_heartbeat_resp_scheme" where
  "heartBeatResp_restored m0 m = (raft_restored m0 m)\<lparr> uncommitedBlockHash := uncommitedBlockHash m \<rparr>"

lemmas raft_field_defs = voteReq_fields_def voteResp_fields_def heartBeat_fields_def
  heartBeatResp_fields_def

lemma writes_size_t [intro]: "writes (append_size_t t) (intData (unat t mod 2 ^ 32))"
  by (auto simp: append_size_t_def)

lemma stream_raft_fields: "raft_stream m s = append_items (raft_fields m) s"
  unfolding raft_stream_def raft_fields_def
  by (intro stream_all_append_items list.rel_intros writes_int64 writes_size_t writes_bigint writes_hash)

lemma stream_after_raft:
  "list_all2 writes fs ts \<Longrightarrow> ebind (raft_stream m s) (stream_all fs) = append_items (raft_fields m @ ts) s"
  by (cases "append_items (raft_fields m) s")
     (simp_all add: stream_raft_fields append_items_append stream_all_append_items)

lemma stream_voteReq_fields: "voteReq_stream m s = append_items (voteReq_fields m) s"
  unfolding voteReq_stream_def voteReq_fields_def
  by (intro stream_after_raft list.rel_intros writes_int64 writes_size_t writes_bigint)

lemma stream_voteResp_fields: "voteResp_stream m s = append_items (voteResp_fields m) s"
  unfolding voteResp_stream_def voteResp_fields_def
  by (intro stream_after_raft list.rel_intros writes_size_t writes_bigint)

lemma stream_heartBeat_fields: "heartBeat_stream m s = append_items (heartBeat_fields m) s"
  unfolding heartBeat_stream_def heartBeat_fields_def
  by (intro stream_after_raft list.rel_intros writes_int64 writes_bytes writes_bigint)

lemma stream_heartBeatResp_fields: "heartBeatResp_stream m s = append_items (heartBeatResp_fields m) s"
  unfolding heartBeatResp_stream_def heartBeatResp_fields_def
  by (intro stream_after_raft list.rel_intros writes_hash)

section \<open>Reading the fields back\<close>

lemma toInt_low32:
  assumes "length (enc (intData (n mod 2 ^ 32))) < rlp_limit"
  shows "toInt 64 Strict (enc (intData (n mod 2 ^ 32))) = Inr (n mod 2 ^ 32)"
proof -
  have "n mod 2 ^ 32 < 2 ^ 32" by simp
  then have "n mod 2 ^ 32 < 2 ^ (8 * 8)" by (rule less_trans) simp
  from toInt_intData [OF assms this, of Strict] show ?thesis by simp
qed

lemma length_raft_fields [simp]: "length (raft_fields m) = 4"
  by (simp add: raft_fields_def)

lemma populate_raft_fields:
  assumes "\<forall>t \<in> set (raft_fields m). length (enc t) < rlp_limit"
    and "\<And>i. i < 4 \<Longrightarrow> rlp_at r i = Inr (enc (raft_fields m ! i))"
  shows "raft_populate m0 r = Inr (raft_restored m0 m)"
  using assms toInt64_low32 [of "r_height m"] toInt_low32 [of "unat (r_term m)"]
  by (simp add: raft_populate_def raft_fields_def raft_restored_def low32_def toInt_word16
      toFixedHash_enc del: enc.simps of_nat_mod)

text \<open>The first four fields of a longer message, and the field after them.\<close>

lemma populate_raft_prefix:
  assumes "\<forall>t \<in> set (raft_fields m @ ts). length (enc t) < rlp_limit"
    and at: "\<And>i. i < 2 ^ 64 - 1 \<Longrightarrow> rlp_at r i = Inr (item_at (raft_fields m @ ts) i)"
  shows "raft_populate m0 r = Inr (raft_restored m0 m)"
    and "j < length ts \<Longrightarrow> j < 1000 \<Longrightarrow> rlp_at r (4 + j) = Inr (enc (ts ! j))"
proof -
  show "raft_populate m0 r = Inr (raft_restored m0 m)"
    by (rule populate_raft_fields)
       (use assms(1) in \<open>simp_all add: at item_at_nth nth_append del: enc.simps\<close>)
  show "j < length ts \<Longrightarrow> j < 1000 \<Longrightarrow> rlp_at r (4 + j) = Inr (enc (ts ! j))"
    by (simp add: at item_at_nth nth_append del: enc.simps)
qed

lemmas raft_reads = toInt_word8 toInt_word16 toFixedHash_enc toBytes_enc

lemma populate_voteReq_fields:
  assumes "\<forall>t \<in> set (voteReq_fields m). length (enc t) < rlp_limit"
    and "\<And>i. i < 2 ^ 64 - 1 \<Longrightarrow> rlp_at r i = Inr (item_at (voteReq_fields m) i)"
  shows "voteReq_populate m0 r = Inr (voteReq_restored m0 m)"
proof -
  note p = populate_raft_prefix [OF assms [unfolded voteReq_fields_def]]
  show ?thesis using p(1) [of m0] p(2) [of 0] p(2) [of 1] p(2) [of 2] assms(1)
      toInt_low32 [of "unat (req_lastLeaderTerm m)"] toInt64_low32 [of "lastBlockNumber m"]
    by (simp add: voteReq_populate_def voteReq_restored_def voteReq_fields_def low32_def raft_reads
        del: enc.simps of_nat_mod)
qed

lemma populate_voteResp_fields:
  assumes "\<forall>t \<in> set (voteResp_fields m). length (enc t) < rlp_limit"
    and "\<And>i. i < 2 ^ 64 - 1 \<Longrightarrow> rlp_at r i = Inr (item_at (voteResp_fields m) i)"
  shows "voteResp_populate m0 r = Inr (voteResp_restored m0 m)"
proof -
  note p = populate_raft_prefix [OF assms [unfolded voteResp_fields_def]]
  show ?thesis using p(1) [of m0] p(2) [of 0] p(2) [of 1] assms(1)
      toInt_low32 [of "unat (resp_lastLeaderTerm m)"]
    by (simp add: voteResp_populate_def voteResp_restored_def voteResp_fields_def low32_def raft_reads
        del: enc.simps of_nat_mod)
qed

lemma populate_heartBeat_fields:
  assumes "\<forall>t \<in> set (heartBeat_fields m). length (enc t) < rlp_limit"
    and "\<And>i. i < 2 ^ 64 - 1 \<Longrightarrow> rlp_at r i = Inr (item_at (heartBeat_fields m) i)"
  shows "heartBeat_populate m0 r = Inr (heartBeat_restored m0 m)"
proof -
  note p = populate_raft_prefix [OF assms [unfolded heartBeat_fields_def]]
  show ?thesis using p(1) [of m0] p(2) [of 0] p(2) [of 1] p(2) [of 2] assms(1)
      toInt64_low32 [of "uncommitedBlockNumber m"]
    by (simp add: heartBeat_populate_def heartBeat_restored_def heartBeat_fields_def raft_reads
        del: enc.simps of_nat_mod)
qed

lemma populate_heartBeatResp_fields:
  assumes "\<forall>t \<in> set (heartBeatResp_fields m). length (enc t) < rlp_limit"
    and "\<And>i. i < 2 ^ 64 - 1 \<Longrightarrow> rlp_at r i = Inr (item_at (heartBeatResp_fields m) i)"
  shows "heartBeatResp_populate m0 r = Inr (heartBeatResp_restored m0 m)"
proof -
  note p = populate_raft_prefix [OF assms [unfolded heartBeatResp_fields_def]]
  show ?thesis using p(1) [of m0] p(2) [of 0] assms(1)
    by (simp add: heartBeatResp_populate_def heartBeatResp_restored_def heartBeatResp_fields_def
        raft_reads del: enc.simps of_nat_mod)
qed

section \<open>The message classes implement the codec interface\<close>

interpretation voteReqMsg: rlp_message voteReq_stream voteReq_populate voteReq_fields voteReq_restored
  by unfold_locales (simp_all only: stream_voteReq_fields populate_voteReq_fields)

interpretation voteRespMsg: rlp_message voteResp_stream voteResp_populate voteResp_fields voteResp_restored
  by unfold_locales (simp_all only: stream_voteResp_fields populate_voteResp_fields)

interpretation heartBeatMsg: rlp_message heartBeat_stream heartBeat_populate heartBeat_fields heartBeat_restored
  by unfold_locales (simp_all only: stream_heartBeat_fields populate_heartBeat_fields)

interpretation heartBeatRespMsg: rlp_message heartBeatResp_stream heartBeatResp_populate heartBeatResp_fields heartBeatResp_restored
  by unfold_locales (simp_all only: stream_heartBeatResp_fields populate_heartBeatResp_fields)

section \<open>Messages in packets\<close>

lemma enc_small_int:
  assumes "n < 0x80"
  shows "length (enc (intData n)) = 1"
proof (cases "n = 0")
  case False
  then have "bytesRequired n = 1" using assms by (simp add: bytesRequired_pos)
  then show ?thesis using assms by (simp add: intData_def unat_of_nat)
qed (simp add: intData_def encHeader_def)

lemma raft_packet_encode_bytes:
  assumes "length (enc (RData (rp_data p))) < rlp_limit" and "unat (rp_packetType p) < 0x80"
  shows "raft_packet_encode p = Inr (enc (intData (unat (rp_packetType p))) @ enc (RData (rp_data p)))"
proof -
  let ?ts = "[intData (unat (rp_packetType p)), RData (rp_data p)]"
  have "stream_all [append_bigint (unat (rp_packetType p)), append_bytes (rp_data p) False] rlpStream =
      append_items ?ts rlpStream"
    by (intro stream_all_append_items list.rel_intros writes_bigint writes_bytes)
  also have "\<dots> = Inr (emit (concat (map enc ?ts)) rlpStream)"
    using assms(1) enc_small_int [OF assms(2)]
    by (intro append_items_out) (simp_all add: rlpStream_def del: enc.simps)
  finally have "stream_all [append_bigint (unat (rp_packetType p)), append_bytes (rp_data p) False]
      rlpStream = Inr (emit (concat (map enc ?ts)) rlpStream)" .
  then show ?thesis by (simp add: raft_packet_encode_def rlpStream_def rlp_out_def del: enc.simps)
qed

lemma raft_packet_round_trip:
  assumes "length (enc (RData (rp_data p))) < rlp_limit" and "unat (rp_packetType p) < 0x80"
  shows "ebind (raft_packet_encode p) (raft_packet_decode p0) =
     Inr (p0\<lparr>rp_packetType := rp_packetType p, rp_data := rp_data p\<rparr>)"
proof -
  let ?t = "enc (intData (unat (rp_packetType p)))" and ?d = "enc (RData (rp_data p))"
  have t: "length ?t = 1" using assms(2) by (rule enc_small_int)
  have c: "cropped 0 (Suc 0) (?t @ ?d) = ?t" "cropped_from (Suc 0) (?t @ ?d) = ?d"
    using t by (simp_all add: cropped_def cropped_from_def del: enc.simps)
  have "toInt 32 ThrowOnFail ?t = Inr (unat (rp_packetType p))"
    using toInt_intData [of "unat (rp_packetType p)" 4 ThrowOnFail] assms(2) t by (simp del: enc.simps)
  moreover have "mkRLP VeryStrict ?t = Inr ?t" using t
    by (intro mkRLP_enc(1)) simp
  ultimately show ?thesis using assms
    by (simp add: raft_packet_encode_bytes raft_packet_decode_def c mkRLP_enc(1)
        toBytes_enc del: enc.simps)
qed

context rlp_message
begin

text \<open>A message of the class sent in a packet, as the receiver unpacks it.\<close>

lemma in_packet:
  assumes "length (enc (RData (message_bytes (fields m)))) < rlp_limit"
  shows "ebind (raft_transDataToMessage now (stream m) t) (raft_unpack now' (populate m0)) =
         Inr (raft_code t, restored m0 m)"
proof -
  have small: "length (message_bytes (fields m)) < rlp_limit" using assms by (simp split: if_splits)
  let ?p = "(emptyRaftPacket now)\<lparr>rp_data := message_bytes (fields m), rp_packetType := raft_code t\<rparr>"
  have "unat (rp_packetType ?p) < 0x80" by (cases t) simp_all
  with raft_packet_round_trip [of ?p "emptyRaftPacket now'"] assms
  have "ebind (raft_packet_encode ?p) (raft_packet_decode (emptyRaftPacket now')) =
      Inr ((emptyRaftPacket now')\<lparr>rp_packetType := raft_code t, rp_data := message_bytes (fields m)\<rparr>)"
    by (simp del: enc.simps)
  moreover have "raft_transDataToMessage now (stream m) t = raft_packet_encode ?p"
    by (simp add: raft_transDataToMessage_def encode_message [OF small])
  moreover have "decode_fields (populate m0) 0 (message_bytes (fields m)) = Inr (restored m0 m)"
    using round_trip [OF small, of m0] by (simp add: encode_message [OF small])
  ultimately show ?thesis by (cases "raft_packet_encode ?p") (auto simp: raft_unpack_def)
qed

end

section \<open>Messages are short\<close>

lemma packet_small:
  assumes "sum_list (map item_bound ts) + 36 < rlp_limit"
  shows "length (enc (RData (message_bytes ts))) < rlp_limit"
  using assms message_bytes_bound [of ts] length_enc_bound [of "RData (message_bytes ts)"] by (simp del: enc.simps)

lemma raft_fields_bound: "sum_list (map item_bound (raft_fields m)) \<le> 100"
proof -
  have "bytesRequired (unat (r_idx m)) \<le> 2" by (simp add: bytesRequired_word)
  moreover have "bytesRequired (unat (r_term m) mod 2 ^ 32) \<le> 4" by (simp add: bytesRequired_le)
  ultimately show ?thesis using bytesRequired_low32 [of "r_height m"]
    by (simp add: raft_fields_def item_bound_intData)
qed

lemma term_bytes: "bytesRequired (unat (t :: term_t) mod 2 ^ 32) \<le> 4"
  by (simp add: bytesRequired_le)

lemma voteReq_small: "length (enc (RData (message_bytes (voteReq_fields m)))) < rlp_limit"
proof -
  have "bytesRequired (unat (candidate m)) \<le> 2" by (simp add: bytesRequired_word)
  then show ?thesis
    using raft_fields_bound [of m] term_bytes [of "req_lastLeaderTerm m"]
      bytesRequired_low32 [of "lastBlockNumber m"]
    by (intro packet_small) (simp add: voteReq_fields_def item_bound_intData)
qed

lemma voteResp_small: "length (enc (RData (message_bytes (voteResp_fields m)))) < rlp_limit"
proof -
  have "bytesRequired (unat (voteFlag m)) \<le> 1" by (simp add: bytesRequired_word)
  then show ?thesis using raft_fields_bound [of m] term_bytes [of "resp_lastLeaderTerm m"]
    by (intro packet_small) (simp add: voteResp_fields_def item_bound_intData)
qed

lemma heartBeat_small:
  assumes "length (uncommitedBlock m) < 2 ^ 32"
  shows "length (enc (RData (message_bytes (heartBeat_fields m)))) < rlp_limit"
proof -
  have "bytesRequired (unat (hb_leader m)) \<le> 2" by (simp add: bytesRequired_word)
  then show ?thesis
    using assms raft_fields_bound [of m] bytesRequired_low32 [of "uncommitedBlockNumber m"]
    by (intro packet_small) (simp add: heartBeat_fields_def item_bound_intData)
qed

lemma heartBeatResp_small: "length (enc (RData (message_bytes (heartBeatResp_fields m)))) < rlp_limit"
  using raft_fields_bound [of m] by (intro packet_small) (simp add: heartBeatResp_fields_def)

lemma low32_small: "unat t < 2 ^ 32 \<Longrightarrow> low32 t = t"
  by (simp add: low32_def)

section \<open>Properties\<close>

text \<open>
  C36: A Raft message survives the network.  What \<^verbatim>\<open>transDataToMessage\<close> puts on the wire for a vote
  request, a vote response, a heartbeat with a block below \<open>2 ^ 32\<close> bytes or a heartbeat response is
  unpacked by the receiver with its packet type and every member of the message, terms and block
  numbers reduced modulo \<open>2 ^ 32\<close>.
\<close>

theorem raft_messages_round_trip:
  fixes req :: raft_vote_req and resp :: raft_vote_resp and hb :: raft_heartbeat and ack :: raft_heartbeat_resp
  assumes "length (uncommitedBlock hb) < 2 ^ 32"
  shows "ebind (raft_transDataToMessage now (voteReq_stream req) RaftVoteReqPacket)
       (raft_unpack now' (voteReq_populate emptyVoteReq)) =
     Inr (raft_code RaftVoteReqPacket, req\<lparr>r_term := low32 (r_term req), r_height := r_height req mod 2 ^ 32,
       req_lastLeaderTerm := low32 (req_lastLeaderTerm req),
       lastBlockNumber := lastBlockNumber req mod 2 ^ 32\<rparr>) \<and>
   ebind (raft_transDataToMessage now (voteResp_stream resp) RaftVoteRespPacket)
       (raft_unpack now' (voteResp_populate emptyVoteResp)) =
     Inr (raft_code RaftVoteRespPacket, resp\<lparr>r_term := low32 (r_term resp),
       r_height := r_height resp mod 2 ^ 32, resp_lastLeaderTerm := low32 (resp_lastLeaderTerm resp)\<rparr>) \<and>
   ebind (raft_transDataToMessage now (heartBeat_stream hb) RaftHeartBeatPacket)
       (raft_unpack now' (heartBeat_populate emptyHeartBeat)) =
     Inr (raft_code RaftHeartBeatPacket, hb\<lparr>r_term := low32 (r_term hb), r_height := r_height hb mod 2 ^ 32,
       uncommitedBlockNumber := uncommitedBlockNumber hb mod 2 ^ 32\<rparr>) \<and>
   ebind (raft_transDataToMessage now (heartBeatResp_stream ack) RaftHeartBeatRespPacket)
       (raft_unpack now' (heartBeatResp_populate emptyHeartBeatResp)) =
     Inr (raft_code RaftHeartBeatRespPacket, ack\<lparr>r_term := low32 (r_term ack),
       r_height := r_height ack mod 2 ^ 32\<rparr>)"
  using voteReqMsg.in_packet [OF voteReq_small [of req], of now RaftVoteReqPacket now' emptyVoteReq]
    voteRespMsg.in_packet [OF voteResp_small [of resp], of now RaftVoteRespPacket now' emptyVoteResp]
    heartBeatMsg.in_packet [OF heartBeat_small [OF assms], of now RaftHeartBeatPacket now' emptyHeartBeat]
    heartBeatRespMsg.in_packet [OF heartBeatResp_small [of ack], of now RaftHeartBeatRespPacket now' emptyHeartBeatResp]
  by (simp add: voteReq_restored_def voteResp_restored_def heartBeat_restored_def
      heartBeatResp_restored_def raft_restored_def emptyVoteReq_def emptyVoteResp_def
      emptyHeartBeat_def emptyHeartBeatResp_def del: raft_code.simps)

theorem raft_messages_round_trip_witness:
  "ebind (raft_transDataToMessage 1 (heartBeat_stream (emptyHeartBeat\<lparr>r_term := 7, uncommitedBlock := [1, 2],
       uncommitedBlockNumber := 2 ^ 32 + 5\<rparr>)) RaftHeartBeatPacket)
     (raft_unpack 2 (heartBeat_populate emptyHeartBeat)) =
   Inr (2, emptyHeartBeat\<lparr>r_term := 7, uncommitedBlock := [1, 2], uncommitedBlockNumber := 5\<rparr>)"
  using raft_messages_round_trip [of "emptyHeartBeat\<lparr>r_term := 7, uncommitedBlock := [1, 2],
     uncommitedBlockNumber := 2 ^ 32 + 5\<rparr>" 1 emptyVoteReq 2 emptyVoteResp emptyHeartBeatResp]
  by (simp add: emptyHeartBeat_def low32_def)

end
