(* ===== verification/Raft.thy ===== *)
theory Raft
  imports EngineBase RaftMsg
begin

text \<open>
  \<^verbatim>\<open>RaftEngine\<close> (src/libconsensus/raft/RaftEngine.cpp, .h): the engine a group runs when its
  consensus type is \<^verbatim>\<open>raft\<close>.

  \<^item> \<open>raft_engine\<close> extends the record of \<^verbatim>\<open>ConsensusEngineBase\<close> with the members of the class, under
    their names.  \<^verbatim>\<open>unsigned\<close> members are 32 bit words, \<^verbatim>\<open>size_t\<close> terms 64 bit words, so \<^verbatim>\<open>m_term--\<close>
    and \<^verbatim>\<open>m_term - 1\<close> wrap; points of the steady clock are milliseconds.
  \<^item> \<open>raft_env\<close> adds the value of \<^verbatim>\<open>std::rand()\<close> to the environment of a call.  No call uses more
    than the last value it draws.
  \<^item> \<open>m_phase\<close> is the position of the working thread: in \<^verbatim>\<open>workLoop\<close> itself or in the loop of one
    of \<^verbatim>\<open>runAsLeader\<close>, \<^verbatim>\<open>runAsCandidate\<close> and \<^verbatim>\<open>runAsFollower\<close>, with the local variables of that loop.
    \<open>raft_work\<close> is one iteration of the loop the thread is in.
  \<^item> The sealing thread blocks in \<^verbatim>\<open>commit\<close> on a condition variable; \<open>raft_commit_begin\<close> is the part
    before the wait and \<open>raft_commit_end\<close> the part after it, possible when \<open>m_commitReady\<close> is set.
  \<^item> \<open>m_sent\<close> lists the messages handed to the network with their receivers, newest first; the bytes
    are in \<open>effects\<close>.
  \<^item> A null pointer dereference is the error \<open>NullBlock\<close>, which no handler catches.

  Log output and \<^verbatim>\<open>consensusStatus\<close> are left out.
\<close>

section \<open>State\<close>

record raft_env =
  r_env :: engine_env
  std_rand :: nat

record vote_state =
  vs_vote :: nat
  vs_unVote :: nat
  vs_lastTermErr :: nat
  vs_firstVote :: nat
  vs_discardedVote :: nat
  vs_outdated :: nat

definition newVoteState :: vote_state where
  "newVoteState = \<lparr> vs_vote = 0, vs_unVote = 0, vs_lastTermErr = 0, vs_firstVote = 0,
     vs_discardedVote = 0, vs_outdated = 0 \<rparr>"

definition totalVoteCount :: "vote_state \<Rightarrow> nat" where
  "totalVoteCount v = vs_vote v + vs_unVote v + vs_lastTermErr v + vs_firstVote v +
     vs_discardedVote v + vs_outdated v"

type_synonym unsigned = "32 word"
type_synonym heartbeat_log = "(h512 \<times> unsigned) list"

datatype raft_phase = InWorkLoop | InLeader heartbeat_log | InCandidate vote_state | InFollower

datatype raft_wire =
    WVoteReq raft_vote_req | WVoteResp raft_vote_resp
  | WHeartBeat raft_heartbeat | WHeartBeatResp raft_heartbeat_resp

record raft_engine = consensus_base +
  m_electTimeout :: unsigned
  m_minElectTimeout :: unsigned
  m_maxElectTimeout :: unsigned
  m_minElectTimeoutInit :: unsigned
  m_maxElectTimeoutInit :: unsigned
  m_minElectTimeoutBoundary :: unsigned
  m_maxElectTimeoutBoundary :: unsigned
  m_lastElectTime :: nat
  m_heartbeatTimeout :: unsigned
  m_heartbeatInterval :: unsigned
  m_heartbeatCount :: unsigned
  m_lastHeartbeatTime :: nat
  m_lastHeartbeatReset :: nat
  m_increaseTime :: unsigned
  m_raftQueue :: "raft_packet list"
  m_state :: RaftRole
  m_firstVote :: IDXTYPE
  m_term :: term_t
  m_lastLeaderTerm :: term_t
  m_leader :: IDXTYPE
  m_vote :: IDXTYPE
  m_memberBlock :: "(h512 \<times> (u256 \<times> h256)) list"
  m_lastBlockTime :: nat
  m_uncommittedBlock :: block
  m_uncommittedBlockNumber :: int
  m_commitReady :: bool
  m_waitingForCommitting :: bool
  m_commitFingerPrint :: "(h256 \<times> IDXTYPE list) list"
  m_phase :: raft_phase
  m_sent :: "(h512 \<times> raft_wire) list"

type_synonym 'a raft_result = "(engine_error \<times> raft_engine) + ('a \<times> raft_engine)"

definition InvalidIndex :: IDXTYPE where "InvalidIndex = -1"

definition s_heartBeatIntervalRatio :: unsigned where "s_heartBeatIntervalRatio = 4"

definition isMajorityVote :: "nat \<Rightarrow> raft_engine \<Rightarrow> bool" where
  "isMajorityVote votes e \<longleftrightarrow> int votes \<ge> int (unat (m_nodeNum e)) - int (unat (m_f e))"

definition wonElection :: "nat \<Rightarrow> raft_engine \<Rightarrow> bool" where
  "wonElection votes e \<longleftrightarrow> int votes \<ge> int (unat (m_nodeNum e)) - int (unat (m_f e))"

section \<open>Roles and timeouts\<close>

definition resetElectTimeout :: "raft_env \<Rightarrow> raft_engine \<Rightarrow> raft_engine" where
  "resetElectTimeout env e = e\<lparr>
     m_electTimeout := m_minElectTimeout e +
       of_nat (std_rand env mod 100) * (m_maxElectTimeout e - m_minElectTimeout e) div 100,
     m_lastElectTime := utcSteadyTime (r_env env)\<rparr>"

definition switchToFollower :: "raft_env \<Rightarrow> IDXTYPE \<Rightarrow> raft_engine \<Rightarrow> raft_engine" where
  "switchToFollower env l e =
     (let e1 = e\<lparr>m_leader := l, m_state := EN_STATE_FOLLOWER, m_heartbeatCount := 0\<rparr>;
          e2 = (if m_waitingForCommitting e1
                then e1\<lparr>m_uncommittedBlock := emptyBlock, m_uncommittedBlockNumber := 0,
                        m_commitReady := True\<rparr>
                else e1)
      in resetElectTimeout env e2)"

definition raft_resetConfig :: "raft_env \<Rightarrow> raft_engine \<Rightarrow> raft_engine outcome" where
  "raft_resetConfig env e =
     ebind (updateMaxBlockTransactions (r_env env) e) (\<lambda>e1.
       let e2 = updateConsensusNodeList e1;
           nodeNum = length (m_sealerList e2)
       in if nodeNum = 0 then Inr (e2\<lparr>m_cfgErr := True\<rparr>)
          else case find_index (kp_pub (m_keyPair e2)) (m_sealerList e2) of
              None \<Rightarrow> Inr (e2\<lparr>m_cfgErr := True, m_accountType := ObserverAccount\<rparr>)
            | Some nodeIdx \<Rightarrow>
                (let e3 = e2\<lparr>m_accountType := SealerAccount\<rparr>
                 in if nodeNum \<noteq> unat (m_nodeNum e3) \<or> nodeIdx \<noteq> unat (m_idx e3)
                    then (let e4 = e3\<lparr>m_nodeNum := of_nat nodeNum, m_idx := of_nat nodeIdx\<rparr>;
                              e5 = e4\<lparr>m_f := of_nat ((unat (m_nodeNum e4) - 1) div 2), m_cfgErr := False\<rparr>
                          in Inr (resetElectTimeout env (switchToFollower env InvalidIndex e5)))
                    else Inr (e3\<lparr>m_cfgErr := False\<rparr>)))"

definition initRaftEnv :: "raft_env \<Rightarrow> raft_engine \<Rightarrow> raft_engine outcome" where
  "initRaftEnv env e =
     ebind (raft_resetConfig env e) (\<lambda>e1.
       let e2 = e1\<lparr>
             m_minElectTimeoutInit := m_minElectTimeout e1,
             m_maxElectTimeoutInit := m_maxElectTimeout e1,
             m_minElectTimeoutBoundary := m_minElectTimeout e1,
             m_maxElectTimeoutBoundary :=
               m_maxElectTimeout e1 + (m_maxElectTimeout e1 - m_minElectTimeout e1) div 2,
             m_lastElectTime := utcSteadyTime (r_env env),
             m_lastHeartbeatTime := utcSteadyTime (r_env env),
             m_heartbeatTimeout := m_minElectTimeout e1,
             m_heartbeatInterval := m_minElectTimeout e1 div s_heartBeatIntervalRatio,
             m_increaseTime := (m_maxElectTimeout e1 - m_minElectTimeout e1) div 4\<rparr>
       in Inr (resetElectTimeout env e2))"

definition raft_start :: "raft_env \<Rightarrow> raft_engine \<Rightarrow> raft_engine outcome" where
  "raft_start env e = ebind (initRaftEnv env e) (\<lambda>e1. Inr (base_start e1))"

text \<open>Stopping waits until the working thread has left its loops.\<close>

definition raft_stop :: "raft_engine \<Rightarrow> raft_engine" where
  "raft_stop e = (base_stop e)\<lparr>m_phase := InWorkLoop\<rparr>"

definition recoverElectTime :: "raft_engine \<Rightarrow> raft_engine" where
  "recoverElectTime e = e\<lparr>m_maxElectTimeout := m_maxElectTimeoutInit e,
     m_minElectTimeout := m_minElectTimeoutInit e\<rparr>"

definition switchToLeader :: "raft_engine \<Rightarrow> raft_engine" where
  "switchToLeader e = recoverElectTime (e\<lparr>m_leader := m_idx e, m_state := EN_STATE_LEADER\<rparr>)"

definition switchToCandidate :: "raft_env \<Rightarrow> raft_engine \<Rightarrow> raft_engine outcome" where
  "switchToCandidate env e =
     ebind (raft_resetConfig env e) (\<lambda>e1. Inr (resetElectTimeout env
       (e1\<lparr>m_term := m_term e1 + 1, m_leader := InvalidIndex, m_state := EN_STATE_CANDIDATE\<rparr>)))"

definition increaseElectTime :: "raft_engine \<Rightarrow> raft_engine" where
  "increaseElectTime e =
     (if m_maxElectTimeout e + m_increaseTime e > m_maxElectTimeoutBoundary e
      then e\<lparr>m_maxElectTimeout := m_maxElectTimeoutBoundary e\<rparr>
      else e\<lparr>m_maxElectTimeout := m_maxElectTimeout e + m_increaseTime e,
             m_minElectTimeout := m_minElectTimeout e + m_increaseTime e\<rparr>)"

definition checkHeartbeatTimeout :: "raft_env \<Rightarrow> raft_engine \<Rightarrow> bool" where
  "checkHeartbeatTimeout env e \<longleftrightarrow>
     int (utcSteadyTime (r_env env)) - int (m_lastHeartbeatReset e) \<ge> int (unat (m_heartbeatTimeout e))"

definition checkElectTimeout :: "raft_env \<Rightarrow> raft_engine \<Rightarrow> bool" where
  "checkElectTimeout env e \<longleftrightarrow>
     int (utcSteadyTime (r_env env)) - int (m_lastElectTime e) \<ge> int (unat (m_electTimeout e))"

text \<open>\<^verbatim>\<open>m_firstVote\<close> has 16 bits, \<^verbatim>\<open>Invalid256\<close> 256.\<close>

definition clearFirstVoteCache :: "raft_engine \<Rightarrow> raft_engine" where
  "clearFirstVoteCache e =
     (if ucast (m_firstVote e) \<noteq> Invalid256
      then (let e1 = e\<lparr>m_heartbeatCount := m_heartbeatCount e + 1\<rparr>
            in if m_heartbeatCount e1 \<ge> 2 * s_heartBeatIntervalRatio
               then e1\<lparr>m_heartbeatCount := 0, m_firstVote := InvalidIndex\<rparr> else e1)
      else e)"

section \<open>Blocks\<close>

definition raft_reportBlock :: "raft_env \<Rightarrow> block \<Rightarrow> raft_engine \<Rightarrow> raft_engine outcome" where
  "raft_reportBlock env b e =
     (if number (m_blockChain e) = 0 \<or> m_number (m_highestBlock e) < m_number (blockHeader b)
      then (let (blk, c) = getBlockByNumber (crypto (r_env env)) (number (m_blockChain e)) (m_blockChain e);
                e1 = e\<lparr>m_lastBlockTime := utcSteadyTime (r_env env), m_blockChain := c\<rparr>
            in case blk of
                 None \<Rightarrow> Inl (NullBlock, e1)
               | Some hb \<Rightarrow>
                   (let e2 = e1\<lparr>m_highestBlock := blockHeader hb\<rparr>;
                        e3 = e2\<lparr>m_commitFingerPrint := AList.delete
                               (headerHash (crypto (r_env env)) (m_uncommittedBlock e2)) (m_commitFingerPrint e2),
                             m_uncommittedBlock := emptyBlock, m_uncommittedBlockNumber := 0\<rparr>;
                        e4 = (if m_number (m_highestBlock e3) \<ge> m_consensusBlockNumber e3
                              then e3\<lparr>m_consensusBlockNumber := s64 (m_number (m_highestBlock e3) + 1)\<rparr>
                              else e3)
                    in raft_resetConfig env e4))
      else Inr e)"

definition raft_checkSealerList :: "block \<Rightarrow> raft_engine \<Rightarrow> raft_engine outcome" where
  "raft_checkSealerList b e =
     (if consensus_base.m_sealerList e \<noteq> block_header.m_sealerList (blockHeader b)
      then Inl (BlockSealerListWrong, e) else Inr e)"

definition raft_checkBlockValid :: "raft_env \<Rightarrow> block \<Rightarrow> raft_engine \<Rightarrow> raft_engine outcome" where
  "raft_checkBlockValid env b e = ebind (base_checkBlockValid (r_env env) b e) (raft_checkSealerList b)"

definition raft_execBlock :: "raft_env \<Rightarrow> block \<Rightarrow> raft_engine \<Rightarrow> (block \<times> exec_context option) raft_result" where
  "raft_execBlock env b e =
     ebind (raft_checkBlockValid env b e) (\<lambda>e1.
       executeBlock (r_env env) b (on_sync (noteSealingBlockNumber (m_number (blockHeader b))) e1))"

definition raft_checkAndSave :: "raft_env \<Rightarrow> block \<Rightarrow> exec_context option \<Rightarrow> raft_engine \<Rightarrow> raft_engine" where
  "raft_checkAndSave env b ctx e =
     (let (ret, c) = commitBlock (crypto (r_env env)) (commitEnv (r_env env)) (dbCommit (r_env env) ctx) b
                       (m_blockChain e);
          e1 = e\<lparr>m_blockChain := c\<rparr>
      in if ret = COMMIT_OK
         then emit_effect (DropBlockTrans b) (e1\<lparr>m_uncommittedBlock := emptyBlock, m_uncommittedBlockNumber := 0\<rparr>)
         else emit_effect (HandleBadBlock b) e1)"

definition raft_checkAndExecute :: "raft_env \<Rightarrow> block \<Rightarrow> raft_engine \<Rightarrow> bool raft_result" where
  "raft_checkAndExecute env b e =
     (case raft_execBlock env b e of
        Inl (x, e1) \<Rightarrow> if x = NullBlock then Inl (x, e1) else Inr (False, e1)
      | Inr ((b', ctx), e1) \<Rightarrow> Inr (True, raft_checkAndSave env b' ctx e1))"

text \<open>
  The last two lines of a commit by the working thread: \<^verbatim>\<open>reportBlock\<close> is called with a reference to
  the member the commit may have cleared.
\<close>

definition commitByMyself :: "raft_env \<Rightarrow> raft_engine \<Rightarrow> raft_engine outcome" where
  "commitByMyself env e =
     ebind (raft_checkAndExecute env (m_uncommittedBlock e) e) (\<lambda>(_, e1).
     raft_reportBlock env (m_uncommittedBlock e1) e1)"

definition fingerPrints :: "h256 \<Rightarrow> raft_engine \<Rightarrow> IDXTYPE list" where
  "fingerPrints h e = (case map_of (m_commitFingerPrint e) h of None \<Rightarrow> [] | Some s \<Rightarrow> s)"

definition insertFingerPrint :: "h256 \<Rightarrow> IDXTYPE \<Rightarrow> raft_engine \<Rightarrow> raft_engine" where
  "insertFingerPrint h i e = e\<lparr>m_commitFingerPrint :=
     AList.update h (List.insert i (fingerPrints h e)) (m_commitFingerPrint e)\<rparr>"

definition commitOrNotify :: "raft_env \<Rightarrow> raft_engine \<Rightarrow> raft_engine outcome" where
  "commitOrNotify env e =
     (if m_waitingForCommitting e then Inr (e\<lparr>m_commitReady := True\<rparr>) else commitByMyself env e)"

definition tryCommitUncommitedBlock :: "raft_env \<Rightarrow> raft_heartbeat_resp \<Rightarrow> raft_engine \<Rightarrow> raft_engine outcome" where
  "tryCommitUncommitedBlock env resp e =
     (if header_bool (blockHeader (m_uncommittedBlock e))
      then (let h = headerHash (crypto (r_env env)) (m_uncommittedBlock e)
            in if m_uncommittedBlockNumber e = m_consensusBlockNumber e
               then if uncommitedBlockHash resp \<noteq> 0 \<and> uncommitedBlockHash resp = h
                    then (let e1 = insertFingerPrint h (r_idx resp) e
                          in if int (length (fingerPrints h e1)) \<ge>
                                u64 (int (unat (m_nodeNum e1)) - int (unat (m_f e1)))
                             then commitOrNotify env e1 else Inr e1)
                    else if uncommitedBlockHash resp = 0 then commitOrNotify env e
                    else Inr e
               else Inr (e\<lparr>m_uncommittedBlock := emptyBlock, m_uncommittedBlockNumber := 0\<rparr>))
      else Inr e)"

section \<open>Receiving and sending\<close>

definition raft_getIndexBySealer :: "h512 \<Rightarrow> raft_engine \<Rightarrow> int" where
  "raft_getIndexBySealer n e = (case find_index n (m_sealerList e) of None \<Rightarrow> -1 | Some i \<Rightarrow> int i)"

definition getNodeIdByIndex :: "IDXTYPE \<Rightarrow> raft_engine \<Rightarrow> h512 option" where
  "getNodeIdByIndex i e = (let n = getSealerByIndex (unat i) e in if n = 0 then None else Some n)"

definition raft_isValidReq :: "bytes \<Rightarrow> h512 \<Rightarrow> raft_engine \<Rightarrow> int option" where
  "raft_isValidReq buffer n e =
     (if length buffer = 0 then None
      else if raft_getIndexBySealer n e < 0 then None
      else case getNodeIdByIndex (m_idx e) e of
          None \<Rightarrow> None
        | Some own \<Rightarrow> if n = own then None else Some (raft_getIndexBySealer n e))"

definition onRecvRaftMessage :: "raft_env \<Rightarrow> bytes \<Rightarrow> h512 \<Rightarrow> string \<Rightarrow> raft_engine \<Rightarrow> raft_engine" where
  "onRecvRaftMessage env buffer n ep e =
     (case raft_isValidReq buffer n e of
        None \<Rightarrow> e
      | Some peerIndex \<Rightarrow>
          (case raft_packet_decode (emptyRaftPacket (utcTime (r_env env))) buffer of
             Inl _ \<Rightarrow> e
           | Inr p \<Rightarrow>
               (let raftMsg = raft_setOtherField (utcTime (r_env env)) (of_int peerIndex) n ep p
                in if rp_packetType raftMsg < RaftPacketCount
                   then e\<lparr>m_raftQueue := m_raftQueue e @ [raftMsg]\<rparr> else e)))"

fun wire_bytes :: "nat \<Rightarrow> raft_wire \<Rightarrow> rlp_error + bytes" where
  "wire_bytes now (WVoteReq m) = raft_transDataToMessage now (voteReq_stream m) RaftVoteReqPacket"
| "wire_bytes now (WVoteResp m) = raft_transDataToMessage now (voteResp_stream m) RaftVoteRespPacket"
| "wire_bytes now (WHeartBeat m) = raft_transDataToMessage now (heartBeat_stream m) RaftHeartBeatPacket"
| "wire_bytes now (WHeartBeatResp m) = raft_transDataToMessage now (heartBeatResp_stream m) RaftHeartBeatRespPacket"

definition raft_asyncSend :: "raft_env \<Rightarrow> h512 \<Rightarrow> raft_wire \<Rightarrow> raft_engine \<Rightarrow> raft_engine" where
  "raft_asyncSend env n w e =
     (case wire_bytes (utcTime (r_env env)) w of
        Inl _ \<Rightarrow> e
      | Inr b \<Rightarrow> (emit_effect (AsyncSend n b) e)\<lparr>m_sent := (n, w) # m_sent e\<rparr>)"

definition raft_broadcastMsg :: "raft_env \<Rightarrow> raft_wire \<Rightarrow> raft_engine \<Rightarrow> raft_engine" where
  "raft_broadcastMsg env w e =
     fold (\<lambda>n e. if raft_getIndexBySealer n e < 0 then e else raft_asyncSend env n w e)
       (sessions (r_env env)) (e\<lparr>m_connectedNode := of_nat (length (sessions (r_env env)))\<rparr>)"

definition raft_sendResponse :: "raft_env \<Rightarrow> h512 \<Rightarrow> raft_wire \<Rightarrow> raft_engine \<Rightarrow> raft_engine" where
  "raft_sendResponse env n w e =
     (if n \<in> set (sessions (r_env env)) \<and> \<not> raft_getIndexBySealer n e < 0
      then raft_asyncSend env n w e else e)"

definition generateHeartbeat :: "raft_env \<Rightarrow> raft_engine \<Rightarrow> raft_heartbeat \<times> raft_engine" where
  "generateHeartbeat env e =
     (let hb = emptyHeartBeat\<lparr>r_idx := m_idx e, r_term := m_term e, r_height := m_number (m_highestBlock e),
            r_blockHash := header_hash (crypto (r_env env)) (m_highestBlock e), hb_leader := m_idx e\<rparr>
      in if header_bool (blockHeader (m_uncommittedBlock e))
         then (hb\<lparr>uncommitedBlock := encodeBlock (r_env env) (m_uncommittedBlock e) False,
                  uncommitedBlockNumber := m_consensusBlockNumber e\<rparr>,
               insertFingerPrint (headerHash (crypto (r_env env)) (m_uncommittedBlock e)) (m_idx e) e)
         else (hb\<lparr>uncommitedBlock := [], uncommitedBlockNumber := 0\<rparr>, e))"

definition broadcastHeartbeat :: "raft_env \<Rightarrow> raft_engine \<Rightarrow> raft_engine" where
  "broadcastHeartbeat env e =
     (if int (utcSteadyTime (r_env env)) - int (m_lastHeartbeatTime e) \<ge> int (unat (m_heartbeatInterval e))
      then (let (hb, e1) = generateHeartbeat env (e\<lparr>m_lastHeartbeatTime := utcSteadyTime (r_env env)\<rparr>)
            in clearFirstVoteCache (raft_broadcastMsg env (WHeartBeat hb) e1))
      else e)"

text \<open>The number of the last block a node holds, the one waiting for its commit included.\<close>

definition lastHeldNumber :: "raft_engine \<Rightarrow> int" where
  "lastHeldNumber e =
     (if header_bool (blockHeader (m_uncommittedBlock e)) then s64 (number (m_blockChain e) + 1)
      else number (m_blockChain e))"

definition generateVoteReq :: "raft_env \<Rightarrow> raft_engine \<Rightarrow> raft_vote_req" where
  "generateVoteReq env e = emptyVoteReq\<lparr>r_idx := m_idx e, r_term := m_term e,
     r_height := m_number (m_highestBlock e),
     r_blockHash := header_hash (crypto (r_env env)) (m_highestBlock e), candidate := m_idx e,
     req_lastLeaderTerm := m_lastLeaderTerm e, lastBlockNumber := lastHeldNumber e\<rparr>"

definition broadcastVoteReq :: "raft_env \<Rightarrow> raft_engine \<Rightarrow> raft_engine" where
  "broadcastVoteReq env e = raft_broadcastMsg env (WVoteReq (generateVoteReq env e)) e"

section \<open>Handlers\<close>

definition raft_voteResp :: "raft_env \<Rightarrow> raft_engine \<Rightarrow> raft_vote_resp" where
  "raft_voteResp env e = emptyVoteResp\<lparr>r_idx := m_idx e, r_term := m_term e,
     r_height := m_number (m_highestBlock e),
     r_blockHash := header_hash (crypto (r_env env)) (m_highestBlock e),
     voteFlag := VOTE_RESP_REJECT, resp_lastLeaderTerm := m_lastLeaderTerm e\<rparr>"

definition handleVoteRequest :: "raft_env \<Rightarrow> h512 \<Rightarrow> raft_vote_req \<Rightarrow> raft_engine \<Rightarrow> bool \<times> raft_engine" where
  "handleVoteRequest env n req e =
     (let resp = raft_voteResp env e;
          answer = (\<lambda>flag. raft_sendResponse env n (WVoteResp (resp\<lparr>voteFlag := flag\<rparr>)))
      in if r_term req \<le> m_term e \<and> m_state e \<noteq> EN_STATE_LEADER
         then (False, answer (if r_term req = m_term e then VOTE_RESP_DISCARD else VOTE_RESP_REJECT) e)
         else if req_lastLeaderTerm req < m_lastLeaderTerm e
         then (False, answer VOTE_RESP_LASTTERM_ERROR e)
         else if lastBlockNumber req < lastHeldNumber e
         then (False, answer VOTE_RESP_OUTDATED e)
         else if m_firstVote e = InvalidIndex
         then (False, answer VOTE_RESP_FIRST_VOTE (e\<lparr>m_firstVote := candidate req\<rparr>))
         else (let e1 = e\<lparr>m_term := r_term req, m_leader := InvalidIndex, m_vote := candidate req,
                          m_firstVote := candidate req\<rparr>;
                   granted = resp\<lparr>r_term := m_term e1, voteFlag := VOTE_RESP_GRANTED\<rparr>
               in (True, resetElectTimeout env (raft_sendResponse env n (WVoteResp granted) e1))))"

definition handleHeartbeat :: "raft_env \<Rightarrow> h512 \<Rightarrow> raft_heartbeat \<Rightarrow> raft_engine \<Rightarrow> bool raft_result" where
  "handleHeartbeat env n hb e =
     (if r_term hb < m_term e \<and> r_term hb \<le> m_lastLeaderTerm e then Inr (False, e)
      else
        (let resp = emptyHeartBeatResp\<lparr>r_idx := m_idx e, r_term := m_term e,
               r_height := m_number (m_highestBlock e),
               r_blockHash := header_hash (crypto (r_env env)) (m_highestBlock e), uncommitedBlockHash := 0\<rparr>;
             follow = (\<lambda>resp e.
               let e1 = raft_sendResponse env n (WHeartBeatResp resp) e;
                   larger = r_term hb > m_lastLeaderTerm e1;
                   e2 = (if larger then e1\<lparr>m_term := r_term hb, m_vote := InvalidIndex\<rparr> else e1);
                   higher = r_term hb > m_term e2;
                   e3 = (if higher then e2\<lparr>m_term := r_term hb, m_vote := InvalidIndex\<rparr> else e2);
                   outvoted = m_state e3 = EN_STATE_CANDIDATE \<and> r_term hb \<ge> m_term e3;
                   e4 = (if outvoted then e3\<lparr>m_term := r_term hb, m_vote := InvalidIndex\<rparr> else e3);
                   e5 = (clearFirstVoteCache e4)\<lparr>m_lastLeaderTerm := r_term hb\<rparr>
               in Inr (larger \<or> higher \<or> outvoted, resetElectTimeout env e5))
         in if hasData hb
            then if s64 (uncommitedBlockNumber hb - 1) = m_number (m_highestBlock e)
                 then (case decodeBlock (r_env env) (uncommitedBlock hb) of
                         None \<Rightarrow> Inl (DecodeFailed, e)
                       | Some b \<Rightarrow>
                           follow (resp\<lparr>uncommitedBlockHash := headerHash (crypto (r_env env)) b\<rparr>)
                             (e\<lparr>m_uncommittedBlock := b, m_uncommittedBlockNumber := uncommitedBlockNumber hb\<rparr>))
                 else Inr (False, e)
            else follow resp e))"

definition handleVoteResponse :: "raft_vote_resp \<Rightarrow> vote_state \<Rightarrow> raft_engine \<Rightarrow> HandleVoteResult \<times> vote_state \<times> raft_engine" where
  "handleVoteResponse resp v e =
     (if r_term resp < m_term e - 1 then (NONE, v, e)
      else if voteFlag resp = VOTE_RESP_REJECT
      then (let v1 = v\<lparr>vs_unVote := vs_unVote v + 1\<rparr>
            in if isMajorityVote (vs_unVote v1) e then (TO_FOLLOWER, v1, increaseElectTime e) else (NONE, v1, e))
      else if voteFlag resp = VOTE_RESP_LEADER_REJECT
      then (TO_FOLLOWER, v, increaseElectTime (e\<lparr>m_term := r_term resp, m_lastLeaderTerm := resp_lastLeaderTerm resp\<rparr>))
      else if voteFlag resp = VOTE_RESP_LASTTERM_ERROR
      then (let v1 = v\<lparr>vs_lastTermErr := vs_lastTermErr v + 1\<rparr>
            in if isMajorityVote (vs_lastTermErr v1) e then (TO_FOLLOWER, v1, increaseElectTime e) else (NONE, v1, e))
      else if voteFlag resp = VOTE_RESP_FIRST_VOTE
      then (let v1 = v\<lparr>vs_firstVote := vs_firstVote v + 1\<rparr>
            in if isMajorityVote (vs_firstVote v1) e then (TO_FOLLOWER, v1, e\<lparr>m_term := m_term e - 1\<rparr>) else (NONE, v1, e))
      else if voteFlag resp = VOTE_RESP_DISCARD then (NONE, v\<lparr>vs_discardedVote := vs_discardedVote v + 1\<rparr>, e)
      else if voteFlag resp = VOTE_RESP_OUTDATED then (NONE, v\<lparr>vs_outdated := vs_outdated v + 1\<rparr>, e)
      else if voteFlag resp = VOTE_RESP_GRANTED
      then (let v1 = v\<lparr>vs_vote := vs_vote v + 1\<rparr>
            in (if isMajorityVote (vs_vote v1) e then TO_LEADER else NONE, v1, e))
      else (NONE, v, e))"

section \<open>The loops of the working thread\<close>

definition raft_tryPop :: "raft_engine \<Rightarrow> raft_packet option \<times> raft_engine" where
  "raft_tryPop e = (case m_raftQueue e of [] \<Rightarrow> (None, e) | p # ps \<Rightarrow> (Some p, e\<lparr>m_raftQueue := ps\<rparr>))"

text \<open>\<^verbatim>\<open>req.populate(RLP(ref(ret.second.data))[0])\<close>: nothing on the way up catches the exception.\<close>

definition raft_read :: "('m \<Rightarrow> bytes \<Rightarrow> rlp_error + 'm) \<Rightarrow> 'm \<Rightarrow> raft_packet \<Rightarrow> raft_engine \<Rightarrow> (engine_error \<times> raft_engine) + 'm" where
  "raft_read reader m0 p e =
     (case decode_fields (reader m0) 0 (rp_data p) of Inl _ \<Rightarrow> Inl (DecodeFailed, e) | Inr m \<Rightarrow> Inr m)"

definition note_heartbeat_ack :: "raft_env \<Rightarrow> h512 \<Rightarrow> raft_heartbeat_resp \<Rightarrow> heartbeat_log \<Rightarrow> raft_engine \<Rightarrow> heartbeat_log \<times> raft_engine" where
  "note_heartbeat_ack env n resp log e =
     (let e1 = e\<lparr>m_memberBlock := AList.update n (of_int (r_height resp), r_blockHash resp) (m_memberBlock e)\<rparr>;
          log1 = (case map_of log n of None \<Rightarrow> (n, 1) # log | Some k \<Rightarrow> AList.update n (k + 1) log);
          count = length (filter (\<lambda>(_, k). k > 0) log1)
      in if int count + 1 \<ge> int (unat (m_nodeNum e1)) - int (unat (m_f e1))
         then (map (\<lambda>(m, k). (m, if k > 0 then k - 1 else k)) log1,
               e1\<lparr>m_lastHeartbeatReset := utcSteadyTime (r_env env)\<rparr>)
         else (log1, e1))"

definition leader_packet :: "raft_env \<Rightarrow> heartbeat_log \<Rightarrow> raft_packet \<Rightarrow> raft_engine \<Rightarrow> (bool \<times> heartbeat_log) raft_result" where
  "leader_packet env log p e =
     (if rp_packetType p = raft_code RaftVoteReqPacket
      then ebind (raft_read voteReq_populate emptyVoteReq p e) (\<lambda>req.
           let (granted, e1) = handleVoteRequest env (rp_nodeId p) req e
           in if granted then Inr ((False, log), switchToFollower env InvalidIndex e1)
              else Inr ((True, log), e1))
      else if rp_packetType p = raft_code RaftVoteRespPacket then Inr ((True, log), e)
      else if rp_packetType p = raft_code RaftHeartBeatPacket
      then ebind (raft_read heartBeat_populate emptyHeartBeat p e) (\<lambda>hb.
           ebind (handleHeartbeat env (rp_nodeId p) hb e) (\<lambda>(stepDown, e1).
           if stepDown then Inr ((False, log), switchToFollower env (hb_leader hb) e1)
           else Inr ((True, log), e1)))
      else if rp_packetType p = raft_code RaftHeartBeatRespPacket
      then ebind (raft_read heartBeatResp_populate emptyHeartBeatResp p e) (\<lambda>resp.
           if r_term resp \<noteq> m_term e then Inr ((True, log), e)
           else (let (log1, e1) = note_heartbeat_ack env (rp_nodeId p) resp log e
                 in ebind (tryCommitUncommitedBlock env resp e1) (\<lambda>e2. Inr ((True, log1), e2))))
      else Inr ((True, log), e))"

definition runAsLeaderImp :: "raft_env \<Rightarrow> heartbeat_log \<Rightarrow> raft_engine \<Rightarrow> (bool \<times> heartbeat_log) raft_result" where
  "runAsLeaderImp env log e =
     (if m_state e \<noteq> EN_STATE_LEADER \<or> m_accountType e \<noteq> SealerAccount then Inr ((False, log), e)
      else if m_nodeNum e > 1 \<and> checkHeartbeatTimeout env e
      then ebind (switchToCandidate env e) (\<lambda>e1. Inr ((False, log), e1))
      else if m_nodeNum e > 1
      then (let (popped, e1) = raft_tryPop (broadcastHeartbeat env e)
            in case popped of None \<Rightarrow> Inr ((True, log), e1) | Some p \<Rightarrow> leader_packet env log p e1)
      else ebind (tryCommitUncommitedBlock env emptyHeartBeatResp e) (\<lambda>e1. Inr ((True, log), e1)))"

definition candidate_packet :: "raft_env \<Rightarrow> vote_state \<Rightarrow> raft_packet \<Rightarrow> raft_engine \<Rightarrow> (bool \<times> vote_state) raft_result" where
  "candidate_packet env v p e =
     (if rp_packetType p = raft_code RaftVoteReqPacket
      then ebind (raft_read voteReq_populate emptyVoteReq p e) (\<lambda>req.
           let (granted, e1) = handleVoteRequest env (rp_nodeId p) req e
           in if granted then Inr ((False, v), switchToFollower env InvalidIndex e1)
              else Inr ((True, v), e1))
      else if rp_packetType p = raft_code RaftVoteRespPacket
      then ebind (raft_read voteResp_populate emptyVoteResp p e) (\<lambda>resp.
           let (handleRet, v1, e1) = handleVoteResponse resp v e
           in case handleRet of
                TO_LEADER \<Rightarrow> Inr ((False, v1), switchToLeader e1)
              | TO_FOLLOWER \<Rightarrow> Inr ((False, v1), switchToFollower env InvalidIndex e1)
              | NONE \<Rightarrow> Inr ((True, v1), e1))
      else if rp_packetType p = raft_code RaftHeartBeatPacket
      then ebind (raft_read heartBeat_populate emptyHeartBeat p e) (\<lambda>hb.
           ebind (handleHeartbeat env (rp_nodeId p) hb e) (\<lambda>(stepDown, e1).
           if stepDown then Inr ((False, v), switchToFollower env (hb_leader hb) e1)
           else Inr ((True, v), e1)))
      else Inr ((True, v), e))"

definition runAsCandidateImp :: "raft_env \<Rightarrow> vote_state \<Rightarrow> raft_engine \<Rightarrow> (bool \<times> vote_state) raft_result" where
  "runAsCandidateImp env v e =
     (if m_state e \<noteq> EN_STATE_CANDIDATE \<or> m_accountType e \<noteq> SealerAccount then Inr ((False, v), e)
      else if checkElectTimeout env e
      then if isMajorityVote (totalVoteCount v) e
           then ebind (switchToCandidate env e) (\<lambda>e1. Inr ((False, v), e1))
           else (let e1 = increaseElectTime e
                 in Inr ((False, v), switchToFollower env InvalidIndex (e1\<lparr>m_term := m_term e1 - 1\<rparr>)))
      else (let (popped, e1) = raft_tryPop e
            in case popped of None \<Rightarrow> Inr ((True, v), e1) | Some p \<Rightarrow> candidate_packet env v p e1))"

definition follower_packet :: "raft_env \<Rightarrow> raft_packet \<Rightarrow> raft_engine \<Rightarrow> bool raft_result" where
  "follower_packet env p e =
     (if rp_packetType p = raft_code RaftVoteReqPacket
      then ebind (raft_read voteReq_populate emptyVoteReq p e) (\<lambda>req.
           let (granted, e1) = handleVoteRequest env (rp_nodeId p) req e in Inr (\<not> granted, e1))
      else if rp_packetType p = raft_code RaftVoteRespPacket then Inr (True, e)
      else if rp_packetType p = raft_code RaftHeartBeatPacket
      then ebind (raft_read heartBeat_populate emptyHeartBeat p e) (\<lambda>hb.
           let e1 = (if ucast (m_leader e) = Invalid256 then e\<lparr>m_leader := hb_leader hb\<rparr> else e)
           in ebind (handleHeartbeat env (rp_nodeId p) hb e1) (\<lambda>(stepDown, e2).
              Inr (True, if stepDown then e2\<lparr>m_leader := hb_leader hb\<rparr> else e2)))
      else Inr (True, e))"

definition runAsFollowerImp :: "raft_env \<Rightarrow> raft_engine \<Rightarrow> bool raft_result" where
  "runAsFollowerImp env e =
     (if m_state e \<noteq> EN_STATE_FOLLOWER \<or> m_accountType e \<noteq> SealerAccount then Inr (False, e)
      else if checkElectTimeout env e then ebind (switchToCandidate env e) (\<lambda>e1. Inr (False, e1))
      else (let (popped, e1) = raft_tryPop e
            in case popped of None \<Rightarrow> Inr (True, e1) | Some p \<Rightarrow> follower_packet env p e1))"

text \<open>The statements of \<^verbatim>\<open>runAsLeader\<close> and \<^verbatim>\<open>runAsCandidate\<close> before their loops.\<close>

definition enter_leader :: "raft_env \<Rightarrow> raft_engine \<Rightarrow> raft_engine" where
  "enter_leader env e = e\<lparr>m_firstVote := InvalidIndex, m_lastLeaderTerm := m_term e,
     m_lastHeartbeatReset := utcSteadyTime (r_env env), m_lastHeartbeatTime := utcSteadyTime (r_env env),
     m_phase := InLeader []\<rparr>"

definition enter_candidate :: "raft_env \<Rightarrow> raft_engine \<Rightarrow> raft_engine" where
  "enter_candidate env e =
     (if m_state e \<noteq> EN_STATE_CANDIDATE \<or> m_accountType e \<noteq> SealerAccount then e
      else
        (let e1 = broadcastVoteReq env e;
             v = newVoteState\<lparr>vs_vote := 1\<rparr>;
             e2 = e1\<lparr>m_vote := m_idx e1, m_firstVote := m_idx e1\<rparr>
         in if wonElection (vs_vote v) e2 then switchToLeader e2 else e2\<lparr>m_phase := InCandidate v\<rparr>))"

definition raft_outer :: "raft_env \<Rightarrow> raft_engine \<Rightarrow> raft_engine outcome" where
  "raft_outer env e =
     (if isSyncing (m_blockSync e) then Inr e
      else ebind (raft_resetConfig env e) (\<lambda>e1.
        if m_cfgErr e1 \<or> m_accountType e1 \<noteq> SealerAccount then Inr e1
        else Inr (case m_state e1 of
            EN_STATE_LEADER \<Rightarrow> enter_leader env e1
          | EN_STATE_FOLLOWER \<Rightarrow> e1\<lparr>m_phase := InFollower\<rparr>
          | EN_STATE_CANDIDATE \<Rightarrow> enter_candidate env e1)))"

text \<open>
  One round of each of the three loops: the node leaves the loop when the sync module is at work or when
  the body of the loop says so.
\<close>

definition leader_round :: "raft_env \<Rightarrow> heartbeat_log \<Rightarrow> raft_engine \<Rightarrow> raft_engine outcome" where
  "leader_round env log e =
     (if isSyncing (m_blockSync e) then Inr (e\<lparr>m_phase := InWorkLoop\<rparr>)
      else ebind (runAsLeaderImp env log e) (\<lambda>((go, log1), e1).
           Inr (e1\<lparr>m_phase := (if go then InLeader log1 else InWorkLoop)\<rparr>)))"

definition candidate_round :: "raft_env \<Rightarrow> vote_state \<Rightarrow> raft_engine \<Rightarrow> raft_engine outcome" where
  "candidate_round env v e =
     (if isSyncing (m_blockSync e) then Inr (e\<lparr>m_phase := InWorkLoop\<rparr>)
      else ebind (runAsCandidateImp env v e) (\<lambda>((go, v1), e1).
           Inr (e1\<lparr>m_phase := (if go then InCandidate v1 else InWorkLoop)\<rparr>)))"

definition follower_round :: "raft_env \<Rightarrow> raft_engine \<Rightarrow> raft_engine outcome" where
  "follower_round env e =
     (if isSyncing (m_blockSync e) then Inr (e\<lparr>m_phase := InWorkLoop\<rparr>)
      else ebind (runAsFollowerImp env e) (\<lambda>(go, e1).
           Inr (e1\<lparr>m_phase := (if go then InFollower else InWorkLoop)\<rparr>)))"

text \<open>
  One round of the loop the working thread is in.  \<^verbatim>\<open>isWorking\<close> is the flag that \<^verbatim>\<open>start\<close> and
  \<^verbatim>\<open>stop\<close> set.  An exception leaves every loop and ends the thread.
\<close>

definition raft_work :: "raft_env \<Rightarrow> raft_engine \<Rightarrow> raft_engine outcome" where
  "raft_work env e =
     (if \<not> m_startConsensusEngine e then Inr (e\<lparr>m_phase := InWorkLoop\<rparr>)
      else case m_phase e of
          InWorkLoop \<Rightarrow> raft_outer env e
        | InLeader log \<Rightarrow> leader_round env log e
        | InCandidate v \<Rightarrow> candidate_round env v e
        | InFollower \<Rightarrow> follower_round env e)"

lemmas raft_work_defs = raft_work_def leader_round_def candidate_round_def follower_round_def

section \<open>The sealing thread\<close>

definition raft_shouldSeal :: "raft_env \<Rightarrow> raft_engine \<Rightarrow> bool" where
  "raft_shouldSeal env e \<longleftrightarrow>
     m_state e = EN_STATE_LEADER \<and> \<not> (m_cfgErr e \<or> m_accountType e \<noteq> SealerAccount) \<and>
     (let currentHeight = of_int (m_number (m_highestBlock e)) :: u256;
          currentBlockHash = header_hash (crypto (r_env env)) (m_highestBlock e);
          count = 1 + length (filter (\<lambda>(_, h, bh). h = currentHeight \<and> bh = currentBlockHash) (m_memberBlock e))
      in \<not> (\<exists>(_, h, _) \<in> set (m_memberBlock e). h > currentHeight) \<and>
         \<not> int count < int (unat (m_nodeNum e)) - int (unat (m_f e))) \<and>
     \<not> header_bool (blockHeader (m_uncommittedBlock e))"

definition raft_commit_begin :: "block \<Rightarrow> raft_engine \<Rightarrow> raft_engine" where
  "raft_commit_begin b e = e\<lparr>m_uncommittedBlock := b, m_uncommittedBlockNumber := m_consensusBlockNumber e,
     m_waitingForCommitting := True, m_commitReady := False\<rparr>"

definition raft_commit_end :: "raft_env \<Rightarrow> block \<Rightarrow> raft_engine \<Rightarrow> bool raft_result" where
  "raft_commit_end env b e =
     (let e1 = e\<lparr>m_commitReady := False, m_waitingForCommitting := False\<rparr>
      in if \<not> header_bool (blockHeader (m_uncommittedBlock e1)) then Inr (False, e1)
         else if m_state e1 \<noteq> EN_STATE_LEADER then Inr (False, e1)
         else raft_checkAndExecute env b e1)"

definition raft_reachBlockIntervalTime :: "raft_env \<Rightarrow> raft_engine \<Rightarrow> bool" where
  "raft_reachBlockIntervalTime env e \<longleftrightarrow>
     u64 (int (utcSteadyTime (r_env env)) - int (m_lastBlockTime e)) \<ge> 1000"

definition resetLastBlockTime :: "raft_env \<Rightarrow> raft_engine \<Rightarrow> raft_engine" where
  "resetLastBlockTime env e = e\<lparr>m_lastBlockTime := utcSteadyTime (r_env env)\<rparr>"

end
