(* ===== verification/RaftFacts.thy ===== *)
theory RaftFacts
  imports Raft
begin

text \<open>
  Facts on the Raft engine: which operations leave the election timeouts and the role of a node alone,
  the bounds of the election timeout as an invariant of every step of a node (\<open>raft_step\<close>), when an
  iteration of the working thread can make a node the leader, and what a malformed packet does.
\<close>

section \<open>What the operations leave alone\<close>

definition elect_of :: "raft_engine \<Rightarrow> unsigned \<times> unsigned \<times> unsigned \<times> unsigned \<times> unsigned \<times> unsigned \<times> unsigned" where
  "elect_of e = (m_electTimeout e, m_minElectTimeout e, m_maxElectTimeout e, m_minElectTimeoutInit e,
     m_maxElectTimeoutInit e, m_maxElectTimeoutBoundary e, m_increaseTime e)"

definition role_of :: "raft_engine \<Rightarrow> RaftRole \<times> term_t \<times> IDXTYPE \<times> term_t" where
  "role_of e = (m_state e, m_term e, m_vote e, m_lastLeaderTerm e)"

lemma elect_of_update [simp]:
  "elect_of (e\<lparr>m_blockChain := c\<rparr>) = elect_of e" "elect_of (e\<lparr>m_blockSync := s\<rparr>) = elect_of e"
  "elect_of (e\<lparr>m_phase := ph\<rparr>) = elect_of e" "elect_of (e\<lparr>m_raftQueue := q\<rparr>) = elect_of e"
  by (simp_all add: elect_of_def)

lemma role_of_update [simp]:
  "role_of (e\<lparr>m_blockChain := c\<rparr>) = role_of e" "role_of (e\<lparr>m_blockSync := s\<rparr>) = role_of e"
  "role_of (e\<lparr>m_phase := ph\<rparr>) = role_of e" "role_of (e\<lparr>m_raftQueue := q\<rparr>) = role_of e"
  by (simp_all add: role_of_def)

lemma asyncSend_frame [simp]:
  "elect_of (raft_asyncSend env n w e) = elect_of e" "role_of (raft_asyncSend env n w e) = role_of e"
  "m_sealerList (raft_asyncSend env n w e) = m_sealerList e"
  by (auto simp: raft_asyncSend_def elect_of_def role_of_def emit_effect_def split: sum.splits)

lemma sendResponse_frame [simp]:
  "elect_of (raft_sendResponse env n w e) = elect_of e" "role_of (raft_sendResponse env n w e) = role_of e"
  by (simp_all add: raft_sendResponse_def)

lemma fold_frame: "(\<And>x e. f (g x e) = f e) \<Longrightarrow> f (fold g xs e) = f e"
  by (induction xs arbitrary: e) auto

lemma raft_broadcast_frame [simp]:
  "elect_of (raft_broadcastMsg env w e) = elect_of e" "role_of (raft_broadcastMsg env w e) = role_of e"
  unfolding raft_broadcastMsg_def
  by (subst fold_frame [where f = elect_of], simp, simp add: elect_of_def,
      subst fold_frame [where f = role_of], simp, simp add: role_of_def)

lemma clearFirstVoteCache_frame [simp]:
  "elect_of (clearFirstVoteCache e) = elect_of e" "role_of (clearFirstVoteCache e) = role_of e"
  by (auto simp: clearFirstVoteCache_def elect_of_def role_of_def Let_def)

lemma broadcastHeartbeat_frame [simp]:
  "elect_of (broadcastHeartbeat env e) = elect_of e" "role_of (broadcastHeartbeat env e) = role_of e"
  by (auto simp: broadcastHeartbeat_def generateHeartbeat_def insertFingerPrint_def Let_def)
     (simp_all add: elect_of_def role_of_def)

lemma updateConsensusNodeList_frame [simp]:
  "elect_of (updateConsensusNodeList e) = elect_of e" "role_of (updateConsensusNodeList e) = role_of e"
  by (simp_all add: updateConsensusNodeList_def elect_of_def role_of_def emit_effect_def Let_def split: prod.splits)

lemma updateMaxBlockTransactions_frame:
  assumes "updateMaxBlockTransactions env e = Inr e'"
  shows "elect_of e' = elect_of e" "role_of e' = role_of e"
  using assms by (auto simp: updateMaxBlockTransactions_def elect_of_def role_of_def Let_def
      split: prod.splits option.splits)

section \<open>The election timeout stays in its bounds\<close>

definition elect_ok :: "unsigned \<times> unsigned \<Rightarrow> raft_engine \<Rightarrow> bool" where
  "elect_ok l e \<longleftrightarrow> l = (m_minElectTimeoutInit e, m_maxElectTimeoutBoundary e) \<and>
     m_minElectTimeoutInit e \<le> m_minElectTimeout e \<and> m_minElectTimeout e \<le> m_maxElectTimeout e \<and>
     m_maxElectTimeout e \<le> m_maxElectTimeoutBoundary e \<and>
     m_minElectTimeoutInit e \<le> m_maxElectTimeoutInit e \<and>
     m_maxElectTimeoutInit e \<le> m_maxElectTimeoutBoundary e \<and> m_increaseTime e \<le> m_maxElectTimeoutBoundary e \<and>
     unat (m_maxElectTimeoutBoundary e) * 100 < 2 ^ 32 \<and>
     m_minElectTimeoutInit e \<le> m_electTimeout e \<and> m_electTimeout e \<le> m_maxElectTimeoutBoundary e"

lemma elect_ok_cong: "elect_of e' = elect_of e \<Longrightarrow> elect_ok l e' = elect_ok l e"
  by (simp add: elect_of_def elect_ok_def)

lemma pick_timeout:
  fixes lo hi :: unsigned
  assumes "lo \<le> hi" "unat hi * 100 < 2 ^ 32"
  shows "lo \<le> lo + of_nat (r mod 100) * (hi - lo) div 100"
    "lo + of_nat (r mod 100) * (hi - lo) div 100 \<le> hi"
proof -
  define d where "d = unat hi - unat lo"
  have le: "unat lo \<le> unat hi" using assms(1) by (simp add: word_le_nat_alt)
  have ud: "unat (hi - lo) = d" using assms(1) by (simp add: unat_sub d_def)
  have r: "r mod 100 < 100" by simp
  have "(r mod 100) * d \<le> 100 * unat hi" using r by (intro mult_le_mono) (auto simp: d_def)
  then have small: "(r mod 100) * d < 2 ^ 32" using assms(2) by simp
  have "unat (of_nat (r mod 100) * (hi - lo)) = (r mod 100) * d"
    using small r by (subst unat_mult_lem [THEN iffD1]) (simp_all add: unat_of_nat ud)
  then have q: "unat (of_nat (r mod 100) * (hi - lo) div 100) = (r mod 100) * d div 100"
    by (simp add: unat_div)
  have qd: "(r mod 100) * d div 100 \<le> d"
  proof -
    have "(r mod 100) * d \<le> 100 * d" using r by simp
    then show ?thesis by linarith
  qed
  have s: "unat (lo + of_nat (r mod 100) * (hi - lo) div 100) = unat lo + (r mod 100) * d div 100"
  proof -
    have "unat lo + (r mod 100) * d div 100 \<le> unat hi" using qd le unfolding d_def by linarith
    then have "unat lo + (r mod 100) * d div 100 < 2 ^ 32" using assms(2) by linarith
    then show ?thesis by (subst unat_add_lem [THEN iffD1]) (simp_all add: q)
  qed
  show "lo \<le> lo + of_nat (r mod 100) * (hi - lo) div 100" by (simp add: word_le_nat_alt s)
  show "lo + of_nat (r mod 100) * (hi - lo) div 100 \<le> hi" using qd le by (simp add: word_le_nat_alt s d_def)
qed

lemma elect_ok_reset [simp]:
  assumes "elect_ok l e"
  shows "elect_ok l (resetElectTimeout env e)"
proof -
  have "unat (m_maxElectTimeout e) * 100 \<le> unat (m_maxElectTimeoutBoundary e) * 100"
    using assms by (simp add: elect_ok_def word_le_nat_alt)
  then have "unat (m_maxElectTimeout e) * 100 < 2 ^ 32" using assms by (simp add: elect_ok_def)
  with pick_timeout [of "m_minElectTimeout e" "m_maxElectTimeout e" "std_rand env"] assms show ?thesis
    unfolding elect_ok_def resetElectTimeout_def by (auto intro: order_trans)
qed

lemma elect_ok_increase [simp]:
  assumes "elect_ok l e"
  shows "elect_ok l (increaseElectTime e)"
proof (cases "m_maxElectTimeout e + m_increaseTime e > m_maxElectTimeoutBoundary e")
  case True
  then show ?thesis using assms by (auto simp: increaseElectTime_def elect_ok_def)
next
  case False
  have "unat (m_maxElectTimeout e) + unat (m_increaseTime e) < 2 ^ 32"
    "unat (m_minElectTimeout e) \<le> unat (m_maxElectTimeout e)"
    using assms by (auto simp: elect_ok_def word_le_nat_alt)
  then have "unat (m_maxElectTimeout e + m_increaseTime e) = unat (m_maxElectTimeout e) + unat (m_increaseTime e)"
    "unat (m_minElectTimeout e + m_increaseTime e) = unat (m_minElectTimeout e) + unat (m_increaseTime e)"
    by (simp_all add: unat_add_lem [THEN iffD1])
  with False assms show ?thesis
    by (auto simp: increaseElectTime_def elect_ok_def word_le_nat_alt word_less_nat_alt)
qed

lemma elect_ok_recover [simp]: "elect_ok l e \<Longrightarrow> elect_ok l (recoverElectTime e)"
  by (auto simp: elect_ok_def recoverElectTime_def)

lemma elect_ok_updates [simp]:
  "elect_ok l (e\<lparr>m_blockChain := c\<rparr>) = elect_ok l e" "elect_ok l (e\<lparr>m_blockSync := s\<rparr>) = elect_ok l e"
  "elect_ok l (e\<lparr>m_phase := ph\<rparr>) = elect_ok l e" "elect_ok l (e\<lparr>m_raftQueue := q\<rparr>) = elect_ok l e"
  "elect_ok l (e\<lparr>m_term := t\<rparr>) = elect_ok l e" "elect_ok l (e\<lparr>m_leader := i\<rparr>) = elect_ok l e"
  "elect_ok l (e\<lparr>m_state := st\<rparr>) = elect_ok l e" "elect_ok l (e\<lparr>m_vote := i\<rparr>) = elect_ok l e"
  "elect_ok l (e\<lparr>m_firstVote := i\<rparr>) = elect_ok l e" "elect_ok l (e\<lparr>m_lastLeaderTerm := t\<rparr>) = elect_ok l e"
  "elect_ok l (e\<lparr>m_heartbeatCount := n\<rparr>) = elect_ok l e" "elect_ok l (e\<lparr>m_lastHeartbeatTime := k\<rparr>) = elect_ok l e"
  "elect_ok l (e\<lparr>m_lastHeartbeatReset := k\<rparr>) = elect_ok l e" "elect_ok l (e\<lparr>m_memberBlock := mb\<rparr>) = elect_ok l e"
  "elect_ok l (e\<lparr>m_uncommittedBlock := b\<rparr>) = elect_ok l e" "elect_ok l (e\<lparr>m_uncommittedBlockNumber := i'\<rparr>) = elect_ok l e"
  "elect_ok l (e\<lparr>m_commitReady := x\<rparr>) = elect_ok l e" "elect_ok l (e\<lparr>m_waitingForCommitting := x\<rparr>) = elect_ok l e"
  "elect_ok l (e\<lparr>m_commitFingerPrint := fp\<rparr>) = elect_ok l e" "elect_ok l (e\<lparr>m_lastBlockTime := k\<rparr>) = elect_ok l e"
  "elect_ok l (e\<lparr>m_cfgErr := x\<rparr>) = elect_ok l e" "elect_ok l (e\<lparr>m_accountType := at\<rparr>) = elect_ok l e"
  "elect_ok l (e\<lparr>m_nodeNum := i\<rparr>) = elect_ok l e" "elect_ok l (e\<lparr>m_idx := i\<rparr>) = elect_ok l e"
  "elect_ok l (e\<lparr>m_f := i\<rparr>) = elect_ok l e" "elect_ok l (e\<lparr>m_highestBlock := hb\<rparr>) = elect_ok l e"
  "elect_ok l (e\<lparr>m_consensusBlockNumber := i'\<rparr>) = elect_ok l e" "elect_ok l (e\<lparr>m_startConsensusEngine := x\<rparr>) = elect_ok l e"
  by (simp_all add: elect_ok_def)

lemma elect_ok_follower [simp]: "elect_ok l e \<Longrightarrow> elect_ok l (switchToFollower env i e)"
  by (simp add: switchToFollower_def Let_def)

lemma elect_ok_leader [simp]: "elect_ok l e \<Longrightarrow> elect_ok l (switchToLeader e)"
  by (simp add: switchToLeader_def)

lemma elect_ok_resetConfig:
  assumes "raft_resetConfig env e = Inr e'" "elect_ok l e"
  shows "elect_ok l e'"
proof -
  obtain e1 where e1: "updateMaxBlockTransactions (r_env env) e = Inr e1"
    using assms(1) by (auto simp: raft_resetConfig_def ebind_eq_Inr)
  have "elect_ok l (updateConsensusNodeList e1)"
    using assms(2) updateMaxBlockTransactions_frame(1) [OF e1]
      elect_ok_cong [of "updateConsensusNodeList e1" e] by simp
  with assms(1) e1 show ?thesis
    by (auto simp: raft_resetConfig_def Let_def split: if_splits option.splits)
qed

lemma elect_ok_candidate:
  "switchToCandidate env e = Inr e' \<Longrightarrow> elect_ok l e \<Longrightarrow> elect_ok l e'"
  by (auto simp: switchToCandidate_def ebind_eq_Inr dest: elect_ok_resetConfig)

lemma elect_ok_reportBlock:
  "raft_reportBlock env b e = Inr e' \<Longrightarrow> elect_ok l e \<Longrightarrow> elect_ok l e'"
  by (auto simp: raft_reportBlock_def Let_def split: if_splits prod.splits option.splits
      elim!: elect_ok_resetConfig)

lemma elect_ok_cong':
  "elect_ok l (raft_asyncSend env n w e) = elect_ok l e" "elect_ok l (raft_sendResponse env n w e) = elect_ok l e"
  "elect_ok l (raft_broadcastMsg env w e) = elect_ok l e" "elect_ok l (clearFirstVoteCache e) = elect_ok l e"
  "elect_ok l (broadcastHeartbeat env e) = elect_ok l e"
  by (rule elect_ok_cong, simp)+

lemmas elect_simps [simp] = elect_ok_cong'

lemma elect_ok_voteRequest [simp]: "elect_ok l e \<Longrightarrow> elect_ok l (snd (handleVoteRequest env n req e))"
  by (auto simp: handleVoteRequest_def Let_def split: if_splits)

lemma elect_ok_voteResponse [simp]: "elect_ok l e \<Longrightarrow> elect_ok l (snd (snd (handleVoteResponse resp v e)))"
  by (auto simp: handleVoteResponse_def Let_def split: if_splits)

lemma elect_ok_heartbeat: "handleHeartbeat env n hb e = Inr (s, e') \<Longrightarrow> elect_ok l e \<Longrightarrow> elect_ok l e'"
  by (auto simp: handleHeartbeat_def Let_def split: if_splits option.splits)

text \<open>\<open>only_chain e e'\<close>: nothing but the chain and the sync module differ.\<close>

definition only_chain :: "raft_engine \<Rightarrow> raft_engine \<Rightarrow> bool" where
  "only_chain e e' \<longleftrightarrow> e'\<lparr>m_blockChain := m_blockChain e, m_blockSync := m_blockSync e\<rparr> = e"

lemma only_chain_update [simp]:
  "only_chain e e" "only_chain e (e\<lparr>m_blockChain := c\<rparr>)" "only_chain e (e\<lparr>m_blockSync := s\<rparr>)"
  by (simp_all add: only_chain_def)

lemma only_chain_trans:
  assumes "only_chain e e1" "only_chain e1 e2"
  shows "only_chain e e2"
proof -
  have "e2\<lparr>m_blockChain := m_blockChain e, m_blockSync := m_blockSync e\<rparr> =
      (e2\<lparr>m_blockChain := m_blockChain e1, m_blockSync := m_blockSync e1\<rparr>)
        \<lparr>m_blockChain := m_blockChain e, m_blockSync := m_blockSync e\<rparr>" by simp
  also have "\<dots> = e" using assms unfolding only_chain_def by simp
  finally show ?thesis unfolding only_chain_def .
qed

lemma only_chain_frame:
  assumes "only_chain e e'"
  shows "elect_of e' = elect_of e" "role_of e' = role_of e" "m_nodeNum e' = m_nodeNum e" "m_f e' = m_f e"
proof -
  have u: "e'\<lparr>m_blockChain := m_blockChain e, m_blockSync := m_blockSync e\<rparr> = e"
    using assms unfolding only_chain_def .
  show "elect_of e' = elect_of e" "role_of e' = role_of e" "m_nodeNum e' = m_nodeNum e" "m_f e' = m_f e"
    using arg_cong [OF u, of elect_of] arg_cong [OF u, of role_of] arg_cong [OF u, of m_nodeNum]
      arg_cong [OF u, of m_f] by simp_all
qed

definition state_of :: "('x \<times> raft_engine) + raft_engine \<Rightarrow> raft_engine" where
  "state_of r = (case r of Inl (x, e) \<Rightarrow> e | Inr e \<Rightarrow> e)"

lemma base_checkBlockValid_only_chain: "only_chain e (state_of (base_checkBlockValid env b e))"
  by (simp add: base_checkBlockValid_def state_of_def Let_def case_prod_beta)

lemma checkBlockValid_only_chain: "only_chain e (state_of (raft_checkBlockValid env b e))"
  using base_checkBlockValid_only_chain [of e "r_env env" b]
  by (auto simp: raft_checkBlockValid_def raft_checkSealerList_def state_of_def ebind_def split: sum.splits)

lemma executeBlock_only_chain:
  "executeBlock env b e = Inl (x, e') \<Longrightarrow> only_chain e e'"
  "executeBlock env b e = Inr (r, e') \<Longrightarrow> only_chain e e'"
  by (auto simp: executeBlock_def Let_def case_prod_beta split: option.splits)

lemma execBlock_only_chain:
  "raft_execBlock env b e = Inl (x, e') \<Longrightarrow> only_chain e e'"
  "raft_execBlock env b e = Inr (r, e') \<Longrightarrow> only_chain e e'"
proof -
  have sync: "only_chain e (on_sync f e1)" if "only_chain e e1" for e1 f
    using that by (rule only_chain_trans) simp
  show "raft_execBlock env b e = Inl (x, e') \<Longrightarrow> only_chain e e'"
    "raft_execBlock env b e = Inr (r, e') \<Longrightarrow> only_chain e e'"
    using checkBlockValid_only_chain [of e env b]
    by (auto simp: raft_execBlock_def state_of_def ebind_def split: sum.splits
        intro: only_chain_trans [OF sync] dest: executeBlock_only_chain)
qed

lemma checkAndExecute_frame:
  assumes "raft_checkAndExecute env b e = Inr (r, e')"
  shows "elect_of e' = elect_of e" "role_of e' = role_of e" "m_nodeNum e' = m_nodeNum e" "m_f e' = m_f e"
proof -
  have "elect_of e' = elect_of e \<and> role_of e' = role_of e \<and> m_nodeNum e' = m_nodeNum e \<and> m_f e' = m_f e"
  proof (cases "raft_execBlock env b e")
    case (Inl p)
    then obtain x e1 where p: "raft_execBlock env b e = Inl (x, e1)" by (cases p) auto
    from only_chain_frame [OF execBlock_only_chain(1) [OF p]] assms show ?thesis
      by (auto simp: raft_checkAndExecute_def p split: if_splits)
  next
    case (Inr p)
    then obtain b' ctx e1 where p: "raft_execBlock env b e = Inr ((b', ctx), e1)" by (cases p) auto
    have "elect_of (raft_checkAndSave env b' ctx e1) = elect_of e1 \<and> role_of (raft_checkAndSave env b' ctx e1) = role_of e1 \<and>
        m_nodeNum (raft_checkAndSave env b' ctx e1) = m_nodeNum e1 \<and> m_f (raft_checkAndSave env b' ctx e1) = m_f e1"
      by (simp add: raft_checkAndSave_def emit_effect_def elect_of_def role_of_def Let_def case_prod_beta)
    with only_chain_frame [OF execBlock_only_chain(2) [OF p]] assms show ?thesis
      by (simp add: raft_checkAndExecute_def p)
  qed
  then show "elect_of e' = elect_of e" "role_of e' = role_of e" "m_nodeNum e' = m_nodeNum e" "m_f e' = m_f e"
    by simp_all
qed

lemma elect_ok_execute:
  "raft_checkAndExecute env b e = Inr (r, e') \<Longrightarrow> elect_ok l e \<Longrightarrow> elect_ok l e'"
  using checkAndExecute_frame(1) elect_ok_cong by blast

lemma elect_ok_tryCommit:
  "tryCommitUncommitedBlock env resp e = Inr e' \<Longrightarrow> elect_ok l e \<Longrightarrow> elect_ok l e'"
  by (auto simp: tryCommitUncommitedBlock_def commitOrNotify_def commitByMyself_def insertFingerPrint_def Let_def
      ebind_eq_Inr split: if_splits dest!: elect_ok_execute elect_ok_reportBlock)

lemma elect_ok_tryPop: "raft_tryPop e = (q, e') \<Longrightarrow> elect_ok l e \<Longrightarrow> elect_ok l e'"
  by (auto simp: raft_tryPop_def split: list.splits)

lemma elect_ok_ack [simp]: "elect_ok l e \<Longrightarrow> elect_ok l (snd (note_heartbeat_ack env n resp log e))"
  by (auto simp: note_heartbeat_ack_def Let_def split: if_splits)

lemma elect_ok_leader_packet:
  "leader_packet env log p e = Inr (r, e') \<Longrightarrow> elect_ok l e \<Longrightarrow> elect_ok l e'"
  by (auto simp: leader_packet_def ebind_eq_Inr Let_def case_prod_beta split: if_splits
      dest!: elect_ok_heartbeat elect_ok_tryCommit)

lemma elect_ok_candidate_packet:
  "candidate_packet env v p e = Inr (r, e') \<Longrightarrow> elect_ok l e \<Longrightarrow> elect_ok l e'"
  by (auto simp: candidate_packet_def ebind_eq_Inr Let_def case_prod_beta split: if_splits HandleVoteResult.splits
      dest!: elect_ok_heartbeat) (metis HandleVoteResult.exhaust)

lemma elect_ok_follower_packet:
  "follower_packet env p e = Inr (r, e') \<Longrightarrow> elect_ok l e \<Longrightarrow> elect_ok l e'"
  by (auto simp: follower_packet_def Let_def ebind_eq_Inr case_prod_beta split: if_splits
      dest!: elect_ok_heartbeat)

lemma elect_ok_loops:
  "runAsLeaderImp env log e = Inr (r, e') \<Longrightarrow> elect_ok l e \<Longrightarrow> elect_ok l e'"
  "runAsCandidateImp env v e = Inr (r', e') \<Longrightarrow> elect_ok l e \<Longrightarrow> elect_ok l e'"
  "runAsFollowerImp env e = Inr (r'', e') \<Longrightarrow> elect_ok l e \<Longrightarrow> elect_ok l e'"
  by (auto simp: runAsLeaderImp_def runAsCandidateImp_def runAsFollowerImp_def Let_def ebind_eq_Inr
      split: if_splits prod.splits option.splits
      dest!: elect_ok_candidate elect_ok_tryPop elect_ok_leader_packet elect_ok_candidate_packet
        elect_ok_follower_packet elect_ok_tryCommit)

lemma elect_ok_outer: "raft_outer env e = Inr e' \<Longrightarrow> elect_ok l e \<Longrightarrow> elect_ok l e'"
  by (auto simp: raft_outer_def enter_leader_def enter_candidate_def broadcastVoteReq_def Let_def ebind_eq_Inr
      split: if_splits RaftRole.splits dest!: elect_ok_resetConfig)

lemma elect_ok_work: "raft_work env e = Inr e' \<Longrightarrow> elect_ok l e \<Longrightarrow> elect_ok l e'"
  by (auto simp: raft_work_defs ebind_eq_Inr split: if_splits raft_phase.splits
      dest!: elect_ok_outer elect_ok_loops)

section \<open>Runs of one node\<close>

text \<open>
  The steps of a node: a buffer arrives, the working thread makes one iteration, the sealing thread
  enters and leaves \<^verbatim>\<open>commit\<close>, a committed block is reported, and the sync module moves the chain and
  its own state.
\<close>

inductive raft_step :: "raft_engine \<Rightarrow> raft_engine \<Rightarrow> bool" where
  recv: "raft_step e (onRecvRaftMessage env buffer n ep e)"
| work: "raft_work env e = Inr e' \<Longrightarrow> raft_step e e'"
| seal: "\<not> m_waitingForCommitting e \<Longrightarrow> raft_shouldSeal env e \<Longrightarrow> raft_step e (raft_commit_begin b e)"
| wake: "m_waitingForCommitting e \<Longrightarrow> m_commitReady e \<Longrightarrow> raft_commit_end env b e = Inr (r, e') \<Longrightarrow> raft_step e e'"
| report: "raft_reportBlock env b e = Inr e' \<Longrightarrow> raft_step e e'"
| interval: "raft_step e (resetLastBlockTime env e)"
| sync: "raft_step e (e\<lparr>m_blockChain := c, m_blockSync := s\<rparr>)"

lemma elect_ok_step: "raft_step e e' \<Longrightarrow> elect_ok l e \<Longrightarrow> elect_ok l e'"
proof (induction rule: raft_step.induct)
  case (recv e env buffer n ep)
  then show ?case by (auto simp: onRecvRaftMessage_def Let_def split: option.splits sum.splits)
next
  case (work env e e')
  then show ?case by (rule elect_ok_work)
next
  case (seal e env b)
  then show ?case by (simp add: raft_commit_begin_def)
next
  case (wake e env b r e')
  then show ?case by (auto simp: raft_commit_end_def Let_def split: if_splits dest!: elect_ok_execute)
next
  case (report env b e e')
  then show ?case by (rule elect_ok_reportBlock)
qed (simp_all add: resetLastBlockTime_def)

section \<open>Roles\<close>

lemma role_reset [simp]: "role_of (resetElectTimeout env e) = role_of e"
  by (simp add: role_of_def resetElectTimeout_def)

lemma role_eqs: "role_of e' = role_of e \<Longrightarrow> m_state e' = m_state e \<and> m_term e' = m_term e \<and> m_vote e' = m_vote e"
  by (simp add: role_of_def)

lemma state_follower [simp]: "m_state (switchToFollower env i e) = EN_STATE_FOLLOWER"
  by (simp add: switchToFollower_def resetElectTimeout_def Let_def)

lemma state_resetConfig:
  assumes "raft_resetConfig env e = Inr e'"
  shows "m_state e' = m_state e \<or> m_state e' = EN_STATE_FOLLOWER"
proof -
  obtain e1 where e1: "updateMaxBlockTransactions (r_env env) e = Inr e1"
    using assms(1) by (auto simp: raft_resetConfig_def ebind_eq_Inr)
  have "m_state (updateConsensusNodeList e1) = m_state e"
    using updateMaxBlockTransactions_frame(2) [OF e1] role_eqs [of "updateConsensusNodeList e1" e] by simp
  with assms(1) e1 show ?thesis
    by (auto simp: raft_resetConfig_def Let_def resetElectTimeout_def split: if_splits option.splits)
qed

lemma state_candidate: "switchToCandidate env e = Inr e' \<Longrightarrow> m_state e' = EN_STATE_CANDIDATE"
  by (auto simp: switchToCandidate_def ebind_eq_Inr resetElectTimeout_def)

lemma state_sends [simp]:
  "m_state (raft_sendResponse env n w e) = m_state e" "m_state (clearFirstVoteCache e) = m_state e"
  "m_state (raft_broadcastMsg env w e) = m_state e" "m_state (resetElectTimeout env e) = m_state e"
  "m_state (increaseElectTime e) = m_state e"
  using role_eqs [of "raft_sendResponse env n w e" e] role_eqs [of "clearFirstVoteCache e" e]
    role_eqs [of "raft_broadcastMsg env w e" e] role_eqs [of "resetElectTimeout env e" e]
  by (simp_all add: increaseElectTime_def)

lemma term_sends [simp]:
  "m_term (raft_sendResponse env n w e) = m_term e" "m_term (clearFirstVoteCache e) = m_term e"
  "m_term (raft_broadcastMsg env w e) = m_term e" "m_term (resetElectTimeout env e) = m_term e"
  "m_vote (raft_sendResponse env n w e) = m_vote e" "m_vote (resetElectTimeout env e) = m_vote e"
  using role_eqs [of "raft_sendResponse env n w e" e] role_eqs [of "clearFirstVoteCache e" e]
    role_eqs [of "raft_broadcastMsg env w e" e] role_eqs [of "resetElectTimeout env e" e]
  by simp_all

lemma state_voteRequest [simp]: "m_state (snd (handleVoteRequest env n req e)) = m_state e"
  by (auto simp: handleVoteRequest_def Let_def)

lemma state_voteResponse [simp]: "m_state (snd (snd (handleVoteResponse resp v e))) = m_state e"
  by (auto simp: handleVoteResponse_def Let_def)

lemma state_heartbeat: "handleHeartbeat env n hb e = Inr (s, e') \<Longrightarrow> m_state e' = m_state e"
  by (auto simp: handleHeartbeat_def Let_def split: if_splits option.splits)

lemma state_tryPop: "m_state (snd (raft_tryPop e)) = m_state e"
  by (simp add: raft_tryPop_def split: list.splits)

text \<open>When a vote response makes a candidate the leader.\<close>

lemma voteResponse_leader:
  assumes "fst (handleVoteResponse resp v e) = TO_LEADER"
  shows "voteFlag resp = VOTE_RESP_GRANTED" "m_term e - 1 \<le> r_term resp" "isMajorityVote (vs_vote v + 1) e"
    "snd (snd (handleVoteResponse resp v e)) = e"
proof -
  have t: "\<not> r_term resp < m_term e - 1"
    using assms by (auto simp: handleVoteResponse_def)
  have g: "voteFlag resp = VOTE_RESP_GRANTED"
  proof (rule ccontr)
    assume "voteFlag resp \<noteq> VOTE_RESP_GRANTED"
    with t have "fst (handleVoteResponse resp v e) \<noteq> TO_LEADER" by (simp add: handleVoteResponse_def Let_def)
    with assms show False by simp
  qed
  have "handleVoteResponse resp v e = (let v1 = v\<lparr>vs_vote := vs_vote v + 1\<rparr>
      in (if isMajorityVote (vs_vote v1) e then TO_LEADER else NONE, v1, e))"
    using t g by (simp add: handleVoteResponse_def vote_flags)
  with t g assms have "\<not> r_term resp < m_term e - 1 \<and> voteFlag resp = VOTE_RESP_GRANTED \<and>
      isMajorityVote (vs_vote v + 1) e \<and> snd (snd (handleVoteResponse resp v e)) = e"
    by (simp add: Let_def split: if_split_asm)
  then show "voteFlag resp = VOTE_RESP_GRANTED" "m_term e - 1 \<le> r_term resp" "isMajorityVote (vs_vote v + 1) e"
    "snd (snd (handleVoteResponse resp v e)) = e"
    by (simp_all add: not_less)
qed

lemma candidate_packet_leader:
  assumes "candidate_packet env v p e = Inr (r, e')" "m_state e = EN_STATE_CANDIDATE" "m_state e' = EN_STATE_LEADER"
  obtains resp where "rp_packetType p = raft_code RaftVoteRespPacket" "m_term e' = m_term e"
    "raft_read voteResp_populate emptyVoteResp p e = Inr resp" "voteFlag resp = VOTE_RESP_GRANTED"
    "m_term e - 1 \<le> r_term resp" "isMajorityVote (vs_vote v + 1) e"
proof -
  have t: "rp_packetType p = raft_code RaftVoteRespPacket"
    using assms by (auto simp: candidate_packet_def ebind_eq_Inr Let_def case_prod_beta
        split: if_splits dest: state_heartbeat)
  define h where "h resp = handleVoteResponse resp v e" for resp
  have c: "candidate_packet env v p e = ebind (raft_read voteResp_populate emptyVoteResp p e) (\<lambda>resp.
      case fst (h resp) of
        TO_LEADER \<Rightarrow> Inr ((False, fst (snd (h resp))), switchToLeader (snd (snd (h resp))))
      | TO_FOLLOWER \<Rightarrow> Inr ((False, fst (snd (h resp))), switchToFollower env InvalidIndex (snd (snd (h resp))))
      | NONE \<Rightarrow> Inr ((True, fst (snd (h resp))), snd (snd (h resp))))"
    unfolding h_def using t by (simp add: candidate_packet_def Let_def case_prod_beta)
  then obtain resp where r: "raft_read voteResp_populate emptyVoteResp p e = Inr resp"
    using assms(1) by (cases "raft_read voteResp_populate emptyVoteResp p e") auto
  have st: "m_state (snd (snd (h resp))) = EN_STATE_CANDIDATE" using assms(2) by (simp add: h_def)
  have l: "fst (h resp) = TO_LEADER"
    using c assms(1,3) r st by (cases "fst (h resp)") auto
  note v = voteResponse_leader [OF l [unfolded h_def]]
  have "e' = switchToLeader e" using c r l assms(1) v(4) by (simp add: h_def)
  then have "m_term e' = m_term e" by (simp add: switchToLeader_def recoverElectTime_def)
  with that t r v(1-3) show ?thesis by blast
qed

lemma follower_packet_state:
  "follower_packet env p e = Inr (r, e') \<Longrightarrow> m_state e' = m_state e"
  by (auto simp: follower_packet_def Let_def ebind_eq_Inr case_prod_beta split: if_splits dest: state_heartbeat)

lemma elect_timeouts_resetConfig:
  assumes "raft_resetConfig env e = Inr e'"
  shows "m_minElectTimeout e' = m_minElectTimeout e" "m_maxElectTimeout e' = m_maxElectTimeout e"
proof -
  obtain e1 where e1: "updateMaxBlockTransactions (r_env env) e = Inr e1"
    using assms(1) by (auto simp: raft_resetConfig_def ebind_eq_Inr)
  have "elect_of (updateConsensusNodeList e1) = elect_of e"
    using updateMaxBlockTransactions_frame(1) [OF e1] by simp
  then have "m_minElectTimeout (updateConsensusNodeList e1) = m_minElectTimeout e"
    "m_maxElectTimeout (updateConsensusNodeList e1) = m_maxElectTimeout e" by (simp_all add: elect_of_def)
  with assms(1) e1 show "m_minElectTimeout e' = m_minElectTimeout e" "m_maxElectTimeout e' = m_maxElectTimeout e"
    by (auto simp: raft_resetConfig_def Let_def resetElectTimeout_def switchToFollower_def split: if_splits option.splits)
qed

lemma start_elect_ok:
  assumes "raft_start env e = Inr e0" "m_minElectTimeout e \<le> m_maxElectTimeout e" "unat (m_maxElectTimeout e) * 150 < 2 ^ 32"
  shows "elect_ok (m_minElectTimeout e, m_maxElectTimeoutBoundary e0) e0"
    "unat (m_maxElectTimeoutBoundary e0) =
       unat (m_maxElectTimeout e) + (unat (m_maxElectTimeout e) - unat (m_minElectTimeout e)) div 2"
proof -
  obtain e1 where e1: "raft_resetConfig env e = Inr e1"
    using assms(1) by (auto simp: raft_start_def initRaftEnv_def ebind_eq_Inr)
  note t = elect_timeouts_resetConfig [OF e1]
  let ?lo = "m_minElectTimeout e" and ?hi = "m_maxElectTimeout e"
  have d: "unat (?hi - ?lo) = unat ?hi - unat ?lo" using assms(2) by (rule unat_sub)
  have b: "unat (?hi + (?hi - ?lo) div 2) = unat ?hi + (unat ?hi - unat ?lo) div 2"
  proof -
    have q: "unat ((?hi - ?lo) div 2) = (unat ?hi - unat ?lo) div 2" by (simp add: unat_div d)
    have "unat ?hi + (unat ?hi - unat ?lo) div 2 < 2 ^ 32" using assms(3) by linarith
    then show ?thesis by (subst unat_add_lem [THEN iffD1]) (simp_all add: q)
  qed
  have le: "unat ?lo \<le> unat ?hi" using assms(2) by (simp add: word_le_nat_alt)
  define e2 where "e2 = e1\<lparr>m_minElectTimeoutInit := ?lo, m_maxElectTimeoutInit := ?hi,
      m_minElectTimeoutBoundary := ?lo, m_maxElectTimeoutBoundary := ?hi + (?hi - ?lo) div 2,
      m_lastElectTime := utcSteadyTime (r_env env), m_lastHeartbeatTime := utcSteadyTime (r_env env),
      m_heartbeatTimeout := ?lo, m_heartbeatInterval := ?lo div s_heartBeatIntervalRatio,
      m_increaseTime := (?hi - ?lo) div 4\<rparr>"
  have e0: "e0 = base_start (resetElectTimeout env e2)"
    using assms(1) e1 t by (simp add: raft_start_def initRaftEnv_def Let_def e2_def)
  have "elect_ok (?lo, ?hi + (?hi - ?lo) div 2) (e2\<lparr>m_electTimeout := ?hi\<rparr>)"
    using assms(3) le t by (auto simp: elect_ok_def e2_def word_le_nat_alt b unat_div d)
  then have "elect_ok (?lo, ?hi + (?hi - ?lo) div 2) (resetElectTimeout env (e2\<lparr>m_electTimeout := ?hi\<rparr>))" by (rule elect_ok_reset)
  moreover have "resetElectTimeout env (e2\<lparr>m_electTimeout := ?hi\<rparr>) = resetElectTimeout env e2"
    by (simp add: resetElectTimeout_def)
  moreover have hb: "m_maxElectTimeoutBoundary e0 = ?hi + (?hi - ?lo) div 2"
    by (simp add: e0 base_start_def resetElectTimeout_def e2_def)
  ultimately show "elect_ok (m_minElectTimeout e, m_maxElectTimeoutBoundary e0) e0"
    by (simp add: e0 base_start_def)
  show "unat (m_maxElectTimeoutBoundary e0) = unat ?hi + (unat ?hi - unat ?lo) div 2"
    by (simp add: hb b)
qed

lemma decode_80: "raft_packet_decode p0 [0x80, 0x80] = Inr (p0\<lparr>rp_packetType := 0, rp_data := []\<rparr>)"
proof -
  let ?p = "(emptyRaftPacket 0)\<lparr>rp_packetType := 0, rp_data := []\<rparr>"
  have "enc (intData 0) = [0x80]" "enc (RData []) = [0x80]" by (simp_all add: intData_def encHeader_def)
  then have "raft_packet_encode ?p = Inr [0x80, 0x80]"
    using raft_packet_encode_bytes [of ?p] by (simp del: enc.simps)
  then show ?thesis using raft_packet_round_trip [of ?p p0] by (simp add: encHeader_def)
qed

lemma rlp_at_Nil: "rlp_at [] 0 = Inr []"
  by (simp add: rlp_at_def rlp_index_def rlp_of_def payload_def rlp_length_def isNull_def payloadOffset_def
      isSingleByte_def lengthSize_def isData_def isList_def cropped_def sizeAsEncoded_def mkRLP_def actualSize_def rlp_flags)

lemma read_empty: "\<exists>x. decode_fields (voteReq_populate m0) 0 [] = Inl x"
  by (simp add: decode_fields_def mkRLP_def actualSize_def isNull_def rlp_flags rlp_at_Nil voteReq_populate_def
      raft_populate_def toInt_def requireGood_def)

lemma queue_same: "m_raftQueue e = [] \<Longrightarrow> e\<lparr>m_raftQueue := []\<rparr> = e"
  by (cases e) simp

lemma sent_by_response:
  assumes "n \<in> set (sessions (r_env env))" "n \<in> set (m_sealerList e)"
  shows "(n, WVoteResp m) \<in> set (m_sent (raft_sendResponse env n (WVoteResp m) e))"
proof -
  obtain i where i: "find_index n (m_sealerList e) = Some i"
    using assms(2) by (cases "find_index n (m_sealerList e)") (simp_all add: find_index_None)
  obtain b where "wire_bytes (utcTime (r_env env)) (WVoteResp m) = Inr b"
    using voteRespMsg.in_packet [OF voteResp_small [of m], of "utcTime (r_env env)" RaftVoteRespPacket 0 emptyVoteResp]
    by (cases "wire_bytes (utcTime (r_env env)) (WVoteResp m)") auto
  then show ?thesis
    using assms(1) i by (simp add: raft_sendResponse_def raft_getIndexBySealer_def raft_asyncSend_def)
qed

lemma outer_leader:
  assumes "raft_outer env e = Inr e'" "m_state e \<noteq> EN_STATE_LEADER" "m_state e' = EN_STATE_LEADER"
  shows "wonElection 1 e'"
proof -
  have ns: "\<not> isSyncing (m_blockSync e)" using assms by (auto simp: raft_outer_def)
  then obtain e1 where e1: "raft_resetConfig env e = Inr e1" and
    c: "(if m_cfgErr e1 \<or> m_accountType e1 \<noteq> SealerAccount then e1
        else case m_state e1 of EN_STATE_LEADER \<Rightarrow> enter_leader env e1
          | EN_STATE_FOLLOWER \<Rightarrow> e1\<lparr>m_phase := InFollower\<rparr>
          | EN_STATE_CANDIDATE \<Rightarrow> enter_candidate env e1) = e'"
    using assms(1) by (auto simp: raft_outer_def ebind_eq_Inr split: if_splits)
  have n1: "m_state e1 \<noteq> EN_STATE_LEADER" using state_resetConfig [OF e1] assms(2) by auto
  with c assms(3) have "e' = enter_candidate env e1" "m_state e1 = EN_STATE_CANDIDATE"
    by (cases "m_state e1"; auto split: if_splits)+
  with n1 assms(3) show ?thesis
    by (auto simp: enter_candidate_def Let_def broadcastVoteReq_def switchToLeader_def recoverElectTime_def
        wonElection_def newVoteState_def split: if_splits)
qed

lemma candidateImp_leader:
  assumes "runAsCandidateImp env v e = Inr (r, e')" "m_state e \<noteq> EN_STATE_LEADER" "m_state e' = EN_STATE_LEADER"
  obtains p ps resp where "m_raftQueue e = p # ps" "rp_packetType p = raft_code RaftVoteRespPacket"
    "decode_fields (voteResp_populate emptyVoteResp) 0 (rp_data p) = Inr resp" "voteFlag resp = VOTE_RESP_GRANTED"
    "m_term e - 1 \<le> r_term resp" "isMajorityVote (vs_vote v + 1) e" "m_term e' = m_term e"
proof -
  have st: "m_state e = EN_STATE_CANDIDATE" and to: "\<not> checkElectTimeout env e"
    and a: "m_accountType e = SealerAccount"
    using assms by (auto simp: runAsCandidateImp_def Let_def ebind_eq_Inr split: if_splits dest: state_candidate)
  obtain p ps where q: "m_raftQueue e = p # ps"
    using assms st to a by (cases "m_raftQueue e") (auto simp: runAsCandidateImp_def raft_tryPop_def)
  have "candidate_packet env v p (e\<lparr>m_raftQueue := ps\<rparr>) = Inr (r, e')"
    using assms(1) st to a q by (simp add: runAsCandidateImp_def raft_tryPop_def)
  then obtain resp where "rp_packetType p = raft_code RaftVoteRespPacket" "m_term e' = m_term e"
    "raft_read voteResp_populate emptyVoteResp p (e\<lparr>m_raftQueue := ps\<rparr>) = Inr resp" "voteFlag resp = VOTE_RESP_GRANTED"
    "m_term e - 1 \<le> r_term resp" "isMajorityVote (vs_vote v + 1) (e\<lparr>m_raftQueue := ps\<rparr>)"
    using st assms(3) by (auto elim: candidate_packet_leader)
  with that q show ?thesis by (auto simp: raft_read_def isMajorityVote_def split: sum.splits)
qed

lemma followerImp_leader:
  "runAsFollowerImp env e = Inr (r, e') \<Longrightarrow> m_state e \<noteq> EN_STATE_LEADER \<Longrightarrow> m_state e' \<noteq> EN_STATE_LEADER"
  by (auto simp: runAsFollowerImp_def Let_def ebind_eq_Inr raft_tryPop_def split: if_splits list.splits
      dest: state_candidate follower_packet_state)

end
