(* ===== verification/RaftExample.thy ===== *)
theory RaftExample
  imports RaftFacts
begin

text \<open>
  A Raft group of three nodes with the keys 1, 2 and 3 over a chain that holds its genesis block, its
  network with one first-in first-out link for every pair of nodes, and runs of that network.
\<close>

section \<open>Three nodes\<close>

definition trio_sys :: sys_tables where
  "trio_sys = \<lparr>sys_consensus = [(1, NODE_TYPE_SEALER, 0), (2, NODE_TYPE_SEALER, 0), (3, NODE_TYPE_SEALER, 0)],
     sys_config = [(''tx_count_limit'', (''1000'', 0))]\<rparr>"

definition trio_env :: "h512 \<Rightarrow> nat \<Rightarrow> raft_env" where
  "trio_env k t = \<lparr>r_env = \<lparr>crypto = demo_cr, utcSteadyTime = t, execTime = t, utcTime = 0, alignedTime = None,
     sessions = filter (\<lambda>n. n \<noteq> k) [1, 2, 3], decodeBlock = (\<lambda>_. None), encodeBlock = (\<lambda>_ _. []),
     verifyTxs = (\<lambda>_. True), execute = (\<lambda>b _. Some (b, Some 0)), commitEnv = demo_ce, dbCommit = (\<lambda>_ _ t. Some t),
     lexical_cast = (\<lambda>s. if s = ''1000'' then Some 1000 else None)\<rparr>, std_rand = 0\<rparr>"

text \<open>A node as its constructor leaves it, election timeouts of one and two seconds configured.\<close>

definition trio_engine :: "h512 \<Rightarrow> raft_engine" where
  "trio_engine k = \<lparr>m_maxBlockTransactions = 0, m_sealerListUpdated = False, m_lastSealerListUpdateNumber = 0,
     m_blockChain = genesis_chain demo_cr (demo_block 0 0) trio_sys,
     m_blockSync = \<lparr>sync_state = Idle, knownHighestNumber = 0, m_currentSealingNumber = 0, sync_farBehind = False\<rparr>,
     m_consensusBlockNumber = 0, m_highestBlock = emptyHeader, m_nodeNum = 0, m_f = 0,
     m_accountType = ObserverAccount, m_idx = 0, m_keyPair = \<lparr>kp_secret = 1, kp_pub = k\<rparr>, m_sealerList = [],
     m_allowFutureBlocks = True, m_startConsensusEngine = False, m_lastNodeList = [], m_connectedNode = 0,
     m_omitEmptyBlock = True, m_cfgErr = False, m_supportConsensusTimeAdjust = False, effects = [],
     m_electTimeout = 0, m_minElectTimeout = 1000, m_maxElectTimeout = 2000, m_minElectTimeoutInit = 0,
     m_maxElectTimeoutInit = 0, m_minElectTimeoutBoundary = 0, m_maxElectTimeoutBoundary = 0,
     m_lastElectTime = 0, m_heartbeatTimeout = 0, m_heartbeatInterval = 0, m_heartbeatCount = 0,
     m_lastHeartbeatTime = 0, m_lastHeartbeatReset = 0, m_increaseTime = 0, m_raftQueue = [],
     m_state = EN_STATE_FOLLOWER, m_firstVote = InvalidIndex, m_term = 0, m_lastLeaderTerm = 0, m_leader = 0,
     m_vote = 0, m_memberBlock = [], m_lastBlockTime = 0, m_uncommittedBlock = emptyBlock,
     m_uncommittedBlockNumber = 0, m_commitReady = False, m_waitingForCommitting = False,
     m_commitFingerPrint = [], m_phase = InWorkLoop, m_sent = []\<rparr>"

definition trio_chain :: blockchain where
  "trio_chain = (genesis_chain demo_cr (demo_block 0 0) trio_sys)\<lparr>
     m_nodeListCache := [(''wSealer'', 0, []), (''sealer'', 0, [1, 2, 3]), (''observer'', 0, [])],
     m_systemConfigRecord := [(''tx_count_limit'', ''1000'', 0, 1)]\<rparr>"

definition trio_names :: string where
  "trio_names = ''[updateConsensusNodeList] Sealers:'' @ abridged 1 @ '','' @ abridged 2 @ '','' @
     abridged 3 @ '','' @ ''Observers:''"

text \<open>
  A configured node at rest: it works, does not sync, holds no block to commit, and its configuration is
  the one the chain prescribes.
\<close>

definition calm :: "h512 \<Rightarrow> raft_engine \<Rightarrow> bool" where
  "calm k e \<longleftrightarrow> k \<in> {1, 2, 3} \<and> m_blockChain e = trio_chain \<and> m_maxBlockTransactions e = 1000 \<and>
     m_lastSealerListUpdateNumber e = 0 \<and> m_sealerList e = [1, 2, 3] \<and> m_lastNodeList e = trio_names \<and>
     kp_pub (m_keyPair e) = k \<and> m_nodeNum e = 3 \<and> m_f e = 1 \<and> m_idx e = ucast k - 1 \<and>
     m_accountType e = SealerAccount \<and> \<not> m_cfgErr e \<and> m_startConsensusEngine e \<and>
     sync_state (m_blockSync e) = Idle \<and> \<not> m_waitingForCommitting e \<and> m_uncommittedBlock e = emptyBlock \<and>
     m_highestBlock e = emptyHeader \<and> elect_ok (1000, 2500) e"

text \<open>The nodes after \<^verbatim>\<open>start\<close>.\<close>

definition trio_ready :: "h512 \<Rightarrow> raft_engine" where
  "trio_ready k = (trio_engine k)\<lparr>m_maxBlockTransactions := 1000, m_sealerListUpdated := True, m_blockChain := trio_chain,
     m_nodeNum := 3, m_f := 1, m_accountType := SealerAccount, m_idx := ucast k - 1, m_sealerList := [1, 2, 3],
     m_startConsensusEngine := True, m_lastNodeList := trio_names, effects := [SetNodeListByGroupID [1, 2, 3]],
     m_electTimeout := 1000, m_minElectTimeoutInit := 1000, m_maxElectTimeoutInit := 2000,
     m_minElectTimeoutBoundary := 1000, m_maxElectTimeoutBoundary := 2500, m_heartbeatTimeout := 1000,
     m_heartbeatInterval := 250, m_increaseTime := 250, m_leader := InvalidIndex\<rparr>"

lemmas chain_lookups = getSystemConfigByKey_def getSystemConfigInfoByKey_def getSysteConfigByKey_def bc_sealerList_def
  workingSealerList_def pendingSealerList_def observerList_def getNodeList_def getNodeListByType_def
  number_def NODE_TYPE_SEALER_def NODE_TYPE_OBSERVER_def NODE_TYPE_WORKING_SEALER_def

lemma trio_env_sel [simp]:
  "crypto (r_env (trio_env k t)) = demo_cr" "utcSteadyTime (r_env (trio_env k t)) = t" "utcTime (r_env (trio_env k t)) = 0"
  "sessions (r_env (trio_env k t)) = filter (\<lambda>n. n \<noteq> k) [1, 2, 3]" "std_rand (trio_env k t) = 0"
  "lexical_cast (r_env (trio_env k t)) ''1000'' = Some 1000"
  by (simp_all add: trio_env_def)

lemma calm_resetConfig:
  assumes "calm k e"
  shows "raft_resetConfig (trio_env k t) e = Inr e"
proof -
  have c: "getSystemConfigByKey ''tx_count_limit'' trio_chain = (''1000'', trio_chain)"
    "bc_sealerList trio_chain = ([1, 2, 3], trio_chain)" "observerList trio_chain = ([], trio_chain)" "number trio_chain = 0"
    by (simp_all add: trio_chain_def chain_lookups genesis_chain_def)
  have "updateMaxBlockTransactions (r_env (trio_env k t)) e = Inr e"
    using assms c by (simp add: updateMaxBlockTransactions_def calm_def)
  moreover have "updateConsensusNodeList e = e"
    using assms c by (simp add: updateConsensusNodeList_def calm_def Let_def trio_names_def)
  moreover have "e\<lparr>m_accountType := SealerAccount, m_cfgErr := False\<rparr> = e"
    using assms by (simp add: calm_def)
  ultimately show ?thesis using assms
    by (auto simp: raft_resetConfig_def calm_def Let_def)
qed

text \<open>What the election sees of a node: role, term, term of the last leader, first vote, position, queue.\<close>

definition view_of :: "raft_engine \<Rightarrow> RaftRole \<times> term_t \<times> term_t \<times> IDXTYPE \<times> raft_phase \<times> raft_packet list" where
  "view_of e = (m_state e, m_term e, m_lastLeaderTerm e, m_firstVote e, m_phase e, m_raftQueue e)"

lemma trio_started:
  assumes "k \<in> {1, 2, 3}"
  shows "raft_start (trio_env k 0) (trio_engine k) = Inr (trio_ready k)"
proof -
  define e1 where "e1 = (trio_engine k)\<lparr>m_maxBlockTransactions := 1000,
      m_blockChain := (genesis_chain demo_cr (demo_block 0 0) trio_sys)\<lparr>m_systemConfigRecord := [(''tx_count_limit'', ''1000'', 0, 1)]\<rparr>\<rparr>"
  define e2 where "e2 = (trio_engine k)\<lparr>m_maxBlockTransactions := 1000, m_sealerListUpdated := True, m_blockChain := trio_chain,
      m_sealerList := [1, 2, 3], m_lastNodeList := trio_names, effects := [SetNodeListByGroupID [1, 2, 3]]\<rparr>"
  have u: "updateMaxBlockTransactions (r_env (trio_env k 0)) (trio_engine k) = Inr e1"
    by (simp add: updateMaxBlockTransactions_def chain_lookups trio_engine_def genesis_chain_def trio_sys_def Let_def e1_def)
  have v: "updateConsensusNodeList e1 = e2"
    by (simp add: updateConsensusNodeList_def e1_def e2_def chain_lookups trio_engine_def genesis_chain_def trio_sys_def
        trio_chain_def Let_def trio_names_def emit_effect_def)
  have "find_index k [1, 2, 3] = Some (unat (ucast k - 1 :: IDXTYPE))" using assms by auto
  then have "raft_resetConfig (trio_env k 0) (trio_engine k) = Inr (e2\<lparr>m_accountType := SealerAccount, m_nodeNum := 3,
      m_idx := ucast k - 1, m_f := 1, m_electTimeout := 1000, m_leader := InvalidIndex\<rparr>)"
    by (simp add: raft_resetConfig_def u v, simp add: e2_def trio_engine_def switchToFollower_def resetElectTimeout_def Let_def)
  then show ?thesis
    by (simp add: raft_start_def initRaftEnv_def base_start_def resetElectTimeout_def Let_def s_heartBeatIntervalRatio_def)
      (simp add: e2_def trio_ready_def trio_engine_def)
qed

lemma trio_calm:
  assumes "k \<in> {1, 2, 3}"
  shows "calm k (trio_ready k)" "view_of (trio_ready k) = (EN_STATE_FOLLOWER, 0, 0, InvalidIndex, InWorkLoop, [])"
  using assms by (simp_all add: calm_def trio_ready_def trio_engine_def elect_ok_def view_of_def)

lemma calm_updates [simp]:
  "calm k (e\<lparr>m_phase := ph\<rparr>) = calm k e" "calm k (e\<lparr>m_raftQueue := q\<rparr>) = calm k e"
  "calm k (e\<lparr>m_term := t\<rparr>) = calm k e" "calm k (e\<lparr>m_leader := i\<rparr>) = calm k e"
  "calm k (e\<lparr>m_state := st\<rparr>) = calm k e" "calm k (e\<lparr>m_vote := i\<rparr>) = calm k e"
  "calm k (e\<lparr>m_firstVote := i\<rparr>) = calm k e" "calm k (e\<lparr>m_lastLeaderTerm := t\<rparr>) = calm k e"
  "calm k (e\<lparr>m_heartbeatCount := n\<rparr>) = calm k e" "calm k (e\<lparr>m_lastHeartbeatTime := x\<rparr>) = calm k e"
  "calm k (e\<lparr>m_lastHeartbeatReset := x\<rparr>) = calm k e" "calm k (e\<lparr>effects := ef\<rparr>) = calm k e"
  "calm k (e\<lparr>m_sent := sn\<rparr>) = calm k e" "calm k (e\<lparr>m_connectedNode := i\<rparr>) = calm k e"
  by (simp_all add: calm_def elect_ok_def)

lemma calm_timeouts [simp]:
  "calm k e \<Longrightarrow> calm k (resetElectTimeout env e)" "calm k e \<Longrightarrow> calm k (increaseElectTime e)"
  "calm k e \<Longrightarrow> calm k (recoverElectTime e)"
  using elect_ok_reset [of "(1000, 2500)" e env] elect_ok_increase [of "(1000, 2500)" e] elect_ok_recover [of "(1000, 2500)" e]
  by (auto simp: calm_def resetElectTimeout_def increaseElectTime_def recoverElectTime_def)

lemma calm_switch [simp]: "calm k e \<Longrightarrow> calm k (switchToFollower env i e)" "calm k e \<Longrightarrow> calm k (switchToLeader e)"
  by (simp_all add: switchToFollower_def switchToLeader_def Let_def calm_def [of k e])

lemma reset_sel [simp]:
  "m_state (resetElectTimeout env e) = m_state e" "m_term (resetElectTimeout env e) = m_term e"
  "m_lastLeaderTerm (resetElectTimeout env e) = m_lastLeaderTerm e" "m_firstVote (resetElectTimeout env e) = m_firstVote e"
  "m_phase (resetElectTimeout env e) = m_phase e" "m_raftQueue (resetElectTimeout env e) = m_raftQueue e"
  "effects (resetElectTimeout env e) = effects e"
  by (simp_all add: resetElectTimeout_def)

lemma increase_sel [simp]:
  "m_state (increaseElectTime e) = m_state e" "m_term (increaseElectTime e) = m_term e"
  "m_lastLeaderTerm (increaseElectTime e) = m_lastLeaderTerm e" "m_firstVote (increaseElectTime e) = m_firstVote e"
  "m_phase (increaseElectTime e) = m_phase e" "m_raftQueue (increaseElectTime e) = m_raftQueue e"
  "effects (increaseElectTime e) = effects e"
  by (simp_all add: increaseElectTime_def)

lemma switch_sel [simp]:
  "m_term (switchToFollower env i e) = m_term e" "m_lastLeaderTerm (switchToFollower env i e) = m_lastLeaderTerm e"
  "m_firstVote (switchToFollower env i e) = m_firstVote e" "m_phase (switchToFollower env i e) = m_phase e"
  "m_raftQueue (switchToFollower env i e) = m_raftQueue e" "effects (switchToFollower env i e) = effects e"
  "m_state (switchToLeader e) = EN_STATE_LEADER" "m_term (switchToLeader e) = m_term e"
  "m_lastLeaderTerm (switchToLeader e) = m_lastLeaderTerm e" "m_firstVote (switchToLeader e) = m_firstVote e"
  "m_raftQueue (switchToLeader e) = m_raftQueue e" "effects (switchToLeader e) = effects e"
  by (simp_all add: switchToFollower_def switchToLeader_def recoverElectTime_def Let_def)

lemma calm_timeout: "calm k e \<Longrightarrow> \<exists>t. checkElectTimeout (trio_env k t) e"
  by (rule exI [of _ "m_lastElectTime e + unat (m_electTimeout e)"]) (simp add: checkElectTimeout_def)

lemma calm_no_timeout: 
  assumes "calm k e"
  shows "\<exists>t. \<not> checkElectTimeout (trio_env k t) e"
proof (rule exI [of _ "m_lastElectTime e"])
  have "1000 \<le> m_electTimeout e" using assms by (auto simp: calm_def elect_ok_def)
  then have "0 < unat (m_electTimeout e)" unfolding word_le_nat_alt by simp
  then have "0 < int (unat (m_electTimeout e))" by (simp only: of_nat_0_less_iff)
  then show "\<not> checkElectTimeout (trio_env k (m_lastElectTime e)) e" unfolding checkElectTimeout_def trio_env_sel by linarith
qed

section \<open>Messages on the wire\<close>

definition wire :: "raft_wire \<Rightarrow> bytes" where
  "wire w = (case wire_bytes 0 w of Inl _ \<Rightarrow> [] | Inr b \<Rightarrow> b)"

definition pkt :: "h512 \<Rightarrow> raft_wire \<Rightarrow> raft_packet" where
  "pkt k w = raft_setOtherField 0 (ucast k - 1) k []
     (case raft_packet_decode (emptyRaftPacket 0) (wire w) of Inl _ \<Rightarrow> emptyRaftPacket 0 | Inr p \<Rightarrow> p)"

lemma wire_unpack:
  assumes "ebind (wire_bytes 0 w) (raft_unpack 0 reader) = Inr (code, m)"
  shows "wire_bytes 0 w = Inr (wire w)" "wire w \<noteq> []" "rp_packetType (pkt k w) = code" "rp_nodeId (pkt k w) = k"
    "decode_fields reader 0 (rp_data (pkt k w)) = Inr m"
    "\<exists>p. raft_packet_decode (emptyRaftPacket 0) (wire w) = Inr p \<and> raft_setOtherField 0 (ucast k - 1) k [] p = pkt k w"
proof -
  obtain b p where b: "wire_bytes 0 w = Inr b" "raft_packet_decode (emptyRaftPacket 0) b = Inr p"
    "rp_packetType p = code" "decode_fields reader 0 (rp_data p) = Inr m"
    using assms by (auto simp: ebind_eq_Inr raft_unpack_def)
  then show "wire_bytes 0 w = Inr (wire w)" "rp_packetType (pkt k w) = code" "rp_nodeId (pkt k w) = k"
    "decode_fields reader 0 (rp_data (pkt k w)) = Inr m"
    "\<exists>p. raft_packet_decode (emptyRaftPacket 0) (wire w) = Inr p \<and> raft_setOtherField 0 (ucast k - 1) k [] p = pkt k w"
    by (simp_all add: wire_def pkt_def raft_setOtherField_def)
  show "wire w \<noteq> []"
  proof
    assume "wire w = []"
    with b have "raft_packet_decode (emptyRaftPacket 0) [] = Inr p" by (simp add: wire_def)
    then show False
      by (simp add: raft_packet_decode_def cropped_def mkRLP_def actualSize_def isNull_def rlp_flags toInt_def requireGood_def)
  qed
qed

lemmas wire_voteReq = wire_unpack [where w = "WVoteReq m" for m, unfolded wire_bytes.simps,
  OF voteReqMsg.in_packet [OF voteReq_small], folded wire_bytes.simps]
lemmas wire_voteResp = wire_unpack [where w = "WVoteResp m" for m, unfolded wire_bytes.simps,
  OF voteRespMsg.in_packet [OF voteResp_small], folded wire_bytes.simps]

lemma recv_packet:
  assumes "calm k' e" "k \<in> {1, 2, 3}" "k \<noteq> k'"
    and "wire w \<noteq> []" "rp_packetType (pkt k w) = raft_code pt"
    and "\<exists>p. raft_packet_decode (emptyRaftPacket 0) (wire w) = Inr p \<and> raft_setOtherField 0 (ucast k - 1) k [] p = pkt k w"
  shows "onRecvRaftMessage (trio_env k' t) (wire w) k [] e = e\<lparr>m_raftQueue := m_raftQueue e @ [pkt k w]\<rparr>"
proof -
  obtain p where p: "raft_packet_decode (emptyRaftPacket 0) (wire w) = Inr p"
    "raft_setOtherField 0 (ucast k - 1) k [] p = pkt k w" using assms(6) by blast
  have s: "m_sealerList e = [1, 2, 3]" "k' \<in> {1, 2, 3}" "m_idx e = ucast k' - 1" using assms(1) by (simp_all add: calm_def)
  have i: "raft_getIndexBySealer k e = int (unat (ucast k - 1 :: IDXTYPE))"
    using assms(2) s(1) by (auto simp: raft_getIndexBySealer_def)
  have "getNodeIdByIndex (m_idx e) e = Some k'"
    using s by (auto simp: getNodeIdByIndex_def getSealerByIndex_def Let_def)
  then have "raft_isValidReq (wire w) k e = Some (int (unat (ucast k - 1 :: IDXTYPE)))"
    using assms(3,4) i by (simp add: raft_isValidReq_def)
  moreover have "of_int (int (unat (ucast k - 1 :: IDXTYPE))) = (ucast k - 1 :: IDXTYPE)" by simp
  moreover have "rp_packetType (pkt k w) < RaftPacketCount" unfolding assms(5) by (cases pt) (simp_all add: RaftPacketCount_def)
  ultimately show ?thesis using p by (simp add: onRecvRaftMessage_def Let_def)
qed

lemma asyncSend_eq:
  assumes "wire_bytes 0 w = Inr (wire w)"
  shows "raft_asyncSend (trio_env k t) n w e = e\<lparr>effects := AsyncSend n (wire w) # effects e, m_sent := (n, w) # m_sent e\<rparr>"
  using assms by (simp add: raft_asyncSend_def emit_effect_def)

definition others :: "h512 \<Rightarrow> h512 list" where
  "others k = filter (\<lambda>n. n \<noteq> k) [1, 2, 3]"

lemma broadcast_eq:
  assumes "calm k e" "wire_bytes 0 w = Inr (wire w)"
  shows "raft_broadcastMsg (trio_env k t) w e = e\<lparr>m_connectedNode := 2,
     effects := map (\<lambda>n. AsyncSend n (wire w)) (rev (others k)) @ effects e,
     m_sent := map (\<lambda>n. (n, w)) (rev (others k)) @ m_sent e\<rparr>"
proof -
  have s: "m_sealerList e = [1, 2, 3]" "k \<in> {1, 2, 3}" using assms(1) by (simp_all add: calm_def)
  then show ?thesis
    by (elim insertE emptyE; hypsubst)
      (simp_all add: raft_broadcastMsg_def others_def asyncSend_eq [OF assms(2)] raft_getIndexBySealer_def)
qed

lemma sendResponse_eq:
  assumes "calm k e" "n \<in> {1, 2, 3}" "n \<noteq> k" "wire_bytes 0 w = Inr (wire w)"
  shows "raft_sendResponse (trio_env k t) n w e = e\<lparr>effects := AsyncSend n (wire w) # effects e, m_sent := (n, w) # m_sent e\<rparr>"
proof -
  have "n \<in> set (sessions (r_env (trio_env k t)))" using assms(2,3) by auto
  moreover have "find_index n (m_sealerList e) \<noteq> None"
    using assms(1,2) unfolding find_index_None by (simp add: calm_def)
  then have "\<not> raft_getIndexBySealer n e < 0"
    by (simp add: raft_getIndexBySealer_def split: option.splits)
  ultimately show ?thesis by (simp only: raft_sendResponse_def asyncSend_eq [OF assms(4)] if_True simp_thms)
qed

section \<open>Steps of a node at rest\<close>

definition goes :: "h512 \<Rightarrow> RaftRole \<times> term_t \<times> term_t \<times> IDXTYPE \<times> raft_phase \<times> raft_packet list \<Rightarrow> (h512 \<times> bytes) list \<Rightarrow>
    RaftRole \<times> term_t \<times> term_t \<times> IDXTYPE \<times> raft_phase \<times> raft_packet list \<Rightarrow> bool" where
  "goes k v out v' \<longleftrightarrow> (\<forall>e. calm k e \<and> view_of e = v \<longrightarrow>
     (\<exists>t e'. raft_work (trio_env k t) e = Inr e' \<and> calm k e' \<and> view_of e' = v' \<and>
        effects e' = rev (map (\<lambda>(n, b). AsyncSend n b) out) @ effects e))"

lemma goesI:
  assumes "\<And>e. calm k e \<Longrightarrow> view_of e = v \<Longrightarrow> \<exists>t e'. raft_work (trio_env k t) e = Inr e' \<and> calm k e' \<and> view_of e' = v' \<and>
     effects e' = rev (map (\<lambda>(n, b). AsyncSend n b) out) @ effects e"
  shows "goes k v out v'"
  using assms by (simp add: goes_def)

definition vreq :: "h512 \<Rightarrow> term_t \<Rightarrow> term_t \<Rightarrow> raft_vote_req" where
  "vreq k t l = emptyVoteReq\<lparr>r_idx := ucast k - 1, r_term := t, r_height := m_number emptyHeader,
     r_blockHash := header_hash demo_cr emptyHeader, candidate := ucast k - 1, req_lastLeaderTerm := l,
     lastBlockNumber := 0\<rparr>"

definition vresp :: "h512 \<Rightarrow> term_t \<Rightarrow> byte \<Rightarrow> term_t \<Rightarrow> raft_vote_resp" where
  "vresp k t f l = emptyVoteResp\<lparr>r_idx := ucast k - 1, r_term := t, r_height := m_number emptyHeader,
     r_blockHash := header_hash demo_cr emptyHeader, voteFlag := f, resp_lastLeaderTerm := l\<rparr>"

lemma calm_chain_number: "number trio_chain = 0"
  by (simp add: trio_chain_def number_def genesis_chain_def)

lemma calm_held: "calm k e \<Longrightarrow> lastHeldNumber e = 0"
  by (simp add: calm_def lastHeldNumber_def emptyBlock_def emptyHeader_def header_bool_def calm_chain_number)

lemma calm_messages:
  assumes "calm k e"
  shows "generateVoteReq (trio_env k t) e = vreq k (m_term e) (m_lastLeaderTerm e)"
    "raft_voteResp (trio_env k t) e = vresp k (m_term e) VOTE_RESP_REJECT (m_lastLeaderTerm e)"
  using assms calm_held [OF assms]
  by (simp_all add: generateVoteReq_def raft_voteResp_def vreq_def vresp_def calm_def)

lemma calm_work [simp]:
  assumes "calm k e"
  shows "m_startConsensusEngine e" "\<not> isSyncing (m_blockSync e)" "m_accountType e = SealerAccount" "\<not> m_cfgErr e"
    "isMajorityVote n e \<longleftrightarrow> 2 \<le> n" "wonElection n e \<longleftrightarrow> 2 \<le> n" "m_idx e = ucast k - 1" "m_nodeNum e = 3"
  using assms by (auto simp: calm_def isSyncing_def isMajorityVote_def wonElection_def)

lemma goes_enter: "goes k (EN_STATE_FOLLOWER, t, l, f, InWorkLoop, q) [] (EN_STATE_FOLLOWER, t, l, f, InFollower, q)"
  by (rule goesI) (simp add: raft_work_defs raft_outer_def calm_resetConfig view_of_def)

lemma goes_timeout: "goes k (EN_STATE_FOLLOWER, t, l, f, InFollower, q) [] (EN_STATE_CANDIDATE, t + 1, l, f, InWorkLoop, q)"
proof (rule goesI)
  fix e assume e: "calm k e" "view_of e = (EN_STATE_FOLLOWER, t, l, f, InFollower, q)"
  then obtain u where "checkElectTimeout (trio_env k u) e" using calm_timeout by blast
  with e show "\<exists>u e'. raft_work (trio_env k u) e = Inr e' \<and> calm k e' \<and>
      view_of e' = (EN_STATE_CANDIDATE, t + 1, l, f, InWorkLoop, q) \<and> effects e' = rev (map (\<lambda>(n, b). AsyncSend n b) []) @ effects e"
    by (intro exI [of _ u])
       (simp add: raft_work_defs runAsFollowerImp_def switchToCandidate_def calm_resetConfig view_of_def)
qed

lemma goes_stand:
  "goes k (EN_STATE_CANDIDATE, t, l, f, InWorkLoop, q) (map (\<lambda>n. (n, wire (WVoteReq (vreq k t l)))) (others k))
     (EN_STATE_CANDIDATE, t, l, ucast k - 1, InCandidate (newVoteState\<lparr>vs_vote := 1\<rparr>), q)"
proof (rule goesI)
  fix e assume e: "calm k e" "view_of e = (EN_STATE_CANDIDATE, t, l, f, InWorkLoop, q)"
  then show "\<exists>u e'. raft_work (trio_env k u) e = Inr e' \<and> calm k e' \<and>
      view_of e' = (EN_STATE_CANDIDATE, t, l, ucast k - 1, InCandidate (newVoteState\<lparr>vs_vote := 1\<rparr>), q) \<and>
      effects e' = rev (map (\<lambda>(n, b). AsyncSend n b) (map (\<lambda>n. (n, wire (WVoteReq (vreq k t l)))) (others k))) @ effects e"
    by (simp add: raft_work_defs raft_outer_def calm_resetConfig view_of_def enter_candidate_def broadcastVoteReq_def
        calm_messages broadcast_eq [OF _ wire_voteReq(1)] Let_def rev_map comp_def)
qed

lemma goes_revert:
  assumes "totalVoteCount v < 2"
  shows "goes k (EN_STATE_CANDIDATE, t, l, f, InCandidate v, q) [] (EN_STATE_FOLLOWER, t - 1, l, f, InWorkLoop, q)"
proof (rule goesI)
  fix e assume e: "calm k e" "view_of e = (EN_STATE_CANDIDATE, t, l, f, InCandidate v, q)"
  then obtain u where "checkElectTimeout (trio_env k u) e" using calm_timeout by blast
  with e assms show "\<exists>u e'. raft_work (trio_env k u) e = Inr e' \<and> calm k e' \<and>
      view_of e' = (EN_STATE_FOLLOWER, t - 1, l, f, InWorkLoop, q) \<and> effects e' = rev (map (\<lambda>(n, b). AsyncSend n b) []) @ effects e"
    by (intro exI [of _ u]) (simp add: raft_work_defs runAsCandidateImp_def view_of_def Let_def)
qed

lemma read_vreq:
  assumes "low32 t = t" "low32 l = l"
  obtains req where "\<And>e. raft_read voteReq_populate emptyVoteReq (pkt n (WVoteReq (vreq j t l))) e = Inr req"
    "r_term req = t" "candidate req = ucast j - 1" "req_lastLeaderTerm req = l" "lastBlockNumber req = 0"
proof (rule that)
  show "raft_read voteReq_populate emptyVoteReq (pkt n (WVoteReq (vreq j t l))) e =
      Inr (voteReq_restored emptyVoteReq (vreq j t l))" for e
    by (simp add: raft_read_def wire_voteReq(5))
qed (simp_all add: voteReq_restored_def raft_restored_def vreq_def assms)

lemma read_vresp:
  assumes "low32 t = t"
  obtains resp where "\<And>e. raft_read voteResp_populate emptyVoteResp (pkt n (WVoteResp (vresp j t f l))) e = Inr resp"
    "r_term resp = t" "voteFlag resp = f"
proof (rule that)
  show "raft_read voteResp_populate emptyVoteResp (pkt n (WVoteResp (vresp j t f l))) e =
      Inr (voteResp_restored emptyVoteResp (vresp j t f l))" for e
    by (simp add: raft_read_def wire_voteResp(5))
qed (simp_all add: voteResp_restored_def raft_restored_def vresp_def assms)

lemma vresp_flag:
  "(vresp k t f l)\<lparr>voteFlag := g\<rparr> = vresp k t g l" "(vresp k t f l)\<lparr>r_term := s, voteFlag := g\<rparr> = vresp k s g l"
  by (simp_all add: vresp_def)

lemma follower_request:
  assumes e: "calm k e" "view_of e = (EN_STATE_FOLLOWER, t, l, f, InFollower, pkt n (WVoteReq m) # q)"
    and r: "\<And>e. raft_read voteReq_populate emptyVoteReq (pkt n (WVoteReq m)) e = Inr req"
  obtains u where "raft_work (trio_env k u) e = (let (g, e1) = handleVoteRequest (trio_env k u) n req (e\<lparr>m_raftQueue := q\<rparr>)
      in Inr (e1\<lparr>m_phase := if \<not> g then InFollower else InWorkLoop\<rparr>))"
proof -
  obtain u where "\<not> checkElectTimeout (trio_env k u) e" using calm_no_timeout [OF e(1)] by blast
  with e r have "raft_work (trio_env k u) e = (let (g, e1) = handleVoteRequest (trio_env k u) n req (e\<lparr>m_raftQueue := q\<rparr>)
      in Inr (e1\<lparr>m_phase := if \<not> g then InFollower else InWorkLoop\<rparr>))"
    by (simp add: raft_work_defs runAsFollowerImp_def view_of_def raft_tryPop_def follower_packet_def wire_voteReq(3,4)
        Let_def case_prod_beta)
  with that show ?thesis by blast
qed

lemma goes_first:
  assumes "n \<in> {1, 2, 3}" "n \<noteq> k" "t < s" "l \<le> ls" "low32 s = s" "low32 ls = ls"
  shows "goes k (EN_STATE_FOLLOWER, t, l, InvalidIndex, InFollower, pkt n (WVoteReq (vreq n s ls)) # q)
     [(n, wire (WVoteResp (vresp k t VOTE_RESP_FIRST_VOTE l)))] (EN_STATE_FOLLOWER, t, l, ucast n - 1, InFollower, q)"
proof (rule goesI)
  fix e assume e: "calm k e" "view_of e = (EN_STATE_FOLLOWER, t, l, InvalidIndex, InFollower, pkt n (WVoteReq (vreq n s ls)) # q)"
  obtain req where r: "\<And>e. raft_read voteReq_populate emptyVoteReq (pkt n (WVoteReq (vreq n s ls))) e = Inr req"
    "r_term req = s" "candidate req = ucast n - 1" "req_lastLeaderTerm req = ls" "lastBlockNumber req = 0"
    using read_vreq [OF assms(5,6)] by blast
  obtain u where u: "raft_work (trio_env k u) e = (let (g, e1) = handleVoteRequest (trio_env k u) n req (e\<lparr>m_raftQueue := q\<rparr>)
      in Inr (e1\<lparr>m_phase := if \<not> g then InFollower else InWorkLoop\<rparr>))" using follower_request [OF e r(1)] by blast
  have "handleVoteRequest (trio_env k u) n req (e\<lparr>m_raftQueue := q\<rparr>) = (False,
      raft_sendResponse (trio_env k u) n (WVoteResp (vresp k t VOTE_RESP_FIRST_VOTE l)) (e\<lparr>m_raftQueue := q, m_firstVote := ucast n - 1\<rparr>))"
    using e assms(3,4) r calm_held [of k "e\<lparr>m_raftQueue := q\<rparr>"] calm_messages(2) [of k "e\<lparr>m_raftQueue := q\<rparr>" u]
    by (simp add: handleVoteRequest_def Let_def view_of_def vresp_flag not_le not_less)
  with e u assms(1,2) show "\<exists>u e'. raft_work (trio_env k u) e = Inr e' \<and> calm k e' \<and>
      view_of e' = (EN_STATE_FOLLOWER, t, l, ucast n - 1, InFollower, q) \<and>
      effects e' = rev (map (\<lambda>(n, b). AsyncSend n b) [(n, wire (WVoteResp (vresp k t VOTE_RESP_FIRST_VOTE l)))]) @ effects e"
    by (intro exI [of _ u]) (simp add: sendResponse_eq [OF _ assms(1,2) wire_voteResp(1)] view_of_def)
qed

lemma goes_grant:
  assumes "n \<in> {1, 2, 3}" "n \<noteq> k" "t < s" "l \<le> ls" "low32 s = s" "low32 ls = ls" "f \<noteq> InvalidIndex"
  shows "goes k (EN_STATE_FOLLOWER, t, l, f, InFollower, pkt n (WVoteReq (vreq n s ls)) # q)
     [(n, wire (WVoteResp (vresp k s VOTE_RESP_GRANTED l)))] (EN_STATE_FOLLOWER, s, l, ucast n - 1, InWorkLoop, q)"
proof (rule goesI)
  fix e assume e: "calm k e" "view_of e = (EN_STATE_FOLLOWER, t, l, f, InFollower, pkt n (WVoteReq (vreq n s ls)) # q)"
  obtain req where r: "\<And>e. raft_read voteReq_populate emptyVoteReq (pkt n (WVoteReq (vreq n s ls))) e = Inr req"
    "r_term req = s" "candidate req = ucast n - 1" "req_lastLeaderTerm req = ls" "lastBlockNumber req = 0"
    using read_vreq [OF assms(5,6)] by blast
  obtain u where u: "raft_work (trio_env k u) e = (let (g, e1) = handleVoteRequest (trio_env k u) n req (e\<lparr>m_raftQueue := q\<rparr>)
      in Inr (e1\<lparr>m_phase := if \<not> g then InFollower else InWorkLoop\<rparr>))" using follower_request [OF e r(1)] by blast
  have "handleVoteRequest (trio_env k u) n req (e\<lparr>m_raftQueue := q\<rparr>) = (True, resetElectTimeout (trio_env k u)
      (raft_sendResponse (trio_env k u) n (WVoteResp (vresp k s VOTE_RESP_GRANTED l)) (e\<lparr>m_raftQueue := q, m_term := s,
         m_leader := InvalidIndex, m_vote := ucast n - 1, m_firstVote := ucast n - 1\<rparr>)))"
    using e assms(3,4,7) r calm_held [of k "e\<lparr>m_raftQueue := q\<rparr>"] calm_messages(2) [of k "e\<lparr>m_raftQueue := q\<rparr>" u]
    by (simp add: handleVoteRequest_def Let_def view_of_def vresp_flag not_le not_less)
  with e u show "\<exists>u e'. raft_work (trio_env k u) e = Inr e' \<and> calm k e' \<and>
      view_of e' = (EN_STATE_FOLLOWER, s, l, ucast n - 1, InWorkLoop, q) \<and>
      effects e' = rev (map (\<lambda>(n, b). AsyncSend n b) [(n, wire (WVoteResp (vresp k s VOTE_RESP_GRANTED l)))]) @ effects e"
    by (intro exI [of _ u]) (simp add: sendResponse_eq [OF _ assms(1,2) wire_voteResp(1)] view_of_def)
qed

lemma goes_discard:
  assumes "n \<in> {1, 2, 3}" "n \<noteq> k" "low32 t = t" "low32 ls = ls"
  shows "goes k (EN_STATE_CANDIDATE, t, l, f, InCandidate v, pkt n (WVoteReq (vreq n t ls)) # q)
     [(n, wire (WVoteResp (vresp k t VOTE_RESP_DISCARD l)))] (EN_STATE_CANDIDATE, t, l, f, InCandidate v, q)"
proof (rule goesI)
  fix e assume e: "calm k e" "view_of e = (EN_STATE_CANDIDATE, t, l, f, InCandidate v, pkt n (WVoteReq (vreq n t ls)) # q)"
  obtain req where r: "\<And>e. raft_read voteReq_populate emptyVoteReq (pkt n (WVoteReq (vreq n t ls))) e = Inr req" "r_term req = t"
    using read_vreq [OF assms(3,4)] by blast
  obtain u where u: "\<not> checkElectTimeout (trio_env k u) e" using calm_no_timeout [OF e(1)] by blast
  have "handleVoteRequest (trio_env k u) n req (e\<lparr>m_raftQueue := q\<rparr>) = (False,
      raft_sendResponse (trio_env k u) n (WVoteResp (vresp k t VOTE_RESP_DISCARD l)) (e\<lparr>m_raftQueue := q\<rparr>))"
    using e r calm_messages(2) [of k "e\<lparr>m_raftQueue := q\<rparr>" u]
    by (simp add: handleVoteRequest_def Let_def view_of_def vresp_flag)
  with e u r(1) show "\<exists>u e'. raft_work (trio_env k u) e = Inr e' \<and> calm k e' \<and>
      view_of e' = (EN_STATE_CANDIDATE, t, l, f, InCandidate v, q) \<and>
      effects e' = rev (map (\<lambda>(n, b). AsyncSend n b) [(n, wire (WVoteResp (vresp k t VOTE_RESP_DISCARD l)))]) @ effects e"
    by (intro exI [of _ u])
       (simp add: raft_work_defs runAsCandidateImp_def raft_tryPop_def candidate_packet_def wire_voteReq(3,4)
         sendResponse_eq [OF _ assms(1,2) wire_voteResp(1)] view_of_def)
qed

lemma goes_granted:
  assumes "t - 1 \<le> s" "1 \<le> vs_vote v" "low32 s = s"
  shows "goes k (EN_STATE_CANDIDATE, t, l, f, InCandidate v, pkt n (WVoteResp (vresp n s VOTE_RESP_GRANTED ls)) # q) []
     (EN_STATE_LEADER, t, l, f, InWorkLoop, q)"
proof (rule goesI)
  fix e assume e: "calm k e" "view_of e = (EN_STATE_CANDIDATE, t, l, f, InCandidate v, pkt n (WVoteResp (vresp n s VOTE_RESP_GRANTED ls)) # q)"
  obtain resp where r: "\<And>e. raft_read voteResp_populate emptyVoteResp (pkt n (WVoteResp (vresp n s VOTE_RESP_GRANTED ls))) e = Inr resp"
    "r_term resp = s" "voteFlag resp = VOTE_RESP_GRANTED"
    using read_vresp [OF assms(3)] by blast
  obtain u where u: "\<not> checkElectTimeout (trio_env k u) e" using calm_no_timeout [OF e(1)] by blast
  have "handleVoteResponse resp v (e\<lparr>m_raftQueue := q\<rparr>) = (TO_LEADER, v\<lparr>vs_vote := vs_vote v + 1\<rparr>, e\<lparr>m_raftQueue := q\<rparr>)"
    using e r(2,3) assms(1,2) by (simp add: handleVoteResponse_def view_of_def vote_flags not_less)
  with e u r(1) show "\<exists>u e'. raft_work (trio_env k u) e = Inr e' \<and> calm k e' \<and>
      view_of e' = (EN_STATE_LEADER, t, l, f, InWorkLoop, q) \<and> effects e' = rev (map (\<lambda>(n, b). AsyncSend n b) []) @ effects e"
    by (intro exI [of _ u])
       (simp add: raft_work_defs runAsCandidateImp_def raft_tryPop_def candidate_packet_def wire_voteResp(3,4) view_of_def)
qed

lemma goes_stale:
  assumes "s < t - 1" "low32 s = s"
  shows "goes k (EN_STATE_CANDIDATE, t, l, f, InCandidate v, pkt n (WVoteResp (vresp n s g ls)) # q) []
     (EN_STATE_CANDIDATE, t, l, f, InCandidate v, q)"
proof (rule goesI)
  fix e assume e: "calm k e" "view_of e = (EN_STATE_CANDIDATE, t, l, f, InCandidate v, pkt n (WVoteResp (vresp n s g ls)) # q)"
  obtain resp where r: "\<And>e. raft_read voteResp_populate emptyVoteResp (pkt n (WVoteResp (vresp n s g ls))) e = Inr resp"
    "r_term resp = s" using read_vresp [OF assms(2)] by blast
  obtain u where u: "\<not> checkElectTimeout (trio_env k u) e" using calm_no_timeout [OF e(1)] by blast
  have "handleVoteResponse resp v (e\<lparr>m_raftQueue := q\<rparr>) = (NONE, v, e\<lparr>m_raftQueue := q\<rparr>)"
    using e r(2) assms(1) by (simp add: handleVoteResponse_def view_of_def)
  with e u r(1) show "\<exists>u e'. raft_work (trio_env k u) e = Inr e' \<and> calm k e' \<and>
      view_of e' = (EN_STATE_CANDIDATE, t, l, f, InCandidate v, q) \<and> effects e' = rev (map (\<lambda>(n, b). AsyncSend n b) []) @ effects e"
    by (intro exI [of _ u])
       (simp add: raft_work_defs runAsCandidateImp_def raft_tryPop_def candidate_packet_def wire_voteResp(3,4) view_of_def)
qed

lemma goes_lead: "goes k (EN_STATE_LEADER, t, l, f, InWorkLoop, q) [] (EN_STATE_LEADER, t, t, InvalidIndex, InLeader [], q)"
  by (rule goesI) (simp add: raft_work_defs raft_outer_def calm_resetConfig enter_leader_def view_of_def)

lemma goes_leader_timeout:
  "goes k (EN_STATE_LEADER, t, l, f, InLeader log, q) [] (EN_STATE_CANDIDATE, t + 1, l, f, InWorkLoop, q)"
proof (rule goesI)
  fix e assume e: "calm k e" "view_of e = (EN_STATE_LEADER, t, l, f, InLeader log, q)"
  have "checkHeartbeatTimeout (trio_env k (m_lastHeartbeatReset e + unat (m_heartbeatTimeout e))) e"
    by (simp add: checkHeartbeatTimeout_def)
  with e show "\<exists>u e'. raft_work (trio_env k u) e = Inr e' \<and> calm k e' \<and>
      view_of e' = (EN_STATE_CANDIDATE, t + 1, l, f, InWorkLoop, q) \<and> effects e' = rev (map (\<lambda>(n, b). AsyncSend n b) []) @ effects e"
    by (intro exI [of _ "m_lastHeartbeatReset e + unat (m_heartbeatTimeout e)"])
       (simp add: raft_work_defs runAsLeaderImp_def switchToCandidate_def calm_resetConfig view_of_def)
qed

section \<open>The network\<close>

type_synonym links = "h512 \<times> h512 \<Rightarrow> bytes list"

fun sends :: "effect list \<Rightarrow> (h512 \<times> bytes) list" where
  "sends [] = []"
| "sends (AsyncSend n b # xs) = (n, b) # sends xs"
| "sends (_ # xs) = sends xs"

fun push :: "h512 \<Rightarrow> (h512 \<times> bytes) list \<Rightarrow> links \<Rightarrow> links" where
  "push k [] L = L"
| "push k ((n, b) # out) L = push k out (L((k, n) := L (k, n) @ [b]))"

text \<open>
  One step of the network: the working thread of a node makes an iteration at some time of its clock,
  and what it sends is appended to its links; or the oldest buffer of a link is delivered.
\<close>

inductive trio_step :: "(h512 \<Rightarrow> raft_engine) \<times> links \<Rightarrow> (h512 \<Rightarrow> raft_engine) \<times> links \<Rightarrow> bool" where
  works: "raft_work (trio_env k t) (ns k) = Inr e' \<Longrightarrow> effects e' = new @ effects (ns k) \<Longrightarrow>
    trio_step (ns, L) (ns(k := e'), push k (sends (rev new)) L)"
| delivers: "L (i, j) = b # bs \<Longrightarrow>
    trio_step (ns, L) (ns(j := onRecvRaftMessage (trio_env j t) b i [] (ns j)), L((i, j) := bs))"

definition reached :: "(h512 \<Rightarrow> RaftRole \<times> term_t \<times> term_t \<times> IDXTYPE \<times> raft_phase \<times> raft_packet list) \<Rightarrow> links \<Rightarrow> bool" where
  "reached V L \<longleftrightarrow> (\<exists>ns. trio_step\<^sup>*\<^sup>* (trio_ready, \<lambda>_. []) (ns, L) \<and>
     (\<forall>k \<in> {1, 2, 3}. calm k (ns k) \<and> view_of (ns k) = V k))"

lemma sends_map: "sends (map (\<lambda>(n, b). AsyncSend n b) out) = out"
  by (induction out) auto

lemma reached_work:
  assumes "reached V L" "k \<in> {1, 2, 3}" "V k = v" "goes k v out v'"
  shows "reached (V(k := v')) (push k out L)"
proof -
  obtain ns where ns: "trio_step\<^sup>*\<^sup>* (trio_ready, \<lambda>_. []) (ns, L)" "\<forall>k \<in> {1, 2, 3}. calm k (ns k) \<and> view_of (ns k) = V k"
    using assms(1) by (auto simp: reached_def)
  have "calm k (ns k) \<and> view_of (ns k) = v" using ns(2) assms(2,3) by blast
  then obtain t e' where e': "raft_work (trio_env k t) (ns k) = Inr e'" "calm k e'" "view_of e' = v'"
    "effects e' = rev (map (\<lambda>(n, b). AsyncSend n b) out) @ effects (ns k)"
    using assms(4) unfolding goes_def by blast
  have "trio_step (ns, L) (ns(k := e'), push k (sends (rev (rev (map (\<lambda>(n, b). AsyncSend n b) out)))) L)"
    using e'(1,4) by (rule works)
  then have "trio_step (ns, L) (ns(k := e'), push k out L)" by (simp add: sends_map)
  then have "trio_step\<^sup>*\<^sup>* (trio_ready, \<lambda>_. []) (ns(k := e'), push k out L)" using ns(1) by (rule rtranclp.rtrancl_into_rtrancl [rotated])
  moreover have "\<forall>j \<in> {1, 2, 3}. calm j ((ns(k := e')) j) \<and> view_of ((ns(k := e')) j) = (V(k := v')) j"
    using ns(2) e'(2,3) unfolding fun_upd_apply by auto
  ultimately show ?thesis unfolding reached_def by blast
qed

definition wire_ok :: "raft_wire \<Rightarrow> bool" where
  "wire_ok w \<longleftrightarrow> (case w of WVoteReq _ \<Rightarrow> True | WVoteResp _ \<Rightarrow> True | _ \<Rightarrow> False)"

lemma reached_deliver:
  assumes "reached V L" "i \<in> {1, 2, 3}" "j \<in> {1, 2, 3}" "i \<noteq> j" "L (i, j) = wire w # bs" "wire_ok w"
    "V j = (st, t, l, f, ph, q)"
  shows "reached (V(j := (st, t, l, f, ph, q @ [pkt i w]))) (L((i, j) := bs))"
proof -
  obtain ns where ns: "trio_step\<^sup>*\<^sup>* (trio_ready, \<lambda>_. []) (ns, L)" "\<forall>k \<in> {1, 2, 3}. calm k (ns k) \<and> view_of (ns k) = V k"
    using assms(1) by (auto simp: reached_def)
  have j: "calm j (ns j)" "view_of (ns j) = V j" using ns(2) assms(3) by blast+
  define e' where "e' = onRecvRaftMessage (trio_env j 0) (wire w) i [] (ns j)"
  have r: "e' = (ns j)\<lparr>m_raftQueue := m_raftQueue (ns j) @ [pkt i w]\<rparr>"
  proof (cases w)
    case (WVoteReq m)
    show ?thesis unfolding e'_def WVoteReq by (rule recv_packet [OF j(1) assms(2,4) wire_voteReq(2,3,6)])
  next
    case (WVoteResp m)
    show ?thesis unfolding e'_def WVoteResp by (rule recv_packet [OF j(1) assms(2,4) wire_voteResp(2,3,6)])
  qed (use assms(6) in \<open>simp_all add: wire_ok_def\<close>)
  have e': "calm j e'" "view_of e' = (st, t, l, f, ph, q @ [pkt i w])"
    using j assms(7) by (simp_all add: r view_of_def)
  have "trio_step\<^sup>*\<^sup>* (trio_ready, \<lambda>_. []) (ns(j := e'), L((i, j) := bs))"
    using ns(1) delivers [of L i j "wire w" bs ns 0] assms(5) unfolding e'_def by (meson rtranclp.rtrancl_into_rtrancl)
  moreover have "calm k ((ns(j := e')) k) \<and> view_of ((ns(j := e')) k) = (V(j := (st, t, l, f, ph, q @ [pkt i w]))) k"
    if "k \<in> {1, 2, 3}" for k
    using ns(2) that e' by (cases "k = j") auto
  ultimately show ?thesis unfolding reached_def by blast
qed

lemma reached_start:
  "reached (\<lambda>_. (EN_STATE_FOLLOWER, 0, 0, InvalidIndex, InWorkLoop, [])) (\<lambda>_. [])"
  unfolding reached_def using trio_calm by (intro exI [of _ trio_ready]) simp

section \<open>Three nodes and six links\<close>

definition six_links :: "bytes list \<Rightarrow> bytes list \<Rightarrow> bytes list \<Rightarrow> bytes list \<Rightarrow> bytes list \<Rightarrow> bytes list \<Rightarrow> links" where
  "six_links l12 l13 l21 l23 l31 l32 = (\<lambda>_. [])((1, 2) := l12, (1, 3) := l13, (2, 1) := l21, (2, 3) := l23,
     (3, 1) := l31, (3, 2) := l32)"

definition at3 where
  "at3 a b c L \<longleftrightarrow> reached ((\<lambda>_. c)(1 := a, 2 := b)) L"

lemma six_links_update [simp]:
  "(six_links l12 l13 l21 l23 l31 l32)((1, 2) := x) = six_links x l13 l21 l23 l31 l32"
  "(six_links l12 l13 l21 l23 l31 l32)((1, 3) := x) = six_links l12 x l21 l23 l31 l32"
  "(six_links l12 l13 l21 l23 l31 l32)((2, 1) := x) = six_links l12 l13 x l23 l31 l32"
  "(six_links l12 l13 l21 l23 l31 l32)((2, 3) := x) = six_links l12 l13 l21 x l31 l32"
  "(six_links l12 l13 l21 l23 l31 l32)((3, 1) := x) = six_links l12 l13 l21 l23 x l32"
  "(six_links l12 l13 l21 l23 l31 l32)((3, 2) := x) = six_links l12 l13 l21 l23 l31 x"
  unfolding six_links_def by (rule ext; simp add: fun_upd_apply)+

lemma six_links_apply [simp]:
  "six_links l12 l13 l21 l23 l31 l32 (1, 2) = l12" "six_links l12 l13 l21 l23 l31 l32 (1, 3) = l13"
  "six_links l12 l13 l21 l23 l31 l32 (2, 1) = l21" "six_links l12 l13 l21 l23 l31 l32 (2, 3) = l23"
  "six_links l12 l13 l21 l23 l31 l32 (3, 1) = l31" "six_links l12 l13 l21 l23 l31 l32 (3, 2) = l32"
  by (simp_all add: six_links_def)

lemma others_simps [simp]: "others 1 = [2, 3]" "others 2 = [1, 3]" "others 3 = [1, 2]"
  by (simp_all add: others_def)

lemma low32_numeral [simp]: "low32 0 = 0" "low32 1 = 1" "low32 2 = 2"
  by (simp_all add: low32_def)

lemma work1: "at3 a b c L \<Longrightarrow> goes 1 a out a' \<Longrightarrow> at3 a' b c (push 1 out L)"
  unfolding at3_def by (drule reached_work [where k = 1]) (simp_all add: fun_upd_twist)

lemma work2: "at3 a b c L \<Longrightarrow> goes 2 b out b' \<Longrightarrow> at3 a b' c (push 2 out L)"
  unfolding at3_def by (drule reached_work [where k = 2]) (simp_all add: fun_upd_twist)

lemma reached_cong: "V 1 = V' 1 \<Longrightarrow> V 2 = V' 2 \<Longrightarrow> V 3 = V' 3 \<Longrightarrow> reached V L \<Longrightarrow> reached V' L"
  unfolding reached_def by simp

lemma work3: "at3 a b c L \<Longrightarrow> goes 3 c out c' \<Longrightarrow> at3 a b c' (push 3 out L)"
  unfolding at3_def by (drule reached_work [where k = 3]) (simp_all, erule reached_cong [rotated -1], simp_all)

lemma deliver1:
  "at3 (st, t, l, f, ph, q) b c L \<Longrightarrow> L (i, 1) = wire w # bs \<Longrightarrow> i \<in> {2, 3} \<Longrightarrow> wire_ok w \<Longrightarrow>
   at3 (st, t, l, f, ph, q @ [pkt i w]) b c (L((i, 1) := bs))"
  unfolding at3_def
  by (drule reached_deliver [where i = i and j = 1 and st = st and t = t and l = l and f = f and ph = ph and q = q])
     (auto simp: fun_upd_twist)

lemma deliver2:
  "at3 a (st, t, l, f, ph, q) c L \<Longrightarrow> L (i, 2) = wire w # bs \<Longrightarrow> i \<in> {1, 3} \<Longrightarrow> wire_ok w \<Longrightarrow>
   at3 a (st, t, l, f, ph, q @ [pkt i w]) c (L((i, 2) := bs))"
  unfolding at3_def
  by (drule reached_deliver [where i = i and j = 2 and st = st and t = t and l = l and f = f and ph = ph and q = q])
     (auto simp: fun_upd_twist)

lemma deliver3:
  "at3 a b (st, t, l, f, ph, q) L \<Longrightarrow> L (i, 3) = wire w # bs \<Longrightarrow> i \<in> {1, 2} \<Longrightarrow> wire_ok w \<Longrightarrow>
   at3 a b (st, t, l, f, ph, q @ [pkt i w]) (L((i, 3) := bs))"
  unfolding at3_def
  by (drule reached_deliver [where i = i and j = 3 and st = st and t = t and l = l and f = f and ph = ph and q = q])
     (auto elim!: reached_cong [rotated -1])

lemma wire_ok_votes [simp]: "wire_ok (WVoteReq m)" "wire_ok (WVoteResp m')"
  by (simp_all add: wire_ok_def)

text \<open>A candidate that has counted its own vote.\<close>

definition one_vote :: raft_phase where
  "one_vote = InCandidate (newVoteState\<lparr>vs_vote := 1\<rparr>)"

lemma one_vote_total: "totalVoteCount (newVoteState\<lparr>vs_vote := 1\<rparr>) < 2"
  by (simp add: newVoteState_def totalVoteCount_def)

section \<open>A run\<close>

text \<open>Nodes 1 and 3 stand for term 1; node 2 gives its first vote to node 1 and grants node 3 its vote for term 1.\<close>

lemma run_first:
  "at3 (EN_STATE_CANDIDATE, 1, 0, 0, one_vote, []) (EN_STATE_FOLLOWER, 1, 0, 2, InWorkLoop, [])
     (EN_STATE_CANDIDATE, 1, 0, 2, one_vote, [])
     (six_links [] [wire (WVoteReq (vreq 1 1 0))] [wire (WVoteResp (vresp 2 0 VOTE_RESP_FIRST_VOTE 0))]
        [wire (WVoteResp (vresp 2 1 VOTE_RESP_GRANTED 0))] [wire (WVoteReq (vreq 3 1 0))] [])"
proof -
  let ?f = "(EN_STATE_FOLLOWER, 0, 0, InvalidIndex, InWorkLoop, [])"
  have "six_links [] [] [] [] [] [] = (\<lambda>_. [])" by (rule ext) (simp add: six_links_def fun_upd_apply)
  then have "at3 ?f ?f ?f (six_links [] [] [] [] [] [])"
    unfolding at3_def by (auto intro: reached_cong [OF _ _ _ reached_start])
  note a1 = work1 [OF this goes_enter, simplified]
  note a2 = work1 [OF a1 goes_timeout, simplified]
  note a3 = work1 [OF a2 goes_stand, simplified]
  note c1 = work3 [OF a3 goes_enter, simplified]
  note c2 = work3 [OF c1 goes_timeout, simplified]
  note c3 = work3 [OF c2 goes_stand, simplified]
  note b1 = work2 [OF c3 goes_enter, simplified]
  note b2 = deliver2 [OF b1, of 1 "WVoteReq (vreq 1 1 0)" "[]", simplified]
  note b3 = work2 [OF b2 goes_first, simplified]
  note b4 = deliver2 [OF b3, of 3 "WVoteReq (vreq 3 1 0)" "[]", simplified]
  note b5 = work2 [OF b4 goes_grant, simplified]
  then show ?thesis by (simp add: one_vote_def InvalidIndex_def)
qed

text \<open>
  Node 3 gives up, returns to term 0 and grants node 1 its vote for term 1, in which it has voted for
  itself; node 1 becomes the leader of term 1.
\<close>

lemma run_second:
  "at3 (EN_STATE_LEADER, 1, 0, 0, InWorkLoop, []) (EN_STATE_FOLLOWER, 1, 0, 2, InWorkLoop, [])
     (EN_STATE_FOLLOWER, 1, 0, 0, InWorkLoop, [])
     (six_links [] [wire (WVoteResp (vresp 1 1 VOTE_RESP_DISCARD 0))] [wire (WVoteResp (vresp 2 0 VOTE_RESP_FIRST_VOTE 0))]
        [wire (WVoteResp (vresp 2 1 VOTE_RESP_GRANTED 0))] [] [])"
proof -
  note c1 = work3 [OF run_first [unfolded one_vote_def] goes_revert [OF one_vote_total], simplified]
  note c2 = work3 [OF c1 goes_enter, simplified]
  note c3 = deliver3 [OF c2, of 1 "WVoteReq (vreq 1 1 0)" "[]", simplified]
  note c4 = work3 [OF c3 goes_grant, simplified]
  note a1 = deliver1 [OF c4, of 3 "WVoteReq (vreq 3 1 0)" "[wire (WVoteResp (vresp 3 1 VOTE_RESP_GRANTED 0))]", simplified]
  note a2 = work1 [OF a1 goes_discard, simplified]
  note a3 = deliver1 [OF a2, of 3 "WVoteResp (vresp 3 1 VOTE_RESP_GRANTED 0)" "[]", simplified]
  note a4 = work1 [OF a3 goes_granted, simplified]
  then show ?thesis by (simp add: newVoteState_def InvalidIndex_def)
qed

text \<open>
  Node 3 stands for term 2 and becomes its leader with the vote node 2 gave it for term 1; node 1 loses
  its heartbeats, stands for term 2 as well and becomes its leader with the vote of node 2 for term 2.
\<close>

lemma run_third:
  "\<exists>L. at3 (EN_STATE_LEADER, 2, 1, 0, InWorkLoop, []) (EN_STATE_FOLLOWER, 2, 0, 0, InWorkLoop, [])
     (EN_STATE_LEADER, 2, 0, 2, InWorkLoop, []) L"
proof -
  note c1 = work3 [OF run_second goes_enter, simplified]
  note c2 = work3 [OF c1 goes_timeout, simplified]
  note c3 = work3 [OF c2 goes_stand, simplified]
  note c4 = deliver3 [OF c3, of 2 "WVoteResp (vresp 2 1 VOTE_RESP_GRANTED 0)" "[]", simplified]
  note c5 = work3 [OF c4 goes_granted, simplified]
  note a1 = work1 [OF c5 goes_lead, simplified]
  note a2 = work1 [OF a1 goes_leader_timeout, simplified]
  note a3 = work1 [OF a2 goes_stand, simplified]
  note b1 = work2 [OF a3 goes_enter, simplified]
  note b2 = deliver2 [OF b1, of 1 "WVoteReq (vreq 1 2 1)" "[]", simplified]
  note b3 = work2 [OF b2 goes_grant, simplified]
  note a4 = deliver1 [OF b3, of 2 "WVoteResp (vresp 2 0 VOTE_RESP_FIRST_VOTE 0)" "[wire (WVoteResp (vresp 2 2 VOTE_RESP_GRANTED 0))]", simplified]
  note a5 = work1 [OF a4 goes_stale, simplified]
  note a6 = deliver1 [OF a5, of 2 "WVoteResp (vresp 2 2 VOTE_RESP_GRANTED 0)" "[]", simplified]
  note a7 = work1 [OF a6 goes_granted, simplified]
  then show ?thesis by (auto simp: InvalidIndex_def)
qed

section \<open>A block the nodes can execute\<close>

definition trio_block :: block where
  "trio_block = (demo_block 1 1)\<lparr>blockHeader := (demo_header 1 1)\<lparr>block_header.m_sealerList := [1, 2, 3]\<rparr>\<rparr>"

lemma trio_block_sel [simp]:
  "m_number (blockHeader trio_block) = 1" "m_parentHash (blockHeader trio_block) = 1" "m_timestamp (blockHeader trio_block) = 1"
  "block_header.m_sealerList (blockHeader trio_block) = [1, 2, 3]" "transactions trio_block = []"
  by (simp_all add: trio_block_def demo_block_def demo_header_def emptyBlock_def)

lemma trio_genesis_hash: "tb_number2hash c = tb_number2hash trio_chain \<Longrightarrow> numberHash 0 c = 1"
  by (simp add: numberHash_def trio_chain_def genesis_chain_def demo_hashes)

lemma trio_execute_block:
  assumes e: "m_blockChain e = trio_chain" "m_sealerList e = [1, 2, 3]" "m_maxBlockTransactions e = 1000" "m_allowFutureBlocks e"
  shows "\<exists>e'. raft_checkAndExecute (trio_env 1 t) trio_block e = Inr (True, e') \<and> number (m_blockChain e') = 1"
proof -
  define c1 where "c1 = snd (getBlockByHash demo_cr 1 trio_chain)"
  have f1: "fst (getBlockByHash demo_cr 1 trio_chain) = Some (demo_block 0 0)"
    by (simp add: getBlockByHash_def getBlock_def blockCache_get_def trio_chain_def genesis_chain_def demo_hashes)
  have c1: "number c1 = 0" "tb_number2hash c1 = tb_number2hash trio_chain"
    by (simp_all add: c1_def getBlockByHash_def calm_chain_number)
  have v: "raft_checkBlockValid (trio_env 1 t) trio_block e = Inr (e\<lparr>m_blockChain := c1\<rparr>)"
    using e f1 by (simp add: raft_checkBlockValid_def base_checkBlockValid_def raft_checkSealerList_def calm_chain_number
        getTransactionSize_def case_prod_beta c1_def)
  define c2 where "c2 = snd (getBlockByNumber demo_cr 0 c1)"
  have f2: "fst (getBlockByNumber demo_cr 0 c1) = Some (demo_block 0 0)"
    by (simp add: c1_def getBlockByNumber_def getBlock_number_def getBlockByHash_def getBlock_def blockCache_get_def blockCache_add_def
        numberHash_def number_def trio_chain_def genesis_chain_def demo_hashes)
  have c2: "number c2 = 0" "tb_number2hash c2 = tb_number2hash trio_chain"
    by (simp_all add: c2_def getBlockByNumber_def getBlock_number_def c1)
  define e2 where "e2 = (e\<lparr>m_blockChain := c1\<rparr>)\<lparr>m_blockSync := noteSealingBlockNumber 1 (m_blockSync e), m_blockChain := c2\<rparr>"
  have x: "raft_execBlock (trio_env 1 t) trio_block e = Inr ((trio_block, Some 0), e2)"
    using v f2 by (simp add: raft_execBlock_def executeBlock_def c1 case_prod_beta e2_def c2_def trio_env_def)
  have ok: "fst (commitBlock demo_cr demo_ce (\<lambda>_ t. Some t) trio_block c2) = COMMIT_OK"
    using trio_genesis_hash [OF c2(2)] by (simp add: commitBlock_def isBlockShouldCommit_def c2 Let_def)
  then have n: "number (snd (commitBlock demo_cr demo_ce (\<lambda>_ t. Some t) trio_block c2)) = 1"
    using commitBlock_tables(1) [OF ok] c2(1) by simp
  have en: "commitEnv (r_env (trio_env 1 t)) = demo_ce" "dbCommit (r_env (trio_env 1 t)) = (\<lambda>_ _ t. Some t)"
    by (simp_all add: trio_env_def)
  have "m_blockChain e2 = c2" by (simp add: e2_def)
  then have "number (m_blockChain (raft_checkAndSave (trio_env 1 t) trio_block (Some 0) e2)) = 1"
    using ok n by (simp add: raft_checkAndSave_def en case_prod_beta Let_def)
  with x show ?thesis by (simp add: raft_checkAndExecute_def)
qed

end
