(* ===== verification/RaftProps.thy ===== *)
theory RaftProps
  imports RaftExample
begin

text \<open>
  The properties of the Raft engine, with their witnesses on the group of three nodes.
\<close>

section \<open>Properties\<close>

text \<open>
  C22: The election timeout stays within its bounds.  A node that starts with a configured minimum not
  above the maximum, the maximum small enough for its arithmetic, has in every state of every later
  run an election timeout between the configured minimum and the configured maximum plus half the
  distance of the two, however often elections fail and timeouts are increased.
\<close>

theorem raft_elect_timeout_bounds:
  assumes "raft_start env e = Inr e0" and "raft_step\<^sup>*\<^sup>* e0 e'"
    and "m_minElectTimeout e \<le> m_maxElectTimeout e" and "unat (m_maxElectTimeout e) * 150 < 2 ^ 32"
  shows "unat (m_minElectTimeout e) \<le> unat (m_electTimeout e') \<and>
     unat (m_electTimeout e') \<le> unat (m_maxElectTimeout e) + (unat (m_maxElectTimeout e) - unat (m_minElectTimeout e)) div 2"
proof -
  note s = start_elect_ok [OF assms(1,3,4)]
  have "elect_ok (m_minElectTimeout e, m_maxElectTimeoutBoundary e0) e'"
    using assms(2) s(1) by (induction rule: rtranclp_induct) (auto intro: elect_ok_step)
  then show ?thesis unfolding s(2) [symmetric] by (simp add: elect_ok_def word_le_nat_alt)
qed

theorem raft_elect_timeout_bounds_witness:
  "raft_start (trio_env 1 0) (trio_engine 1) = Inr (trio_ready 1) \<and> raft_step\<^sup>*\<^sup>* (trio_ready 1) (trio_ready 1) \<and>
   1000 \<le> unat (m_electTimeout (trio_ready 1)) \<and> unat (m_electTimeout (trio_ready 1)) \<le> 2500"
proof -
  have s: "raft_start (trio_env 1 0) (trio_engine 1) = Inr (trio_ready 1)" by (rule trio_started) simp
  show ?thesis using raft_elect_timeout_bounds [OF s rtranclp.rtrancl_refl] s
    by (simp add: trio_engine_def)
qed

text \<open>
  C21: A node becomes the leader by a majority only.  When an iteration of the working thread turns a
  node that is not the leader into the leader, then either its own vote is already a majority, or it
  is a candidate that has just taken a granted vote from its queue, for the term it stands for or the
  one before, and the votes it counts with this one are a majority; its term stays what it was.
\<close>

theorem raft_leader_by_majority:
  assumes "raft_work env e = Inr e'" "m_state e \<noteq> EN_STATE_LEADER" "m_state e' = EN_STATE_LEADER"
  shows "(m_phase e = InWorkLoop \<and> wonElection 1 e') \<or>
    (\<exists>v p ps resp. m_phase e = InCandidate v \<and> m_raftQueue e = p # ps \<and>
       rp_packetType p = raft_code RaftVoteRespPacket \<and>
       decode_fields (voteResp_populate emptyVoteResp) 0 (rp_data p) = Inr resp \<and>
       voteFlag resp = VOTE_RESP_GRANTED \<and> m_term e - 1 \<le> r_term resp \<and>
       isMajorityVote (vs_vote v + 1) e \<and> m_term e' = m_term e)"
proof -
  have w: "m_startConsensusEngine e" using assms by (cases "m_startConsensusEngine e") (auto simp: raft_work_defs)
  show ?thesis
  proof (cases "m_phase e")
    case InWorkLoop
    then show ?thesis using assms w outer_leader by (simp add: raft_work_defs)
  next
    case (InLeader log)
    then show ?thesis using assms w by (auto simp: raft_work_defs runAsLeaderImp_def split: if_splits)
  next
    case (InCandidate v)
    then obtain r e1 where "runAsCandidateImp env v e = Inr (r, e1)" "m_state e1 = EN_STATE_LEADER" "m_term e1 = m_term e'"
      using assms w by (auto simp: raft_work_defs ebind_eq_Inr split: if_splits)
    then show ?thesis using assms(2) InCandidate by (auto elim!: candidateImp_leader)
  next
    case InFollower
    then show ?thesis using assms w by (auto simp: raft_work_defs ebind_eq_Inr split: if_splits dest: followerImp_leader)
  qed
qed

theorem raft_leader_by_majority_witness:
  "\<exists>env e e'. raft_work env e = Inr e' \<and> m_state e' = EN_STATE_LEADER \<and> m_phase e \<noteq> InWorkLoop \<and>
     (\<exists>v. m_phase e = InCandidate v \<and> isMajorityVote (vs_vote v + 1) e) \<and> m_term e' = m_term e"
proof -
  let ?q = "[pkt 2 (WVoteResp (vresp 2 1 VOTE_RESP_GRANTED 0))]"
  let ?e = "(trio_ready 1)\<lparr>m_state := EN_STATE_CANDIDATE, m_term := 1, m_phase := one_vote, m_raftQueue := ?q\<rparr>"
  have "calm 1 ?e" "view_of ?e = (EN_STATE_CANDIDATE, 1, 0, InvalidIndex, InCandidate (newVoteState\<lparr>vs_vote := 1\<rparr>), ?q)"
    using trio_calm [of 1] by (simp_all add: view_of_def one_vote_def)
  moreover have "goes 1 (EN_STATE_CANDIDATE, 1, 0, InvalidIndex, InCandidate (newVoteState\<lparr>vs_vote := 1\<rparr>), ?q) []
      (EN_STATE_LEADER, 1, 0, InvalidIndex, InWorkLoop, [])"
    by (rule goes_granted) (simp_all add: newVoteState_def)
  ultimately obtain t e' where w: "raft_work (trio_env 1 t) ?e = Inr e'" "view_of e' = (EN_STATE_LEADER, 1, 0, InvalidIndex, InWorkLoop, [])"
    unfolding goes_def by blast
  have "m_state e' = EN_STATE_LEADER" using w(2) by (simp add: view_of_def)
  with raft_leader_by_majority [OF w(1)] w(1) show ?thesis by (fastforce simp: one_vote_def)
qed

text \<open>
  C20: A vote goes to a candidate that is at least as far as the voter.  A node that is not the leader
  grants a vote request exactly if the request is for a later term, the candidate has seen a leader
  of no earlier term, holds no fewer blocks, and this is not the first request the node sees; it then
  moves to the term of the request, records the candidate and, if it has a session with the sender,
  answers with a granted vote for that term.  Otherwise its term and its vote stay as they are.
\<close>

theorem raft_vote_granted:
  assumes "m_state e \<noteq> EN_STATE_LEADER" "handleVoteRequest env n req e = (granted, e')"
  shows "(granted \<longleftrightarrow> m_term e < r_term req \<and> m_lastLeaderTerm e \<le> req_lastLeaderTerm req \<and>
      lastHeldNumber e \<le> lastBlockNumber req \<and> m_firstVote e \<noteq> InvalidIndex) \<and>
    (if granted
     then m_term e' = r_term req \<and> m_vote e' = candidate req \<and> m_firstVote e' = candidate req \<and>
       (n \<in> set (sessions (r_env env)) \<and> n \<in> set (m_sealerList e) \<longrightarrow>
        (n, WVoteResp ((raft_voteResp env e)\<lparr>r_term := r_term req, voteFlag := VOTE_RESP_GRANTED\<rparr>)) \<in> set (m_sent e'))
     else m_term e' = m_term e \<and> m_vote e' = m_vote e)"
proof (cases "m_term e < r_term req \<and> m_lastLeaderTerm e \<le> req_lastLeaderTerm req \<and>
      lastHeldNumber e \<le> lastBlockNumber req \<and> m_firstVote e \<noteq> InvalidIndex")
  case True
  define e1 where "e1 = e\<lparr>m_term := r_term req, m_leader := InvalidIndex, m_vote := candidate req,
      m_firstVote := candidate req\<rparr>"
  define m where "m = (raft_voteResp env e)\<lparr>r_term := r_term req, voteFlag := VOTE_RESP_GRANTED\<rparr>"
  have "handleVoteRequest env n req e = (True, resetElectTimeout env (raft_sendResponse env n (WVoteResp m) e1))"
    using True by (simp add: handleVoteRequest_def Let_def e1_def m_def not_less [symmetric])
  with assms(2) have g: "granted" "e' = resetElectTimeout env (raft_sendResponse env n (WVoteResp m) e1)" by simp_all
  moreover have "m_firstVote (raft_sendResponse env n (WVoteResp m) e1) = candidate req"
    by (simp add: raft_sendResponse_def raft_asyncSend_def emit_effect_def e1_def split: sum.splits)
  moreover have "n \<in> set (sessions (r_env env)) \<and> n \<in> set (m_sealerList e) \<longrightarrow>
      (n, WVoteResp m) \<in> set (m_sent (raft_sendResponse env n (WVoteResp m) e1))"
    using sent_by_response [of n env e1 m] by (simp add: e1_def)
  ultimately show ?thesis using True by (simp add: m_def e1_def resetElectTimeout_def)
next
  case False
  then have "\<not> granted \<and> m_term e' = m_term e \<and> m_vote e' = m_vote e"
    using assms by (auto simp: handleVoteRequest_def Let_def not_less [symmetric] split: if_splits)
  with False show ?thesis by simp
qed

theorem raft_vote_granted_witness:
  "let (granted, e') = handleVoteRequest (trio_env 2 0) 1 (vreq 1 1 0) ((trio_ready 2)\<lparr>m_firstVote := 0\<rparr>)
   in granted \<and> m_term e' = 1 \<and> m_vote e' = 0"
proof -
  let ?e = "(trio_ready 2)\<lparr>m_firstVote := 0\<rparr>"
  obtain g e' where h: "handleVoteRequest (trio_env 2 0) 1 (vreq 1 1 0) ?e = (g, e')" by (cases "handleVoteRequest (trio_env 2 0) 1 (vreq 1 1 0) ?e") auto
  have v: "m_state ?e = EN_STATE_FOLLOWER" "m_term ?e = 0" "m_lastLeaderTerm ?e = 0" "m_firstVote ?e \<noteq> InvalidIndex"
    using trio_calm(2) [of 2] by (simp_all add: view_of_def InvalidIndex_def)
  have "lastHeldNumber ?e = 0" using calm_held [of 2 ?e] trio_calm(1) [of 2] by simp
  with raft_vote_granted [OF _ h] v have "g \<and> m_term e' = 1 \<and> m_vote e' = 0" by (simp add: vreq_def)
  with h show ?thesis by simp
qed

text \<open>
  C31: Two bytes stop the engine.  A follower that receives the buffer \<open>80 80\<close> from any other sealer,
  with nothing else in its queue, queues it as a vote request without data; the next iteration of the
  working thread throws while it reads the request, no handler catches the exception, and the thread
  ends.
\<close>

theorem raft_malformed_request_stops_thread:
  assumes "m_startConsensusEngine e" "m_phase e = InFollower" "m_state e = EN_STATE_FOLLOWER"
    "m_accountType e = SealerAccount" "\<not> isSyncing (m_blockSync e)" "\<not> checkElectTimeout env e"
    "m_raftQueue e = []" "n \<in> set (m_sealerList e)" "getNodeIdByIndex (m_idx e) e = Some own" "n \<noteq> own"
  shows "raft_work env (onRecvRaftMessage env' [0x80, 0x80] n ep e) = Inl (DecodeFailed, e)"
proof -
  obtain i where i: "find_index n (m_sealerList e) = Some i"
    using assms(8) by (cases "find_index n (m_sealerList e)") (simp_all add: find_index_None)
  define p where "p = raft_setOtherField (utcTime (r_env env')) (of_int (int i)) n ep
      ((emptyRaftPacket (utcTime (r_env env')))\<lparr>rp_packetType := 0, rp_data := []\<rparr>)"
  have p: "rp_packetType p = 0" "rp_data p = []" by (simp_all add: p_def raft_setOtherField_def)
  have "onRecvRaftMessage env' [0x80, 0x80] n ep e = e\<lparr>m_raftQueue := [p]\<rparr>"
    using assms(7,9,10) p(1)
    by (simp add: onRecvRaftMessage_def raft_isValidReq_def raft_getIndexBySealer_def i decode_80 Let_def
        RaftPacketCount_def p_def)
  moreover have "checkElectTimeout env (e\<lparr>m_raftQueue := [p]\<rparr>) = checkElectTimeout env e"
    by (simp add: checkElectTimeout_def)
  moreover obtain x where "decode_fields (voteReq_populate emptyVoteReq) 0 [] = Inl x" using read_empty by blast
  ultimately show ?thesis
    using assms p by (simp add: raft_work_defs runAsFollowerImp_def raft_tryPop_def follower_packet_def raft_read_def queue_same)
qed

theorem raft_malformed_request_stops_thread_witness:
  "let e = (trio_ready 1)\<lparr>m_phase := InFollower\<rparr>
   in raft_work (trio_env 1 0) (onRecvRaftMessage (trio_env 1 0) [0x80, 0x80] 2 [] e) = Inl (DecodeFailed, e)"
  unfolding Let_def
  by (rule raft_malformed_request_stops_thread [where own = 1])
     (simp_all add: trio_ready_def trio_engine_def isSyncing_def checkElectTimeout_def getNodeIdByIndex_def
       getSealerByIndex_def)

text \<open>
  C30: A leader commits a block no other node has.  The sealing thread of a leader hands over a block
  and waits; if the next heartbeat response the leader reads answers a heartbeat without a block, then
  the waiting thread is released and goes on to execute and commit the block, although no heartbeat
  with the block has been sent and no acknowledgement for it was counted.
\<close>

theorem raft_commits_unreplicated_block:
  assumes "header_bool (blockHeader b)" "m_state e = EN_STATE_LEADER" "uncommitedBlockHash resp = 0"
  shows "let waiting = raft_commit_begin b e; ready = waiting\<lparr>m_commitReady := True\<rparr> in
     tryCommitUncommitedBlock env resp waiting = Inr ready \<and>
     m_sent ready = m_sent e \<and> m_commitFingerPrint ready = m_commitFingerPrint e \<and>
     raft_commit_end env' b ready = raft_checkAndExecute env' b
       (ready\<lparr>m_commitReady := False, m_waitingForCommitting := False\<rparr>)"
  using assms by (simp add: tryCommitUncommitedBlock_def commitOrNotify_def raft_commit_begin_def
      raft_commit_end_def Let_def)

theorem raft_commits_unreplicated_block_witness:
  "let ready = (raft_commit_begin trio_block ((trio_ready 1)\<lparr>m_state := EN_STATE_LEADER\<rparr>))\<lparr>m_commitReady := True\<rparr> in
   m_sent ready = [] \<and> number (m_blockChain ready) = 0 \<and>
   (\<exists>e'. raft_commit_end (trio_env 1 0) trio_block ready = Inr (True, e') \<and> number (m_blockChain e') = 1)"
proof -
  let ?e = "(trio_ready 1)\<lparr>m_state := EN_STATE_LEADER\<rparr>"
  let ?r = "(raft_commit_begin trio_block ?e)\<lparr>m_commitReady := True\<rparr>"
  have h: "header_bool (blockHeader trio_block)" by (simp add: header_bool_def UINT64_MAX_def)
  have "raft_commit_end (trio_env 1 0) trio_block ?r =
      raft_checkAndExecute (trio_env 1 0) trio_block (?r\<lparr>m_commitReady := False, m_waitingForCommitting := False\<rparr>)"
    using raft_commits_unreplicated_block [OF h, of ?e emptyHeartBeatResp "trio_env 1 0" "trio_env 1 0"]
    by (simp add: Let_def emptyHeartBeatResp_def)
  moreover have "\<exists>e'. raft_checkAndExecute (trio_env 1 0) trio_block
      (?r\<lparr>m_commitReady := False, m_waitingForCommitting := False\<rparr>) = Inr (True, e') \<and> number (m_blockChain e') = 1"
    by (rule trio_execute_block) (simp_all add: raft_commit_begin_def trio_ready_def trio_engine_def)
  ultimately show ?thesis
    by (simp add: Let_def raft_commit_begin_def trio_ready_def trio_engine_def calm_chain_number)
qed

text \<open>
  C29: Two nodes can lead the same term.  Three nodes start, every message sent over a link is delivered
  at most once and in order, and no node fails; still the network reaches a state in which nodes 1
  and 3 are both leaders of term 2.  Node 3 got there with a vote that node 2 gave it for term 1, which
  a candidate for term 2 still counts.
\<close>

theorem raft_two_leaders_in_a_term:
  "raft_start (trio_env 1 0) (trio_engine 1) = Inr (trio_ready 1) \<and>
   raft_start (trio_env 2 0) (trio_engine 2) = Inr (trio_ready 2) \<and>
   raft_start (trio_env 3 0) (trio_engine 3) = Inr (trio_ready 3) \<and>
   (\<exists>ns L. trio_step\<^sup>*\<^sup>* (trio_ready, \<lambda>_. []) (ns, L) \<and> m_state (ns 1) = EN_STATE_LEADER \<and>
      m_state (ns 3) = EN_STATE_LEADER \<and> m_term (ns 1) = 2 \<and> m_term (ns 3) = 2)"
proof -
  obtain L ns where "trio_step\<^sup>*\<^sup>* (trio_ready, \<lambda>_. []) (ns, L)" "view_of (ns 1) = (EN_STATE_LEADER, 2, 1, 0, InWorkLoop, [])"
    "view_of (ns 3) = (EN_STATE_LEADER, 2, 0, 2, InWorkLoop, [])"
    using run_third unfolding at3_def reached_def by auto
  then have "\<exists>ns L. trio_step\<^sup>*\<^sup>* (trio_ready, \<lambda>_. []) (ns, L) \<and> m_state (ns 1) = EN_STATE_LEADER \<and>
      m_state (ns 3) = EN_STATE_LEADER \<and> m_term (ns 1) = 2 \<and> m_term (ns 3) = 2"
    by (auto simp: view_of_def)
  with trio_started [of 1] trio_started [of 2] trio_started [of 3] show ?thesis by simp
qed

end
