(* ===== verification/Spec2Isabelle.thy ===== *)
theory Spec2Isabelle
  imports Hex EngineProps SealerProps RaftProps
begin

text \<open>
  A model of the PBFT consensus of FISCO BCOS 2.x (src/), of the transaction pool and the sealer around it, and of
  the Raft engine beside it, with the theorems that make them correct or show where they are not.

  \<^bold>\<open>The program.\<close>  The sealers of a group agree on one block after another.  A leader proposes a block
  (\<^verbatim>\<open>PrepareReq\<close>); every sealer that accepts it executes it and broadcasts a \<^verbatim>\<open>SignReq\<close> for
  the hash of the executed block; a sealer with the sign requests of a quorum locks the proposal, saves
  it, and broadcasts a \<^verbatim>\<open>CommitReq\<close>; a sealer with the commit requests of a quorum puts them into the
  block as its signature list and commits it.  If a leader does not deliver, sealers broadcast
  \<^verbatim>\<open>ViewChangeReq\<close>s and move to the next leader, which has to propose a locked block again.

  \<^bold>\<open>Theories, in the order in which they build on each other.\<close>

  \<^item> \<open>PBFT_Prelude\<close>: bytes, hashes, 64-bit arithmetic (\<open>s64\<close>, \<open>u64\<close>), results with an error (\<open>ebind\<close>),
    shared facts on lists and association lists.

  \<^item> \<open>Rlp\<close> (src/libdevcore/RLP.h, RLP.cpp): the incremental RLP writer with its stack of open lists and
    the reader with the memo of \<^verbatim>\<open>operator[]\<close>.  A recursive reference encoding; writer and memo are
    equivalent to it; counting items ends; the locale \<open>rlp_message\<close> gives the round trip of every message
    that streams and populates the same fields.

  \<^item> \<open>Hex\<close> (CommonData): \<^verbatim>\<open>toHex\<close>, \<^verbatim>\<open>fromHex\<close> and their round trip.

  \<^item> \<open>Block\<close> (src/libethcore/BlockHeader, Block): the header, its encoding, hash and checks, and the
    block with the operations the consensus calls.

  \<^item> \<open>PBFT_Msg\<close> (src/libconsensus/pbft/Common.h): the four requests as records, constructors, signing,
    encoding, and both packet classes.

  \<^item> \<open>ReqCache\<close> (PBFTReqCache): all request caches as association lists and every operation; the
    representation invariant \<open>cache_inv\<close>; what is counted, kept and dropped.

  \<^item> \<open>MsgCache\<close> (PBFTMsgCache.h, QueueSet): which peer knows which message; the locale \<open>known_keys\<close>.

  \<^item> \<open>TimeManager\<close> (TimeManager.h): timers and the timeout predicate.

  \<^item> \<open>BlockChain\<close> (src/libblockchain/BlockChainImp): tables, caches, lookups and \<^verbatim>\<open>commitBlock\<close>; the
    invariant \<open>chain_ok\<close>.

  \<^item> \<open>EngineBase\<close> (ConsensusEngineBase), \<open>EngineSend\<close> and \<open>PBFTEngine\<close> (PBFTEngine.h, PBFTEngine.cpp):
    the state of the engine as a record and one definition per function: configuration, sending,
    validation, execution, the phases of agreement, view change, timeouts, the message loop, backup and start.

  \<^item> \<open>Lock\<close> and \<open>LockSteps\<close>: the invariant \<open>node_inv\<close> (which proposal a node is locked on, and what it has
    voted for), kept by every event of an engine (\<open>engine_step\<close>: reception, handling of a queued packet,
    timeout, future proposals, garbage collection, background tasks, proposing, reports of new
    blocks, checks for the sync module, and changes by other modules) and established by \<^verbatim>\<open>start\<close>.

  \<^item> \<open>Agreement\<close>: the network of engines (\<open>net_reach\<close>): any honest node may take any event at any time, and
    what arrives is arbitrary up to the hypotheses below.  The locale \<open>byzantine_voting\<close> derives agreement
    from one vote per height, quorum certificates and quorum intersection; its interpretation on the
    network discharges them.

  \<^item> \<open>Voting\<close>: the abstract voting machine and the refinement of the network to it.

  \<^item> \<open>Example\<close>: a complete run, start to commit, used by the witnesses; \<open>EngineProps\<close>: properties of the
    single operations of the engine.

  \<^item> \<open>Transaction\<close> (src/libethcore/Transaction, ECDSASignature, SM2Signature): transactions in both formats with
    their memoised hash, sender and bytes; the round trip of encoding.

  \<^item> \<open>NonceCheck\<close> (src/libtxpool/CommonTransactionNonceCheck, TransactionNonceCheck): the nonces of the pool
    and the window over the nonces of the last blocks; histories (\<open>nonce_reach\<close>) and what the window holds.

  \<^item> \<open>TxPool\<close> (src/libtxpool/TxPool): the transaction pool with its worker tasks; the invariant of the queue along every
    sequence of calls (\<open>pool_step\<close>), what is selected for a block, no replay, and two error cases.

  \<^item> \<open>Sealer\<close> (src/libconsensus/Sealer, pbft/PBFTSealer): the thread that fills and proposes blocks from the pool
    through the engine, and the dynamic limit on transactions per block, with floating-point
    arithmetic as exact products rounded to 24 and 53 bits; \<open>SealerProps\<close>: its properties.

  \<^item> \<open>RaftMsg\<close> and \<open>Raft\<close> (src/libconsensus/raft/Common.h, RaftEngine): the other consensus engine of the
    repository, on the same base record as the PBFT engine.  Its working thread is modelled round by
    round (\<open>raft_work\<close>), with the loop it is in and the local variables of that loop in the state.
    \<open>RaftFacts\<close>: the steps of a node (\<open>raft_step\<close>), the bounds of the election timeout as an invariant of
    them, and when a node becomes the leader; \<open>RaftExample\<close>: three nodes with first-in first-out links
    (\<open>trio_step\<close>) and a run of them; \<open>RaftProps\<close>: the properties, among them three ways in which the
    engine does not do what it means to.

  \<^bold>\<open>Conventions.\<close>  Integers keep their width where it matters: indices, ttl and hashes are words, heights
  and views are \<open>int\<close> with \<open>s64\<close> where the code computes on \<^verbatim>\<open>int64_t\<close>.  Exceptions are the left side of a sum.
  Maps are association lists.  Raft terms are 64 bit words.  Code outside the development is a field of the record \<open>engine_env\<close>:
  hashing and signatures, clocks, the set of sessions, the block codec, transaction verification and
  execution, the database transaction, and \<^verbatim>\<open>lexical_cast\<close>.  What the engine does to other modules is the list
  \<open>effects\<close>, newest first; \<open>Signs\<close> records every message the node signs in order to send it,
  \<open>DropBlockTrans\<close> every block it has committed.

  \<^bold>\<open>Hypotheses of the system theorems\<close>, all of them visible in \<open>world_ok\<close>, \<open>env_ok\<close>, \<open>step_ok\<close>,
  \<open>crypto_ok\<close>, \<open>committee_ok\<close> and \<open>net_reach\<close>: execution is deterministic on headers and keeps the
  height; a handled proposal names the block it carries, and one marked as empty carries no
  transaction; a handled commit request was signed as one by its signer; a key has one valid
  signature per hash; the sealers stay the same; at most a third of them are faulty.
  The code enforces neither the second, nor the third, nor the fourth; \<open>empty_mark_skips_lock\<close> and
  \<open>sign_request_counts_as_commit\<close> show what happens without two of them.

  \<^bold>\<open>Bounds.\<close>  All functions are total; there is no fuel except in \<open>Rlp\<close>, where the loops over a byte string
  run on its length and \<open>items_terminates\<close> shows that this is enough.

  \<^bold>\<open>Not modelled.\<close>  The mode in which proposals carry transaction hashes only
  (\<^verbatim>\<open>m_enablePrepareWithTxsHash\<close>), disk space checks, logging and JSON status of the engines; filling a
  received partial block from the pool; the sealer of the Raft engine, which joins the modelled base sealer to the
  modelled \<^verbatim>\<open>commit\<close>; transaction execution, storage back ends, networking, RPC and the rotating variant of PBFT,
  which the engines reach only through the interfaces above.
\<close>

section \<open>Properties of the whole system\<close>









end
